theory Spec2Isabelle
  imports Main "HOL-Library.Word" "HOL-Library.AList" "HOL-Library.Sublist"
begin

section \<open>JavaScript values used by server.js\<close>

text \<open>
  A JavaScript string is a sequence of UTF-16 code units. String literals of the source
  are written \<open>str ''...''\<close>. A string is falsy exactly when it is empty.
\<close>

type_synonym jschar = "16 word"
type_synonym jsstring = "jschar list"

definition str :: "string \<Rightarrow> jsstring" where
  "str s = map of_char s"

text \<open>
  \<open>String.prototype.trim\<close> removes the code units of the ECMAScript productions
  WhiteSpace and LineTerminator from both ends.
\<close>

definition isWhiteSpace :: "jschar \<Rightarrow> bool" where
  "isWhiteSpace c \<longleftrightarrow>
     c \<in> {0x9, 0xA, 0xB, 0xC, 0xD, 0x20, 0xA0, 0x1680, 0x2028, 0x2029, 0x202F, 0x205F,
          0x3000, 0xFEFF}
     \<or> (0x2000 \<le> c \<and> c \<le> 0x200A)"

definition trim :: "jsstring \<Rightarrow> jsstring" where
  "trim s = rev (dropWhile isWhiteSpace (rev (dropWhile isWhiteSpace s)))"

text \<open>\<open>s.includes(t)\<close>: \<open>t\<close> occurs in \<open>s\<close> as a contiguous run.\<close>

definition includesStr :: "jsstring \<Rightarrow> jsstring \<Rightarrow> bool" where
  "includesStr s t = sublist t s"

text \<open>
  \<open>Array.prototype.slice(start, end)\<close> on integer arguments: a negative index counts
  from the end, both indices are clamped to the array.
\<close>

definition relIndex :: "nat \<Rightarrow> int \<Rightarrow> int" where
  "relIndex len i = (if i < 0 then max (int len + i) 0 else min i (int len))"

definition jsSlice :: "'a list \<Rightarrow> int \<Rightarrow> int \<Rightarrow> 'a list" where
  "jsSlice xs start stop =
     (let k = relIndex (length xs) start; final = relIndex (length xs) stop
      in take (nat (max (final - k) 0)) (drop (nat k) xs))"

definition jsSliceFrom :: "'a list \<Rightarrow> int \<Rightarrow> 'a list" where
  "jsSliceFrom xs start = jsSlice xs start (int (length xs))"

text \<open>\<open>xs[i]\<close> is \<open>undefined\<close> outside the array.\<close>

definition jsNth :: "'a list \<Rightarrow> int \<Rightarrow> 'a option" where
  "jsNth xs i = (if 0 \<le> i \<and> i < int (length xs) then Some (xs ! nat i) else None)"

text \<open>\<open>Array.prototype.findIndex\<close>: the first index whose element passes, or -1.\<close>

fun findIndex :: "('a \<Rightarrow> bool) \<Rightarrow> 'a list \<Rightarrow> int" where
  "findIndex p [] = -1"
| "findIndex p (x # xs) =
     (if p x then 0 else (let i = findIndex p xs in if i = -1 then -1 else i + 1))"

text \<open>\<open>Array.prototype.join(sep)\<close>.\<close>

fun joinWith :: "jsstring \<Rightarrow> jsstring list \<Rightarrow> jsstring" where
  "joinWith sep [] = []"
| "joinWith sep [x] = x"
| "joinWith sep (x # y # ys) = x @ sep @ joinWith sep (y # ys)"

text \<open>
  \<open>Array.prototype.sort(compareFn)\<close> is stable and, for a consistent comparator, puts
  \<open>x\<close> before \<open>y\<close> only if \<open>compareFn(x, y) \<le> 0\<close>; elements that compare equal keep
  their order. It is modelled as a stable insertion sort.
\<close>

fun insertBy :: "('a \<Rightarrow> 'a \<Rightarrow> int) \<Rightarrow> 'a \<Rightarrow> 'a list \<Rightarrow> 'a list" where
  "insertBy cmp x [] = [x]"
| "insertBy cmp x (y # ys) = (if cmp y x \<le> 0 then y # insertBy cmp x ys else x # y # ys)"

definition sortBy :: "('a \<Rightarrow> 'a \<Rightarrow> int) \<Rightarrow> 'a list \<Rightarrow> 'a list" where
  "sortBy cmp xs = foldl (\<lambda>sorted x. insertBy cmp x sorted) [] xs"

text \<open>
  A JavaScript \<open>Set\<close> that the server iterates with side effects (\<open>user.rooms\<close>) keeps
  insertion order: a list without duplicates.
\<close>

definition setAdd :: "'a \<Rightarrow> 'a list \<Rightarrow> 'a list" where
  "setAdd x xs = (if x \<in> set xs then xs else xs @ [x])"

definition setDelete :: "'a \<Rightarrow> 'a list \<Rightarrow> 'a list" where
  "setDelete x xs = removeAll x xs"

text \<open>
  Functions of the platform whose tables are not part of the repository:
  \<open>String.prototype.localeCompare\<close> (the host's collation),
  \<open>String.prototype.toLowerCase\<close> (Unicode case mapping) and the stream of identifiers
  returned by successive calls of \<open>uuidv4()\<close>.
\<close>

record platform =
  localeCompare :: "jsstring \<Rightarrow> jsstring \<Rightarrow> int"
  toLowerCase :: "jsstring \<Rightarrow> jsstring"
  uuidv4 :: "nat \<Rightarrow> jsstring"

section \<open>Messages\<close>

text \<open>
  A message object. \<open>reactions\<close> is a \<open>Map\<close> from emoji to a \<open>Set\<close> of usernames,
  \<open>deliveredTo\<close> and \<open>readBy\<close> are \<open>Set\<close>s of usernames; the three fields may be
  missing (\<open>None\<close>), which the mutators below tolerate. The iteration order of these
  collections is not modelled.
\<close>

record message =
  m_id :: jsstring
  m_roomId :: jsstring
  m_sender :: jsstring
  m_senderId :: jsstring
  m_body :: jsstring
  m_timestamp :: jsstring
  m_attachments :: "jsstring list"
  m_isSystem :: bool
  m_isPrivate :: bool
  m_reactions :: "(jsstring \<rightharpoonup> jsstring set) option"
  m_deliveredTo :: "jsstring set option"
  m_readBy :: "jsstring set option"
  m_tempId :: "jsstring option"

definition MAX_ROOM_MESSAGES :: nat where
  "MAX_ROOM_MESSAGES = 250"

definition MAX_PRIVATE_MESSAGES :: nat where
  "MAX_PRIVATE_MESSAGES = 250"

text \<open>\<open>collection.splice(0, n)\<close> removes the first \<open>n\<close> elements in place.\<close>

definition trimMessages :: "'a list \<Rightarrow> nat \<Rightarrow> 'a list" where
  "trimMessages collection maxLen =
     (if length collection > maxLen
      then drop (length collection - maxLen) collection
      else collection)"

definition setWith :: "('k \<rightharpoonup> 'v) \<Rightarrow> 'k \<Rightarrow> 'v \<Rightarrow> ('k \<rightharpoonup> 'v) \<times> 'v" where
  "setWith collection key fresh =
     (case collection key of
        None \<Rightarrow> (collection(key \<mapsto> fresh), fresh)
      | Some v \<Rightarrow> (collection, v))"

definition registerDelivered :: "message \<Rightarrow> jsstring \<Rightarrow> message" where
  "registerDelivered message username =
     message\<lparr>m_deliveredTo :=
       Some (insert username (case m_deliveredTo message of None \<Rightarrow> {} | Some d \<Rightarrow> d))\<rparr>"

definition registerRead :: "message \<Rightarrow> jsstring \<Rightarrow> message" where
  "registerRead message username =
     message\<lparr>m_readBy :=
       Some (insert username (case m_readBy message of None \<Rightarrow> {} | Some d \<Rightarrow> d))\<rparr>"

text \<open>
  \<open>toggleReaction\<close>: the user set of the emoji is created on demand by \<open>setWith\<close>; a
  \<open>Set\<close> is finite, so its \<open>size\<close> is 0 exactly when it is empty.
\<close>

definition toggleReaction :: "message \<Rightarrow> jsstring \<Rightarrow> jsstring \<Rightarrow> message" where
  "toggleReaction message emoji username =
     (let reactions0 = (case m_reactions message of None \<Rightarrow> Map.empty | Some r \<Rightarrow> r);
          (reactions1, userSet) = setWith reactions0 emoji {}
      in if username \<in> userSet
         then (let userSet' = userSet - {username};
                   reactions2 = reactions1(emoji \<mapsto> userSet')
               in message\<lparr>m_reactions :=
                    Some (if userSet' = {} then reactions2(emoji := None) else reactions2)\<rparr>)
         else message\<lparr>m_reactions := Some (reactions1(emoji \<mapsto> insert username userSet))\<rparr>)"

text \<open>
  \<open>buildMessage\<close>; the identifier and the timestamp are the values that \<open>uuidv4()\<close> and
  \<open>new Date().toISOString()\<close> return at the call. \<open>tempId || null\<close> maps the empty
  string to \<open>null\<close>.
\<close>

definition buildMessage ::
  "jsstring \<Rightarrow> jsstring \<Rightarrow> jsstring \<Rightarrow> jsstring \<times> jsstring \<Rightarrow> jsstring \<Rightarrow> jsstring list \<Rightarrow>
   bool \<Rightarrow> bool \<Rightarrow> jsstring option \<Rightarrow> message" where
  "buildMessage uuid now roomId sender body attachments isSystem isPrivate tempId =
     \<lparr>m_id = uuid,
      m_roomId = roomId,
      m_sender = snd sender,
      m_senderId = fst sender,
      m_body = body,
      m_timestamp = now,
      m_attachments = attachments,
      m_isSystem = isSystem,
      m_isPrivate = isPrivate,
      m_reactions = Some Map.empty,
      m_deliveredTo = Some {snd sender},
      m_readBy = Some (if isSystem then {} else {snd sender}),
      m_tempId = (case tempId of None \<Rightarrow> None | Some t \<Rightarrow> if t = [] then None else Some t)\<rparr>"

text \<open>\<open>makeThreadKey\<close> sorts the two names with \<open>localeCompare\<close> and joins them.\<close>

definition makeThreadKey :: "(jsstring \<Rightarrow> jsstring \<Rightarrow> int) \<Rightarrow> jsstring \<Rightarrow> jsstring \<Rightarrow> jsstring" where
  "makeThreadKey cmp a b = joinWith (str ''::'') (sortBy cmp [a, b])"


section \<open>Server state\<close>

text \<open>
  The module-level \<open>Map\<close>s \<open>users\<close>, \<open>usernameToSocketId\<close>, \<open>rooms\<close> and
  \<open>privateThreads\<close> are association lists in insertion order: \<open>Map.set\<close> is
  \<open>AList.update\<close>, \<open>Map.delete\<close> is \<open>AList.delete\<close>, \<open>Map.get\<close> is \<open>map_of\<close>.
  Message objects live in a store (\<open>heap\<close>), and the logs of rooms and threads hold
  their addresses, because a message is still mutated after it has been pushed to a log.
  Cells at or above \<open>nextRef\<close> have not been allocated. \<open>uuidCalls\<close> counts the calls
  of \<open>uuidv4()\<close>. The map \<open>typingTimers\<close> is not part of the model.
\<close>

record user =
  u_id :: jsstring
  u_username :: jsstring
  u_status :: jsstring
  u_activeRoom :: jsstring
  u_rooms :: "jsstring list"
  u_lastSeen :: jsstring

record room =
  r_id :: jsstring
  r_name :: jsstring
  r_description :: jsstring
  r_createdAt :: jsstring
  r_createdBy :: jsstring
  r_messages :: "nat list"
  r_members :: "jsstring set"
  r_typing :: "jsstring set"

record thread =
  t_id :: jsstring
  t_participants :: "jsstring list"
  t_messages :: "nat list"
  t_createdAt :: jsstring

record state =
  users :: "(jsstring \<times> user) list"
  usernameToSocketId :: "(jsstring \<times> jsstring) list"
  rooms :: "(jsstring \<times> room) list"
  privateThreads :: "(jsstring \<times> thread) list"
  heap :: "nat \<Rightarrow> message"
  nextRef :: nat
  uuidCalls :: nat

definition addMessageToRoom :: "room \<Rightarrow> nat \<Rightarrow> room" where
  "addMessageToRoom room message =
     room\<lparr>r_messages := trimMessages (r_messages room @ [message]) MAX_ROOM_MESSAGES\<rparr>"

definition addMessageToThread :: "thread \<Rightarrow> nat \<Rightarrow> thread" where
  "addMessageToThread thread message =
     thread\<lparr>t_messages := trimMessages (t_messages thread @ [message]) MAX_PRIVATE_MESSAGES\<rparr>"

subsection \<open>Serialised views\<close>

record smessage =
  sm_id :: jsstring
  sm_roomId :: jsstring
  sm_sender :: jsstring
  sm_senderId :: jsstring
  sm_body :: jsstring
  sm_timestamp :: jsstring
  sm_attachments :: "jsstring list"
  sm_isSystem :: bool
  sm_isPrivate :: bool
  sm_reactions :: "jsstring \<rightharpoonup> jsstring set"
  sm_deliveredTo :: "jsstring set"
  sm_readBy :: "jsstring set"
  sm_tempId :: "jsstring option"

record sroom =
  sr_id :: jsstring
  sr_name :: jsstring
  sr_description :: jsstring
  sr_createdAt :: jsstring
  sr_createdBy :: jsstring
  sr_memberCount :: nat
  sr_hasMore :: bool
  sr_messages :: "smessage list"

record sthread =
  st_id :: jsstring
  st_participants :: "jsstring list"
  st_counterpart :: "jsstring option"
  st_createdAt :: jsstring
  st_hasMore :: bool
  st_messages :: "smessage list"

type_synonym room_info = "jsstring \<times> jsstring \<times> jsstring \<times> nat"

definition serializeReactions :: "(jsstring \<rightharpoonup> jsstring set) option \<Rightarrow> (jsstring \<rightharpoonup> jsstring set)" where
  "serializeReactions reactionMap = (case reactionMap of None \<Rightarrow> Map.empty | Some r \<Rightarrow> r)"

definition arrayFrom :: "'a set option \<Rightarrow> 'a set" where
  "arrayFrom xs = (case xs of None \<Rightarrow> {} | Some d \<Rightarrow> d)"

definition serializeMessage :: "message \<Rightarrow> smessage" where
  "serializeMessage message =
     \<lparr>sm_id = m_id message,
      sm_roomId = m_roomId message,
      sm_sender = m_sender message,
      sm_senderId = m_senderId message,
      sm_body = m_body message,
      sm_timestamp = m_timestamp message,
      sm_attachments = m_attachments message,
      sm_isSystem = m_isSystem message,
      sm_isPrivate = m_isPrivate message,
      sm_reactions = serializeReactions (m_reactions message),
      sm_deliveredTo = arrayFrom (m_deliveredTo message),
      sm_readBy = arrayFrom (m_readBy message),
      sm_tempId = (case m_tempId message of None \<Rightarrow> None | Some t \<Rightarrow> if t = [] then None else Some t)\<rparr>"

definition serializeRoom :: "state \<Rightarrow> room \<Rightarrow> int \<Rightarrow> sroom" where
  "serializeRoom s room limit =
     (let messages = map (\<lambda>a. serializeMessage (heap s a)) (jsSliceFrom (r_messages room) (- limit))
      in \<lparr>sr_id = r_id room,
          sr_name = r_name room,
          sr_description = r_description room,
          sr_createdAt = r_createdAt room,
          sr_createdBy = r_createdBy room,
          sr_memberCount = card (r_members room),
          sr_hasMore = (length (r_messages room) > length messages),
          sr_messages = messages\<rparr>)"

definition serializeThread :: "state \<Rightarrow> thread \<Rightarrow> jsstring \<Rightarrow> sthread" where
  "serializeThread s thread viewer =
     (let messages = map (\<lambda>a. serializeMessage (heap s a)) (jsSliceFrom (t_messages thread) (- 30));
          counterpart = (case find (\<lambda>participant. participant \<noteq> viewer) (t_participants thread) of
                           None \<Rightarrow> None
                         | Some p \<Rightarrow> if p = [] then None else Some p)
      in \<lparr>st_id = t_id thread,
          st_participants = t_participants thread,
          st_counterpart = counterpart,
          st_createdAt = t_createdAt thread,
          st_hasMore = (length (t_messages thread) > length messages),
          st_messages = messages\<rparr>)"

definition getPublicUsers :: "state \<Rightarrow> user list" where
  "getPublicUsers s = map snd (users s)"

definition roomInfo :: "room \<Rightarrow> room_info" where
  "roomInfo room = (r_id room, r_name room, r_description room, card (r_members room))"

definition listUserThreads :: "state \<Rightarrow> jsstring \<Rightarrow> sthread list" where
  "listUserThreads s username =
     map (\<lambda>thread. serializeThread s thread username)
       (filter (\<lambda>thread. username \<in> set (t_participants thread)) (map snd (privateThreads s)))"

subsection \<open>What a handler sends\<close>

datatype payload =
    InitialState "sroom list" "sthread list" jsstring "user list"
  | UserList "user list"
  | RoomList "room_info list"
  | UserJoined jsstring jsstring jsstring
  | UserLeft jsstring jsstring jsstring
  | ReceiveMessage smessage
  | RoomJoined sroom
  | RoomUserJoined jsstring jsstring jsstring
  | RoomUserLeft jsstring jsstring jsstring
  | ActiveRoomChanged jsstring
  | TypingUsers jsstring "jsstring set"
  | DeliveryUpdate jsstring jsstring "jsstring set"
  | ReadUpdate jsstring jsstring "jsstring set"
  | ReactionUpdate jsstring jsstring "jsstring \<rightharpoonup> jsstring set"
  | PrivateMessage sthread smessage
  | PrivateNotification jsstring jsstring
  | PrivateTyping jsstring bool
  | PrivateReadReceipt jsstring jsstring "jsstring set"
  | PrivateReactionUpdate jsstring jsstring "jsstring \<rightharpoonup> jsstring set"

datatype ack =
    AckError jsstring
  | AckOk
  | AckJoined jsstring
  | AckRoom jsstring sroom
  | AckMessage jsstring
  | AckPrivate jsstring jsstring
  | AckHistory "jsstring option" "smessage list" "jsstring option" bool

text \<open>
  \<open>SocketEmit sid\<close> is \<open>socket.emit\<close> on the connection \<open>sid\<close>, \<open>IoTo r\<close> is
  \<open>io.to(r).emit\<close>, \<open>SocketTo sid r\<close> is \<open>socket.to(r).emit\<close>, \<open>IoEmit\<close> is \<open>io.emit\<close>,
  \<open>SocketJoin\<close> and \<open>SocketLeave\<close> are \<open>socket.join\<close> and \<open>socket.leave\<close>, \<open>Ack\<close> is
  the call of the acknowledgement callback.
\<close>

datatype action =
    SocketEmit jsstring payload
  | IoTo jsstring payload
  | SocketTo jsstring jsstring payload
  | IoEmit payload
  | SocketJoin jsstring jsstring
  | SocketLeave jsstring jsstring
  | Ack ack

definition emitUserList :: "state \<Rightarrow> action list" where
  "emitUserList s = [IoEmit (UserList (getPublicUsers s))]"

definition emitRoomList :: "state \<Rightarrow> action list" where
  "emitRoomList s = [IoEmit (RoomList (map (\<lambda>(k, room). roomInfo room) (rooms s)))]"


section \<open>Rooms and threads\<close>

definition orDefault :: "jsstring option \<Rightarrow> jsstring \<Rightarrow> jsstring" where
  "orDefault v d = (case v of None \<Rightarrow> d | Some x \<Rightarrow> if x = [] then d else x)"

definition truthy :: "jsstring option \<Rightarrow> bool" where
  "truthy v = (case v of None \<Rightarrow> False | Some x \<Rightarrow> x \<noteq> [])"

definition isSlugChar :: "jschar \<Rightarrow> bool" where
  "isSlugChar c \<longleftrightarrow> (0x61 \<le> c \<and> c \<le> 0x7A) \<or> (0x30 \<le> c \<and> c \<le> 0x39)"

text \<open>\<open>replace(/[^a-z0-9]+/g, '-')\<close>: every maximal run of other characters becomes one hyphen.\<close>

fun collapseRuns :: "bool \<Rightarrow> jsstring \<Rightarrow> jsstring" where
  "collapseRuns inRun [] = []"
| "collapseRuns inRun (c # cs) =
     (if isSlugChar c then c # collapseRuns False cs
      else if inRun then collapseRuns True cs
      else 0x2D # collapseRuns True cs)"

text \<open>\<open>replace(/(^-|-$)/g, '')\<close>: a hyphen at the start and a hyphen at the end are removed.\<close>

definition stripHyphens :: "jsstring \<Rightarrow> jsstring" where
  "stripHyphens v =
     (let v1 = (case v of [] \<Rightarrow> [] | c # cs \<Rightarrow> if c = 0x2D then cs else v)
      in if v1 \<noteq> [] \<and> last v1 = 0x2D then butlast v1 else v1)"

definition normalizeRoomId :: "platform \<Rightarrow> state \<Rightarrow> jsstring \<Rightarrow> jsstring \<times> state" where
  "normalizeRoomId P s v =
     (let slug = stripHyphens (collapseRuns False (trim (toLowerCase P v)))
      in if slug \<noteq> [] then (slug, s)
         else (str ''room-'' @ uuidv4 P (uuidCalls s), s\<lparr>uuidCalls := Suc (uuidCalls s)\<rparr>))"

record room_options =
  o_id :: "jsstring option"
  o_name :: "jsstring option"
  o_description :: "jsstring option"
  o_createdBy :: "jsstring option"

text \<open>\<open>createRoom\<close> returns the key under which the room is stored, the room and the state.\<close>

definition createRoom ::
  "platform \<Rightarrow> state \<Rightarrow> jsstring \<Rightarrow> room_options \<Rightarrow> jsstring \<Rightarrow> jsstring \<times> room \<times> state" where
  "createRoom P s name options now =
     (let (roomId, s1) = (if truthy (o_id options) then (orDefault (o_id options) [], s)
                          else normalizeRoomId P s name)
      in case map_of (rooms s1) roomId of
           Some existing \<Rightarrow> (roomId, existing, s1)
         | None \<Rightarrow>
             (let room = \<lparr>r_id = roomId,
                          r_name = orDefault (o_name options) name,
                          r_description = orDefault (o_description options) [],
                          r_createdAt = now,
                          r_createdBy = orDefault (o_createdBy options) (str ''system''),
                          r_messages = [],
                          r_members = {},
                          r_typing = {}\<rparr>
              in (roomId, room, s1\<lparr>rooms := AList.update roomId room (rooms s1)\<rparr>)))"

definition DEFAULT_ROOMS :: "room_options list" where
  "DEFAULT_ROOMS =
     [\<lparr>o_id = Some (str ''general''), o_name = Some (str ''General''),
       o_description = Some (str ''Welcome to the main lobby. Say hi '' @ [0xD83D, 0xDC4B]),
       o_createdBy = None\<rparr>,
      \<lparr>o_id = Some (str ''random''), o_name = Some (str ''Random''),
       o_description = Some (str ''Anything goes. Share memes, links, and fun stuff.''),
       o_createdBy = None\<rparr>]"

definition blankMessage :: message where
  "blankMessage = buildMessage [] [] [] ([], []) [] [] False False None"

definition emptyState :: state where
  "emptyState =
     \<lparr>users = [], usernameToSocketId = [], rooms = [], privateThreads = [],
      heap = (\<lambda>a. blankMessage), nextRef = 0, uuidCalls = 0\<rparr>"

text \<open>The state after the module has been loaded at time \<open>now\<close>.\<close>

definition initialState :: "platform \<Rightarrow> jsstring \<Rightarrow> state" where
  "initialState P now =
     foldl (\<lambda>s room. snd (snd (createRoom P s (orDefault (o_name room) []) room now)))
       emptyState DEFAULT_ROOMS"

definition ensurePrivateThread ::
  "platform \<Rightarrow> state \<Rightarrow> jsstring \<Rightarrow> jsstring \<Rightarrow> jsstring \<Rightarrow> jsstring \<times> thread \<times> state" where
  "ensurePrivateThread P s userA userB now =
     (let key = makeThreadKey (localeCompare P) userA userB
      in case map_of (privateThreads s) key of
           Some existing \<Rightarrow> (key, existing, s)
         | None \<Rightarrow>
             (let thread = \<lparr>t_id = key, t_participants = [userA, userB], t_messages = [],
                            t_createdAt = now\<rparr>
              in (key, thread, s\<lparr>privateThreads := AList.update key thread (privateThreads s)\<rparr>)))"

text \<open>A call of \<open>buildMessage\<close>: the new object gets the next address of the store.\<close>

definition newMessage ::
  "platform \<Rightarrow> state \<Rightarrow> jsstring \<Rightarrow> jsstring \<Rightarrow> jsstring \<times> jsstring \<Rightarrow> jsstring \<Rightarrow> jsstring list \<Rightarrow>
   bool \<Rightarrow> bool \<Rightarrow> jsstring option \<Rightarrow> nat \<times> state" where
  "newMessage P s now roomId sender body attachments isSystem isPrivate tempId =
     (let message = buildMessage (uuidv4 P (uuidCalls s)) now roomId sender body attachments
                      isSystem isPrivate tempId
      in (nextRef s,
          s\<lparr>heap := (heap s)(nextRef s := message),
            nextRef := Suc (nextRef s),
            uuidCalls := Suc (uuidCalls s)\<rparr>))"

definition addSystemMessage ::
  "platform \<Rightarrow> state \<Rightarrow> jsstring \<Rightarrow> jsstring \<Rightarrow> jsstring \<Rightarrow> state \<times> action list" where
  "addSystemMessage P s roomId text now =
     (case map_of (rooms s) roomId of
        None \<Rightarrow> (s, [])
      | Some room \<Rightarrow>
          (let (message, s1) = newMessage P s now roomId (str ''system'', str ''System'') text []
                                 True False None;
               s2 = s1\<lparr>rooms := AList.update roomId (addMessageToRoom room message) (rooms s1)\<rparr>
           in (s2, [IoTo roomId (ReceiveMessage (serializeMessage (heap s2 message)))])))"


section \<open>Socket event handlers\<close>

text \<open>
  A handler takes the state, the id of the connection (\<open>socket.id\<close>), the fields of the
  payload (\<open>None\<close> for a field that is missing) and the time of the call, and returns the
  new state with what it sent, in order.
\<close>

datatype join_payload = JoinString jsstring | JoinObject "jsstring option" | JoinNothing

definition getRoom :: "state \<Rightarrow> jsstring option \<Rightarrow> room option" where
  "getRoom s roomId = (case roomId of None \<Rightarrow> None | Some r \<Rightarrow> map_of (rooms s) r)"

text \<open>
  \<open>user_join\<close>. The result \<open>None\<close> is the \<open>TypeError\<close> that \<open>serializeRoom\<close> raises
  when \<open>rooms.get(roomId)\<close> is \<open>undefined\<close>.
\<close>

definition user_join ::
  "platform \<Rightarrow> state \<Rightarrow> jsstring \<Rightarrow> join_payload \<Rightarrow> jsstring \<Rightarrow> (state \<times> action list) option" where
  "user_join P s sid payload now =
     (let rawUsername = (case payload of JoinString v \<Rightarrow> Some v | JoinObject v \<Rightarrow> v
                         | JoinNothing \<Rightarrow> None);
          username = (if truthy rawUsername then trim (orDefault rawUsername []) else [])
      in if username = [] then Some (s, [Ack (AckError (str ''Username is required''))])
         else if map_of (usernameToSocketId s) username \<noteq> None
         then Some (s, [Ack (AckError (str ''That username is already in use''))])
         else
           (let userRecord = \<lparr>u_id = sid, u_username = username, u_status = str ''online'',
                               u_activeRoom = str ''general'', u_rooms = [], u_lastSeen = now\<rparr>;
                s1 = s\<lparr>users := AList.update sid userRecord (users s)\<rparr>;
                s2 = s1\<lparr>usernameToSocketId := AList.update username sid (usernameToSocketId s1)\<rparr>;
                (roomKey, defaultRoom, s3) =
                   (case map_of (rooms s2) (str ''general'') of
                      Some r \<Rightarrow> (str ''general'', r, s2)
                    | None \<Rightarrow> createRoom P s2 (str ''General'')
                               \<lparr>o_id = Some (str ''general''), o_name = None,
                                o_description = None, o_createdBy = None\<rparr> now);
                userRecord1 = userRecord\<lparr>u_rooms := setAdd (r_id defaultRoom) (u_rooms userRecord)\<rparr>;
                s4 = s3\<lparr>users := AList.update sid userRecord1 (users s3)\<rparr>;
                s5 = s4\<lparr>rooms := AList.update roomKey
                                   (defaultRoom\<lparr>r_members := insert sid (r_members defaultRoom)\<rparr>)
                                   (rooms s4)\<rparr>
            in case those (map (\<lambda>roomId. map_option (\<lambda>room. serializeRoom s5 room 30)
                                            (map_of (rooms s5) roomId))
                             (u_rooms userRecord1)) of
                 None \<Rightarrow> None
               | Some initialRooms \<Rightarrow>
                   (let initialThreads = listUserThreads s5 username;
                        out1 = [SocketJoin sid (r_id defaultRoom),
                                SocketEmit sid (InitialState initialRooms initialThreads
                                                  (u_activeRoom userRecord1) (getPublicUsers s5))]
                               @ emitUserList s5 @ emitRoomList s5
                               @ [IoEmit (UserJoined username sid now)];
                        (s6, out2) = addSystemMessage P s5 (r_id defaultRoom)
                                       (username @ str '' joined the chat'') now
                    in Some (s6, out1 @ out2 @ [Ack (AckJoined (u_activeRoom userRecord1))]))))"

definition join_room ::
  "platform \<Rightarrow> state \<Rightarrow> jsstring \<Rightarrow> jsstring option \<Rightarrow> jsstring option \<Rightarrow> jsstring option \<Rightarrow>
   jsstring \<Rightarrow> state \<times> action list" where
  "join_room P s sid requestedRoom roomName description now =
     (case map_of (users s) sid of
        None \<Rightarrow> (s, [Ack (AckError (str ''Not authenticated''))])
      | Some user \<Rightarrow>
          if \<not> truthy requestedRoom \<and> \<not> truthy roomName
          then (s, [Ack (AckError (str ''Room name is required''))])
          else
            (let targetName = (if truthy requestedRoom then orDefault requestedRoom []
                               else orDefault roomName []);
                 (roomKey, room, s1) =
                    createRoom P s targetName
                      \<lparr>o_id = requestedRoom, o_name = roomName, o_description = description,
                       o_createdBy = Some (u_username user)\<rparr> now;
                 (user1, s3, out1) =
                    (if r_id room \<notin> set (u_rooms user)
                     then (let user1 = user\<lparr>u_rooms := setAdd (r_id room) (u_rooms user)\<rparr>;
                               s2 = s1\<lparr>users := AList.update sid user1 (users s1),
                                       rooms := AList.update roomKey
                                                  (room\<lparr>r_members := insert sid (r_members room)\<rparr>)
                                                  (rooms s1)\<rparr>;
                               (s3, out) = addSystemMessage P s2 (r_id room)
                                             (u_username user @ str '' joined '' @ r_name room) now
                           in (user1, s3, SocketJoin sid (r_id room) # out))
                     else (user, s1, []));
                 user2 = user1\<lparr>u_activeRoom := r_id room\<rparr>;
                 s4 = s3\<lparr>users := AList.update sid user2 (users s3)\<rparr>;
                 room1 = (case map_of (rooms s4) roomKey of Some r \<Rightarrow> r | None \<Rightarrow> room);
                 payloadRoom = serializeRoom s4 room1 30
             in (s4, out1
                     @ [SocketEmit sid (RoomJoined payloadRoom),
                        SocketTo sid (r_id room)
                          (RoomUserJoined (r_id room) (u_id user) (u_username user))]
                     @ emitRoomList s4
                     @ [Ack (AckRoom (r_id room) payloadRoom)])))"

definition leave_room ::
  "platform \<Rightarrow> state \<Rightarrow> jsstring \<Rightarrow> jsstring option \<Rightarrow> jsstring \<Rightarrow> state \<times> action list" where
  "leave_room P s sid roomId now =
     (case (map_of (users s) sid, getRoom s roomId) of
        (Some user, Some room) \<Rightarrow>
          (let user1 = user\<lparr>u_rooms := setDelete (r_id room) (u_rooms user)\<rparr>;
               s1 = s\<lparr>users := AList.update sid user1 (users s)\<rparr>;
               s2 = s1\<lparr>rooms := AList.update (orDefault roomId [])
                                  (room\<lparr>r_members := r_members room - {sid}\<rparr>) (rooms s1)\<rparr>;
               (s3, out1) = addSystemMessage P s2 (r_id room)
                              (u_username user @ str '' left '' @ r_name room) now;
               (s4, out2) =
                  (if u_activeRoom user1 = r_id room
                   then (s3\<lparr>users := AList.update sid (user1\<lparr>u_activeRoom := str ''general''\<rparr>)
                                       (users s3)\<rparr>,
                         [SocketEmit sid (ActiveRoomChanged (str ''general''))])
                   else (s3, []))
           in (s4, [SocketLeave sid (r_id room)] @ out1 @ out2
                   @ [SocketTo sid (r_id room)
                        (RoomUserLeft (r_id room) (u_id user) (u_username user))]
                   @ emitRoomList s4
                   @ [Ack AckOk]))
      | _ \<Rightarrow> (s, [Ack (AckError (str ''Unable to leave room''))]))"

definition send_message ::
  "platform \<Rightarrow> state \<Rightarrow> jsstring \<Rightarrow> jsstring option \<Rightarrow> jsstring option \<Rightarrow> jsstring list \<Rightarrow>
   jsstring option \<Rightarrow> jsstring \<Rightarrow> state \<times> action list" where
  "send_message P s sid roomId message attachments tempId now =
     (let trimmed = (if truthy message then trim (orDefault message []) else [])
      in case map_of (users s) sid of
           None \<Rightarrow> (s, [Ack (AckError (str ''Not authenticated''))])
         | Some user \<Rightarrow>
             if \<not> truthy roomId then (s, [Ack (AckError (str ''Room is required''))])
             else if trimmed = [] then (s, [Ack (AckError (str ''Message cannot be empty''))])
             else
               (case getRoom s roomId of
                  None \<Rightarrow> (s, [Ack (AckError (str ''Room not found''))])
                | Some room \<Rightarrow>
                    (let (messageRecord, s1) =
                            newMessage P s now (orDefault roomId []) (u_id user, u_username user)
                              trimmed attachments False False tempId;
                         s2 = s1\<lparr>rooms := AList.update (orDefault roomId [])
                                            (addMessageToRoom room messageRecord) (rooms s1)\<rparr>
                     in (s2, [IoTo (orDefault roomId [])
                                (ReceiveMessage (serializeMessage (heap s2 messageRecord))),
                              Ack (AckMessage (m_id (heap s2 messageRecord)))]))))"


text \<open>\<open>messages.find((item) => item.id === messageId)\<close> on a log of addresses.\<close>

definition findMessage :: "state \<Rightarrow> nat list \<Rightarrow> jsstring \<Rightarrow> nat option" where
  "findMessage s messages messageId = find (\<lambda>a. m_id (heap s a) = messageId) messages"

definition message_delivered ::
  "state \<Rightarrow> jsstring \<Rightarrow> jsstring \<Rightarrow> jsstring option \<Rightarrow> state \<times> action list" where
  "message_delivered s sid messageId roomId =
     (case (map_of (users s) sid, getRoom s roomId) of
        (Some user, Some room) \<Rightarrow>
          (case findMessage s (r_messages room) messageId of
             None \<Rightarrow> (s, [])
           | Some a \<Rightarrow>
               (let s1 = s\<lparr>heap := (heap s)(a := registerDelivered (heap s a) (u_username user))\<rparr>
                in (s1, [IoTo (orDefault roomId [])
                           (DeliveryUpdate (orDefault roomId []) messageId
                              (arrayFrom (m_deliveredTo (heap s1 a))))])))
      | _ \<Rightarrow> (s, []))"

definition message_read ::
  "state \<Rightarrow> jsstring \<Rightarrow> jsstring \<Rightarrow> jsstring option \<Rightarrow> state \<times> action list" where
  "message_read s sid messageId roomId =
     (case (map_of (users s) sid, getRoom s roomId) of
        (Some user, Some room) \<Rightarrow>
          (case findMessage s (r_messages room) messageId of
             None \<Rightarrow> (s, [])
           | Some a \<Rightarrow>
               (let s1 = s\<lparr>heap := (heap s)(a := registerRead (heap s a) (u_username user))\<rparr>
                in (s1, [IoTo (orDefault roomId [])
                           (ReadUpdate (orDefault roomId []) messageId
                              (arrayFrom (m_readBy (heap s1 a))))])))
      | _ \<Rightarrow> (s, []))"

definition react_to_message ::
  "state \<Rightarrow> jsstring \<Rightarrow> jsstring option \<Rightarrow> jsstring \<Rightarrow> jsstring \<Rightarrow> state \<times> action list" where
  "react_to_message s sid roomId messageId emoji =
     (case (map_of (users s) sid, getRoom s roomId) of
        (Some user, Some room) \<Rightarrow>
          (case findMessage s (r_messages room) messageId of
             None \<Rightarrow> (s, [])
           | Some a \<Rightarrow>
               (let s1 = s\<lparr>heap := (heap s)(a := toggleReaction (heap s a) emoji (u_username user))\<rparr>
                in (s1, [IoTo (orDefault roomId [])
                           (ReactionUpdate (orDefault roomId []) messageId
                              (serializeReactions (m_reactions (heap s1 a))))])))
      | _ \<Rightarrow> (s, []))"

text \<open>
  \<open>typing\<close>, without its timers: the handler updates the typing set of the room and sends
  it. \<open>typingExpired\<close> is the callback that the handler schedules with \<open>setTimeout\<close>; when
  it runs, and whether it has been cancelled, is not modelled.
\<close>

definition typing ::
  "state \<Rightarrow> jsstring \<Rightarrow> jsstring option \<Rightarrow> bool \<Rightarrow> state \<times> action list" where
  "typing s sid roomId isTyping =
     (case (map_of (users s) sid, getRoom s roomId) of
        (Some user, Some room) \<Rightarrow>
          (let room1 = room\<lparr>r_typing := (if isTyping then insert (u_username user) (r_typing room)
                                           else r_typing room - {u_username user})\<rparr>;
               s1 = s\<lparr>rooms := AList.update (orDefault roomId []) room1 (rooms s)\<rparr>
           in (s1, [IoTo (orDefault roomId []) (TypingUsers (orDefault roomId []) (r_typing room1))]))
      | _ \<Rightarrow> (s, []))"

definition typingExpired :: "state \<Rightarrow> jsstring \<Rightarrow> jsstring \<Rightarrow> state \<times> action list" where
  "typingExpired s roomId username =
     (case map_of (rooms s) roomId of
        None \<Rightarrow> (s, [])
      | Some room \<Rightarrow>
          (let room1 = room\<lparr>r_typing := r_typing room - {username}\<rparr>;
               s1 = s\<lparr>rooms := AList.update roomId room1 (rooms s)\<rparr>
           in (s1, [IoTo roomId (TypingUsers roomId (r_typing room1))])))"

definition private_typing ::
  "state \<Rightarrow> jsstring \<Rightarrow> jsstring option \<Rightarrow> bool \<Rightarrow> state \<times> action list" where
  "private_typing s sid to isTyping =
     (let recipientSocketId = map_of (usernameToSocketId s) (orDefault to [])
      in case map_of (users s) sid of
           None \<Rightarrow> (s, [])
         | Some user \<Rightarrow>
             if \<not> truthy recipientSocketId then (s, [])
             else (s, [IoTo (orDefault recipientSocketId [])
                         (PrivateTyping (u_username user) isTyping)]))"

text \<open>
  \<open>Number(limit) || 30\<close>, for a limit that is missing or not a number (\<open>None\<close>) or an
  integer; 0 is falsy.
\<close>

definition numberOr30 :: "int option \<Rightarrow> int" where
  "numberOr30 limit = (case limit of None \<Rightarrow> 30 | Some n \<Rightarrow> if n = 0 then 30 else n)"

definition request_room_history ::
  "state \<Rightarrow> jsstring \<Rightarrow> jsstring option \<Rightarrow> jsstring option \<Rightarrow> int option \<Rightarrow> action list" where
  "request_room_history s sid roomId before limit =
     (case (map_of (users s) sid, getRoom s roomId) of
        (Some user, Some room) \<Rightarrow>
          (let parsedLimit = min (numberOr30 limit) 100;
               beforeIndex = (if truthy before
                              then findIndex (\<lambda>a. m_id (heap s a) = orDefault before [])
                                     (r_messages room)
                              else - 1);
               endIndex = (if beforeIndex = - 1 then int (length (r_messages room)) else beforeIndex);
               startIndex = max 0 (endIndex - parsedLimit);
               slice = map (\<lambda>a. serializeMessage (heap s a))
                         (jsSlice (r_messages room) startIndex endIndex);
               hasMore = (startIndex > 0);
               nextCursor = (if hasMore
                             then (case jsNth (r_messages room) (startIndex - 1) of
                                     None \<Rightarrow> None
                                   | Some a \<Rightarrow> if m_id (heap s a) = [] then None
                                              else Some (m_id (heap s a)))
                             else None)
           in [Ack (AckHistory roomId slice nextCursor hasMore)])
      | _ \<Rightarrow> [Ack (AckError (str ''Room not found''))])"

definition private_message ::
  "platform \<Rightarrow> state \<Rightarrow> jsstring \<Rightarrow> jsstring option \<Rightarrow> jsstring option \<Rightarrow> jsstring option \<Rightarrow>
   jsstring \<Rightarrow> state \<times> action list" where
  "private_message P s sid to message tempId now =
     (let trimmed = (if truthy message then trim (orDefault message []) else [])
      in case map_of (users s) sid of
           None \<Rightarrow> (s, [Ack (AckError (str ''Not authenticated''))])
         | Some user \<Rightarrow>
             if \<not> truthy to then (s, [Ack (AckError (str ''Recipient is required''))])
             else if trimmed = [] then (s, [Ack (AckError (str ''Message cannot be empty''))])
             else
               (let recipientSocketId = map_of (usernameToSocketId s) (orDefault to []);
                    recipientUser = (if truthy recipientSocketId
                                     then map_of (users s) (orDefault recipientSocketId [])
                                     else None)
                in case recipientUser of
                     None \<Rightarrow> (s, [Ack (AckError (str ''Recipient is offline''))])
                   | Some recipientUser \<Rightarrow>
                       (let (key, thread, s1) =
                               ensurePrivateThread P s (u_username user) (u_username recipientUser) now;
                            (messageRecord, s2) =
                               newMessage P s1 now (t_id thread) (u_id user, u_username user)
                                 trimmed [] False True tempId;
                            thread1 = addMessageToThread thread messageRecord;
                            s3 = s2\<lparr>privateThreads := AList.update key thread1 (privateThreads s2)\<rparr>;
                            s4 = s3\<lparr>heap := (heap s3)(messageRecord :=
                                             registerDelivered (heap s3 messageRecord)
                                               (u_username recipientUser))\<rparr>;
                            serialized = serializeMessage (heap s4 messageRecord)
                        in (s4,
                            [SocketEmit sid
                               (PrivateMessage (serializeThread s4 thread1 (u_username user)) serialized),
                             IoTo (orDefault recipientSocketId [])
                               (PrivateMessage (serializeThread s4 thread1 (u_username recipientUser))
                                  serialized),
                             IoTo (orDefault recipientSocketId [])
                               (PrivateNotification (u_username user) (t_id thread)),
                             Ack (AckPrivate (m_id (heap s4 messageRecord)) (t_id thread))]))))"

text \<open>The loop over \<open>thread.participants\<close> that notifies every participant who is connected.\<close>

definition toParticipants :: "state \<Rightarrow> thread \<Rightarrow> payload \<Rightarrow> action list" where
  "toParticipants s thread p =
     concat (map (\<lambda>participant.
                    (let targetSocket = map_of (usernameToSocketId s) participant
                     in if truthy targetSocket then [IoTo (orDefault targetSocket []) p] else []))
               (t_participants thread))"

definition private_message_read ::
  "state \<Rightarrow> jsstring \<Rightarrow> jsstring \<Rightarrow> jsstring \<Rightarrow> state \<times> action list" where
  "private_message_read s sid threadId messageId =
     (case (map_of (users s) sid, map_of (privateThreads s) threadId) of
        (Some user, Some thread) \<Rightarrow>
          (case findMessage s (t_messages thread) messageId of
             None \<Rightarrow> (s, [])
           | Some a \<Rightarrow>
               (let s1 = s\<lparr>heap := (heap s)(a := registerRead (heap s a) (u_username user))\<rparr>
                in (s1, toParticipants s1 thread
                          (PrivateReadReceipt threadId messageId (arrayFrom (m_readBy (heap s1 a)))))))
      | _ \<Rightarrow> (s, []))"

definition react_to_private_message ::
  "state \<Rightarrow> jsstring \<Rightarrow> jsstring \<Rightarrow> jsstring \<Rightarrow> jsstring \<Rightarrow> state \<times> action list" where
  "react_to_private_message s sid threadId messageId emoji =
     (case (map_of (users s) sid, map_of (privateThreads s) threadId) of
        (Some user, Some thread) \<Rightarrow>
          (case findMessage s (t_messages thread) messageId of
             None \<Rightarrow> (s, [])
           | Some a \<Rightarrow>
               (let s1 = s\<lparr>heap := (heap s)(a := toggleReaction (heap s a) emoji (u_username user))\<rparr>
                in (s1, toParticipants s1 thread
                          (PrivateReactionUpdate threadId messageId
                             (serializeReactions (m_reactions (heap s1 a)))))))
      | _ \<Rightarrow> (s, []))"

definition set_active_room ::
  "state \<Rightarrow> jsstring \<Rightarrow> jsstring option \<Rightarrow> jsstring \<Rightarrow> state \<times> action list" where
  "set_active_room s sid roomId now =
     (case (map_of (users s) sid, getRoom s roomId) of
        (Some user, Some room) \<Rightarrow>
          (s\<lparr>users := AList.update sid
                        (user\<lparr>u_activeRoom := orDefault roomId [], u_lastSeen := now\<rparr>) (users s)\<rparr>,
           [])
      | _ \<Rightarrow> (s, []))"

text \<open>The body of the loop over \<open>user.rooms\<close> in the \<open>disconnect\<close> handler.\<close>

definition disconnectRoom ::
  "platform \<Rightarrow> jsstring \<Rightarrow> jsstring \<Rightarrow> jsstring \<Rightarrow> state \<times> action list \<Rightarrow> jsstring \<Rightarrow>
   state \<times> action list" where
  "disconnectRoom P sid username now acc roomId =
     (case map_of (rooms (fst acc)) roomId of
        None \<Rightarrow> acc
      | Some room \<Rightarrow>
          (let room1 = room\<lparr>r_members := r_members room - {sid},
                            r_typing := r_typing room - {username}\<rparr>;
               s1 = (fst acc)\<lparr>rooms := AList.update roomId room1 (rooms (fst acc))\<rparr>;
               (s2, out) = addSystemMessage P s1 (r_id room) (username @ str '' left the room'') now
           in (s2, snd acc @ out @ [IoTo (r_id room) (TypingUsers (r_id room) (r_typing room1))])))"

definition disconnect :: "platform \<Rightarrow> state \<Rightarrow> jsstring \<Rightarrow> jsstring \<Rightarrow> state \<times> action list" where
  "disconnect P s sid now =
     (case map_of (users s) sid of
        None \<Rightarrow> (s, [])
      | Some user \<Rightarrow>
          (let username = u_username user;
               (s1, out1) = foldl (disconnectRoom P sid username now) (s, []) (u_rooms user);
               s2 = s1\<lparr>users := AList.delete sid (users s1)\<rparr>;
               s3 = s2\<lparr>usernameToSocketId := AList.delete username (usernameToSocketId s2)\<rparr>
           in (s3, out1 @ emitUserList s3 @ emitRoomList s3 @ [IoEmit (UserLeft username sid now)])))"

section \<open>HTTP handlers\<close>

datatype http_response =
    NotFound jsstring
  | MessagesJson jsstring "smessage list" bool "jsstring option"

definition get_room_messages ::
  "state \<Rightarrow> jsstring \<Rightarrow> jsstring option \<Rightarrow> int option \<Rightarrow> http_response" where
  "get_room_messages s roomId before limit =
     (case map_of (rooms s) roomId of
        None \<Rightarrow> NotFound (str ''Room not found'')
      | Some room \<Rightarrow>
          (let parsedLimit = min (numberOr30 limit) 100;
               beforeIndex = (if truthy before
                              then findIndex (\<lambda>a. m_id (heap s a) = orDefault before [])
                                     (r_messages room)
                              else - 1);
               endIndex = (if beforeIndex = - 1 then int (length (r_messages room)) else beforeIndex);
               startIndex = max 0 (endIndex - parsedLimit);
               slice = map (\<lambda>a. serializeMessage (heap s a))
                         (jsSlice (r_messages room) startIndex endIndex);
               hasMore = (startIndex > 0);
               nextCursor = (if hasMore
                             then (case jsNth (r_messages room) (startIndex - 1) of
                                     None \<Rightarrow> None
                                   | Some a \<Rightarrow> if m_id (heap s a) = [] then None
                                              else Some (m_id (heap s a)))
                             else None)
           in MessagesJson roomId slice hasMore nextCursor))"

text \<open>\<open>GET /api/search\<close>: the two nested \<open>forEach\<close> calls push onto \<open>results\<close>.\<close>

type_synonym search_hit = "jsstring \<times> jsstring \<times> smessage"

definition searchRoom :: "platform \<Rightarrow> state \<Rightarrow> jsstring \<Rightarrow> search_hit list \<Rightarrow> room option \<Rightarrow> search_hit list" where
  "searchRoom P s term results room =
     (case room of
        None \<Rightarrow> results
      | Some room \<Rightarrow>
          foldl (\<lambda>results a.
                   if includesStr (toLowerCase P (m_body (heap s a))) term
                   then results @ [(r_id room, r_name room, serializeMessage (heap s a))]
                   else results)
            results (r_messages room))"

definition get_search :: "platform \<Rightarrow> state \<Rightarrow> jsstring option \<Rightarrow> jsstring option \<Rightarrow> search_hit list" where
  "get_search P s roomId q =
     (if \<not> truthy q then []
      else
        (let targetRooms = (if truthy roomId then [map_of (rooms s) (orDefault roomId [])]
                            else map (\<lambda>(k, room). Some room) (rooms s));
             term = toLowerCase P (orDefault q []);
             results = foldl (searchRoom P s term) [] targetRooms
         in jsSliceFrom results (- 100)))"

section \<open>The server as a transition system\<close>

text \<open>
  One event for every handler that \<open>io.on('connection')\<close> registers, with the id of the
  connection it arrives on, its payload and, where the handler reads the clock, the time;
  and \<open>TypingExpired\<close> for the timer callback of \<open>typing\<close>. A step is \<open>None\<close> when the
  handler raised.
\<close>

datatype event =
    UserJoin jsstring join_payload jsstring
  | JoinRoom jsstring "jsstring option" "jsstring option" "jsstring option" jsstring
  | LeaveRoom jsstring "jsstring option" jsstring
  | SendMessage jsstring "jsstring option" "jsstring option" "jsstring list" "jsstring option" jsstring
  | MessageDelivered jsstring jsstring "jsstring option"
  | MessageRead jsstring jsstring "jsstring option"
  | ReactToMessage jsstring "jsstring option" jsstring jsstring
  | Typing jsstring "jsstring option" bool
  | TypingExpired jsstring jsstring
  | RequestRoomHistory jsstring "jsstring option" "jsstring option" "int option"
  | PrivateMessageEv jsstring "jsstring option" "jsstring option" "jsstring option" jsstring
  | PrivateTypingEv jsstring "jsstring option" bool
  | PrivateMessageRead jsstring jsstring jsstring
  | ReactToPrivateMessage jsstring jsstring jsstring jsstring
  | SetActiveRoom jsstring "jsstring option" jsstring
  | Disconnect jsstring jsstring

fun step :: "platform \<Rightarrow> state \<Rightarrow> event \<Rightarrow> (state \<times> action list) option" where
  "step P s (UserJoin sid payload now) = user_join P s sid payload now"
| "step P s (JoinRoom sid requestedRoom roomName description now) =
     Some (join_room P s sid requestedRoom roomName description now)"
| "step P s (LeaveRoom sid roomId now) = Some (leave_room P s sid roomId now)"
| "step P s (SendMessage sid roomId message attachments tempId now) =
     Some (send_message P s sid roomId message attachments tempId now)"
| "step P s (MessageDelivered sid messageId roomId) = Some (message_delivered s sid messageId roomId)"
| "step P s (MessageRead sid messageId roomId) = Some (message_read s sid messageId roomId)"
| "step P s (ReactToMessage sid roomId messageId emoji) =
     Some (react_to_message s sid roomId messageId emoji)"
| "step P s (Typing sid roomId isTyping) = Some (typing s sid roomId isTyping)"
| "step P s (TypingExpired roomId username) = Some (typingExpired s roomId username)"
| "step P s (PrivateTypingEv sid to isTyping) = Some (private_typing s sid to isTyping)"
| "step P s (RequestRoomHistory sid roomId before limit) =
     Some (s, request_room_history s sid roomId before limit)"
| "step P s (PrivateMessageEv sid to message tempId now) =
     Some (private_message P s sid to message tempId now)"
| "step P s (PrivateMessageRead sid threadId messageId) =
     Some (private_message_read s sid threadId messageId)"
| "step P s (ReactToPrivateMessage sid threadId messageId emoji) =
     Some (react_to_private_message s sid threadId messageId emoji)"
| "step P s (SetActiveRoom sid roomId now) = Some (set_active_room s sid roomId now)"
| "step P s (Disconnect sid now) = Some (disconnect P s sid now)"

text \<open>
  Running a sequence of events from a state; \<open>None\<close> when a handler raised.
\<close>

fun run :: "platform \<Rightarrow> state \<Rightarrow> event list \<Rightarrow> state option" where
  "run P s [] = Some s"
| "run P s (e # es) = (case step P s e of None \<Rightarrow> None | Some (s', out) \<Rightarrow> run P s' es)"


section \<open>Predicates used to state the properties\<close>

text \<open>
  The users who hold a reaction, as \<open>serializeReactions\<close> shows them, and the invariant
  that no emoji is mapped to an empty set.
\<close>

definition holders :: "message \<Rightarrow> jsstring \<Rightarrow> jsstring set" where
  "holders m e = (case serializeReactions (m_reactions m) e of None \<Rightarrow> {} | Some us \<Rightarrow> us)"

definition noEmptyReaction :: "message \<Rightarrow> bool" where
  "noEmptyReaction m \<longleftrightarrow> (\<forall>e. serializeReactions (m_reactions m) e \<noteq> Some {})"


text \<open>
  Every room is stored under its own id; every live user's username is bound to that
  user's connection, is not empty and is trimmed. A state is reachable when some sequence
  of events leads to it from the state after start-up.
\<close>

definition roomsWf :: "state \<Rightarrow> bool" where
  "roomsWf s \<longleftrightarrow> (\<forall>k r. map_of (rooms s) k = Some r \<longrightarrow> r_id r = k)"

definition namesInv :: "state \<Rightarrow> bool" where
  "namesInv s \<longleftrightarrow>
     (\<forall>sid u. map_of (users s) sid = Some u \<longrightarrow>
        map_of (usernameToSocketId s) (u_username u) = Some sid
      \<and> u_username u \<noteq> [] \<and> trim (u_username u) = u_username u)"

definition reachable :: "platform \<Rightarrow> state \<Rightarrow> bool" where
  "reachable P s \<longleftrightarrow> (\<exists>t0 evs. run P (initialState P t0) evs = Some s)"

text \<open>Every log of a room or of a thread is within its capacity.\<close>

definition logsBounded :: "state \<Rightarrow> bool" where
  "logsBounded s \<longleftrightarrow>
     (\<forall>k r. map_of (rooms s) k = Some r \<longrightarrow> length (r_messages r) \<le> MAX_ROOM_MESSAGES)
   \<and> (\<forall>k t. map_of (privateThreads s) k = Some t \<longrightarrow> length (t_messages t) \<le> MAX_PRIVATE_MESSAGES)"

text \<open>
  Two states with the same username bindings, and with the same room id under every key.
\<close>

definition sameNames :: "state \<Rightarrow> state \<Rightarrow> bool" where
  "sameNames s s' \<longleftrightarrow>
     usernameToSocketId s' = usernameToSocketId s
   \<and> (\<forall>x. map_option u_username (map_of (users s') x) = map_option u_username (map_of (users s) x))"

definition sameRoomIds :: "state \<Rightarrow> state \<Rightarrow> bool" where
  "sameRoomIds s s' \<longleftrightarrow>
     (\<forall>k. map_option r_id (map_of (rooms s') k) = map_option r_id (map_of (rooms s) k))"

text \<open>The username a \<open>user_join\<close> payload asks for: the first two lines of the handler.\<close>

definition joinName :: "join_payload \<Rightarrow> jsstring" where
  "joinName payload =
     (let rawUsername = (case payload of JoinString v \<Rightarrow> Some v | JoinObject v \<Rightarrow> v
                         | JoinNothing \<Rightarrow> None)
      in if truthy rawUsername then trim (orDefault rawUsername []) else [])"

text \<open>
  The limit that a history request uses (30 when missing, at most 100), and the search hits
  of one room: its messages whose lower-cased body contains the term, in log order.
\<close>

definition effectiveLimit :: "int option \<Rightarrow> nat" where
  "effectiveLimit limit = nat (min (numberOr30 limit) 100)"

definition matching :: "platform \<Rightarrow> state \<Rightarrow> jsstring \<Rightarrow> room \<Rightarrow> search_hit list" where
  "matching P s term room =
     map (\<lambda>a. (r_id room, r_name room, serializeMessage (heap s a)))
       (filter (\<lambda>a. includesStr (toLowerCase P (m_body (heap s a))) term) (r_messages room))"

text \<open>The search hits of all rooms: room by room in the order of the \<open>rooms\<close> map.\<close>

definition allHits :: "platform \<Rightarrow> state \<Rightarrow> jsstring \<Rightarrow> search_hit list" where
  "allHits P s term = concat (map (\<lambda>(k, room). matching P s term room) (rooms s))"

text \<open>
  The connected user that a username is bound to: \<open>usernameToSocketId\<close> maps the name to
  a connection, and \<open>users\<close> has a user for that connection.
\<close>

definition connectedRecipient :: "state \<Rightarrow> jsstring \<Rightarrow> (jsstring \<times> user) option" where
  "connectedRecipient s username =
     (case map_of (usernameToSocketId s) username of
        None \<Rightarrow> None
      | Some socketId \<Rightarrow>
          if socketId = [] then None
          else map_option (Pair socketId) (map_of (users s) socketId))"

section \<open>An example run\<close>

text \<open>
  A platform for evaluating examples (every two strings collate as equal, lower-casing is
  the identity, the n-th identifier is the n-th character from \<open>0\<close>), and the state after
  the server has started at \<open>t0\<close> and the users \<open>ada\<close> and \<open>grace\<close> have joined on the
  connections \<open>s1\<close> and \<open>s2\<close> (lemma \<open>demoState_run\<close>).
\<close>

definition demoPlatform :: platform where
  "demoPlatform = \<lparr>localeCompare = (\<lambda>x y. 0), toLowerCase = (\<lambda>x. x),
                    uuidv4 = (\<lambda>n. [of_nat n + 0x30])\<rparr>"

definition demoState :: state where
  "demoState =
     \<lparr>users =
        [(str ''s1'', \<lparr>u_id = str ''s1'', u_username = str ''ada'', u_status = str ''online'',
                       u_activeRoom = str ''general'', u_rooms = [str ''general''],
                       u_lastSeen = str ''t1''\<rparr>),
         (str ''s2'', \<lparr>u_id = str ''s2'', u_username = str ''grace'', u_status = str ''online'',
                       u_activeRoom = str ''general'', u_rooms = [str ''general''],
                       u_lastSeen = str ''t2''\<rparr>)],
      usernameToSocketId = [(str ''ada'', str ''s1''), (str ''grace'', str ''s2'')],
      rooms =
        [(str ''general'',
          \<lparr>r_id = str ''general'', r_name = str ''General'',
           r_description = str ''Welcome to the main lobby. Say hi '' @ [0xD83D, 0xDC4B],
           r_createdAt = str ''t0'', r_createdBy = str ''system'', r_messages = [0, 1],
           r_members = {str ''s1'', str ''s2''}, r_typing = {}\<rparr>),
         (str ''random'',
          \<lparr>r_id = str ''random'', r_name = str ''Random'',
           r_description = str ''Anything goes. Share memes, links, and fun stuff.'',
           r_createdAt = str ''t0'', r_createdBy = str ''system'', r_messages = [],
           r_members = {}, r_typing = {}\<rparr>)],
      privateThreads = [],
      heap = (\<lambda>a. blankMessage)
        (0 := buildMessage [0x30] (str ''t1'') (str ''general'') (str ''system'', str ''System'')
                (str ''ada joined the chat'') [] True False None,
         1 := buildMessage [0x31] (str ''t2'') (str ''general'') (str ''system'', str ''System'')
                (str ''grace joined the chat'') [] True False None),
      nextRef = 2,
      uuidCalls = 2\<rparr>"

section \<open>String literals\<close>

lemma unat_of_char: "unat (of_char c :: jschar) = of_char c"
proof -
  have lt: "(of_char c :: nat) < 256"
    by (metis of_char_mod_256 mod_less_divisor zero_less_numeral)
  have "(of_char c :: jschar) = of_nat (of_char c)" by (simp add: of_nat_of_char)
  then have "unat (of_char c :: jschar) = unat (of_nat (of_char c :: nat) :: jschar)" by simp
  also have "\<dots> = (of_char c :: nat) mod 65536" by (simp add: unat_of_nat)
  also have "\<dots> = of_char c" by (rule mod_less) (use lt in linarith)
  finally show ?thesis .
qed

lemma of_char_word_eq_iff: "(of_char c :: jschar) = of_char d \<longleftrightarrow> c = d"
  by (metis unat_of_char of_char_eq_iff)

lemma str_eq_iff: "str a = str b \<longleftrightarrow> a = b"
  unfolding str_def by (simp add: inj_map_eq_map inj_def of_char_word_eq_iff)

lemma str_Nil_iff: "str a = [] \<longleftrightarrow> a = []"
  by (simp add: str_def)


section \<open>The message log\<close>

lemma trimMessages_length: "length (trimMessages xs n) \<le> max n (length xs)"
  by (simp add: trimMessages_def)

lemma foldl_trim:
  "length log \<le> cap \<Longrightarrow>
   foldl (\<lambda>l m. trimMessages (l @ [m]) cap) log ms = drop (length (log @ ms) - cap) (log @ ms)"
proof (induction ms arbitrary: log)
  case Nil
  then show ?case by simp
next
  case (Cons m ms)
  have len: "length (trimMessages (log @ [m]) cap) \<le> cap"
    using Cons.prems by (auto simp: trimMessages_def)
  show ?case
  proof (cases "length log < cap")
    case True
    then have "trimMessages (log @ [m]) cap = log @ [m]" by (simp add: trimMessages_def)
    with Cons.IH[OF len] show ?thesis by simp
  next
    case False
    with Cons.prems have eq: "length log = cap" by simp
    then have t: "trimMessages (log @ [m]) cap = drop 1 (log @ [m])" by (simp add: trimMessages_def)
    have "foldl (\<lambda>l m. trimMessages (l @ [m]) cap) log (m # ms)
          = drop (length (drop 1 (log @ [m]) @ ms) - cap) (drop 1 (log @ [m]) @ ms)"
      using Cons.IH[OF len] t by simp
    also have "\<dots> = drop (length (log @ m # ms) - cap) (log @ m # ms)"
      using eq by (cases log) (simp_all add: drop_Cons')
    finally show ?thesis .
  qed
qed

lemma r_messages_foldl:
  "r_messages (foldl addMessageToRoom room ms)
   = foldl (\<lambda>l m. trimMessages (l @ [m]) MAX_ROOM_MESSAGES) (r_messages room) ms"
  by (induction ms arbitrary: room) (simp_all add: addMessageToRoom_def)

lemma t_messages_foldl:
  "t_messages (foldl addMessageToThread thread ms)
   = foldl (\<lambda>l m. trimMessages (l @ [m]) MAX_PRIVATE_MESSAGES) (t_messages thread) ms"
  by (induction ms arbitrary: thread) (simp_all add: addMessageToThread_def)

section \<open>Reactions and thread keys\<close>

lemma toggle_reactions:
  "serializeReactions (m_reactions (toggleReaction m e u)) =
     (let r = serializeReactions (m_reactions m);
          us = (case r e of None \<Rightarrow> {} | Some x \<Rightarrow> x)
      in if u \<in> us then (if us - {u} = {} then r(e := None) else r(e \<mapsto> us - {u}))
         else r(e \<mapsto> insert u us))"
  by (auto simp: toggleReaction_def setWith_def serializeReactions_def Let_def
           split: option.splits)

lemma toggle_other_fields:
  "toggleReaction m e u = m\<lparr>m_reactions := m_reactions (toggleReaction m e u)\<rparr>"
  by (auto simp: toggleReaction_def setWith_def Let_def split: option.splits prod.splits)

lemma toggle_Some: "m_reactions (toggleReaction m e u) \<noteq> None"
  by (auto simp: toggleReaction_def setWith_def Let_def split: option.splits prod.splits)

lemma toggle_noEmpty: "noEmptyReaction m \<Longrightarrow> noEmptyReaction (toggleReaction m e u)"
  unfolding noEmptyReaction_def toggle_reactions
  by (auto simp: Let_def split: option.splits)

lemma toggle_absent:
  assumes "u \<notin> (case serializeReactions (m_reactions m) e of None \<Rightarrow> {} | Some x \<Rightarrow> x)"
  shows "serializeReactions (m_reactions (toggleReaction m e u))
         = (serializeReactions (m_reactions m))
             (e \<mapsto> insert u (case serializeReactions (m_reactions m) e of None \<Rightarrow> {} | Some x \<Rightarrow> x))"
  using assms by (simp add: toggle_reactions Let_def)

lemma toggle_present:
  assumes "serializeReactions (m_reactions m) e = Some us" and "u \<in> us"
  shows "serializeReactions (m_reactions (toggleReaction m e u))
         = (if us - {u} = {} then (serializeReactions (m_reactions m))(e := None)
            else (serializeReactions (m_reactions m))(e \<mapsto> us - {u}))"
  using assms by (simp add: toggle_reactions Let_def)

lemma toggle_twice:
  assumes "noEmptyReaction m"
  shows "serializeReactions (m_reactions (toggleReaction (toggleReaction m e u) e u))
         = serializeReactions (m_reactions m)"
proof -
  let ?r = "serializeReactions (m_reactions m)"
  let ?m1 = "toggleReaction m e u"
  let ?r1 = "serializeReactions (m_reactions ?m1)"
  have ne: "?r e \<noteq> Some {}" using assms by (simp add: noEmptyReaction_def)
  show ?thesis
  proof (cases "?r e")
    case None
    then have r1: "?r1 = ?r(e \<mapsto> {u})" by (simp add: toggle_absent)
    then have "?r1 e = Some {u}" by simp
    then have "serializeReactions (m_reactions (toggleReaction ?m1 e u)) = ?r1(e := None)"
      by (simp add: toggle_present)
    also have "\<dots> = ?r" using None by (simp add: r1 fun_upd_idem)
    finally show ?thesis .
  next
    case (Some us)
    with ne have nonempty: "us \<noteq> {}" by simp
    show ?thesis
    proof (cases "u \<in> us")
      case True
      then have ins: "insert u (us - {u}) = us" by blast
      show ?thesis
      proof (cases "us - {u} = {}")
        case empty: True
        have r1: "?r1 = ?r(e := None)" using Some True empty by (simp add: toggle_present)
        then have "?r1 e = None" by simp
        then have "serializeReactions (m_reactions (toggleReaction ?m1 e u)) = ?r1(e \<mapsto> {u})"
          by (simp add: toggle_absent)
        also have "\<dots> = ?r(e \<mapsto> us)" using ins empty by (simp add: r1)
        also have "\<dots> = ?r" using Some by (simp add: fun_upd_idem)
        finally show ?thesis .
      next
        case rest: False
        have r1: "?r1 = ?r(e \<mapsto> us - {u})" using Some True rest by (simp add: toggle_present)
        then have "?r1 e = Some (us - {u})" by simp
        then have "serializeReactions (m_reactions (toggleReaction ?m1 e u))
                   = ?r1(e \<mapsto> insert u (us - {u}))"
          by (simp add: toggle_absent)
        also have "\<dots> = ?r(e \<mapsto> us)" using ins by (simp add: r1)
        also have "\<dots> = ?r" using Some by (simp add: fun_upd_idem)
        finally show ?thesis .
      qed
    next
      case False
      then have del: "insert u us - {u} = us" by blast
      have r1: "?r1 = ?r(e \<mapsto> insert u us)" using Some False by (simp add: toggle_absent)
      then have "?r1 e = Some (insert u us)" by simp
      then have "serializeReactions (m_reactions (toggleReaction ?m1 e u))
                 = ?r1(e \<mapsto> insert u us - {u})"
        using nonempty del by (simp add: toggle_present)
      also have "\<dots> = ?r(e \<mapsto> us)" using del by (simp add: r1)
      also have "\<dots> = ?r" using Some by (simp add: fun_upd_idem)
      finally show ?thesis .
    qed
  qed
qed

lemma toggles_noEmpty:
  "noEmptyReaction m \<Longrightarrow> noEmptyReaction (foldl (\<lambda>m (e, u). toggleReaction m e u) m ts)"
  by (induction ts arbitrary: m) (auto simp: toggle_noEmpty)

lemma build_noEmpty: "noEmptyReaction (buildMessage uuid now roomId sender body att sys priv tmp)"
  by (simp add: noEmptyReaction_def buildMessage_def serializeReactions_def)

text \<open>
  Claim C5. For a message none of whose reaction entries is empty (every message is built
  with no reactions): toggling the same (emoji, username) pair twice gives back the
  reactions it had, and the whole message when its reactions field is present; toggling
  once when the username does not hold the emoji adds exactly that username to that emoji
  and changes no other emoji; when the only holder toggles off, the emoji key is removed;
  and after any sequence of toggles no entry is an empty set.
\<close>

theorem toggleReaction_pairs:
  assumes "noEmptyReaction m"
  shows "serializeReactions (m_reactions (toggleReaction (toggleReaction m e u) e u))
           = serializeReactions (m_reactions m)
       \<and> (m_reactions m \<noteq> None \<longrightarrow> toggleReaction (toggleReaction m e u) e u = m)
       \<and> (u \<notin> holders m e \<longrightarrow>
            holders (toggleReaction m e u) e = insert u (holders m e)
          \<and> (\<forall>e'. e' \<noteq> e \<longrightarrow> serializeReactions (m_reactions (toggleReaction m e u)) e'
                               = serializeReactions (m_reactions m) e'))
       \<and> (holders m e = {u} \<longrightarrow> serializeReactions (m_reactions (toggleReaction m e u)) e = None)
       \<and> noEmptyReaction (foldl (\<lambda>m (e, u). toggleReaction m e u) m ts)"
proof -
  have tw: "serializeReactions (m_reactions (toggleReaction (toggleReaction m e u) e u))
           = serializeReactions (m_reactions m)"
    by (rule toggle_twice[OF assms])
  have full: "toggleReaction (toggleReaction m e u) e u = m" if h: "m_reactions m \<noteq> None"
  proof -
    obtain r where r: "m_reactions m = Some r" using h by auto
    obtain r' where r': "m_reactions (toggleReaction (toggleReaction m e u) e u) = Some r'"
      using toggle_Some[of "toggleReaction m e u" e u] by auto
    from tw r r' have "r' = r" by (simp add: serializeReactions_def)
    have "toggleReaction (toggleReaction m e u) e u
          = (toggleReaction m e u)\<lparr>m_reactions := Some r'\<rparr>"
      using toggle_other_fields[of "toggleReaction m e u" e u] r' by simp
    also have "\<dots> = m\<lparr>m_reactions := Some r'\<rparr>"
      by (subst toggle_other_fields[of m e u]) simp
    finally show ?thesis using r \<open>r' = r\<close> by simp
  qed
  have once: "holders (toggleReaction m e u) e = insert u (holders m e)
          \<and> (\<forall>e'. e' \<noteq> e \<longrightarrow> serializeReactions (m_reactions (toggleReaction m e u)) e'
                               = serializeReactions (m_reactions m) e')" if "u \<notin> holders m e"
    using that by (auto simp: holders_def toggle_reactions Let_def split: option.splits)
  have last: "serializeReactions (m_reactions (toggleReaction m e u)) e = None"
    if "holders m e = {u}"
    using that by (auto simp: holders_def toggle_reactions Let_def split: option.splits)
  show ?thesis
    using tw full once last toggles_noEmpty[OF assms] by blast
qed

theorem toggleReaction_pairs_witness:
  "noEmptyReaction blankMessage
   \<and> m_reactions blankMessage \<noteq> None
   \<and> str ''Grace'' \<notin> holders blankMessage [0xD83D, 0xDC4D]
   \<and> holders (toggleReaction blankMessage [0xD83D, 0xDC4D] (str ''Grace'')) [0xD83D, 0xDC4D]
       = {str ''Grace''}
   \<and> noEmptyReaction (toggleReaction blankMessage [0xD83D, 0xDC4D] (str ''Grace''))
   \<and> serializeReactions (m_reactions
         (toggleReaction (toggleReaction blankMessage [0xD83D, 0xDC4D] (str ''Grace''))
            [0xD83D, 0xDC4D] (str ''Grace''))) [0xD83D, 0xDC4D] = None
   \<and> toggleReaction (toggleReaction blankMessage [0xD83D, 0xDC4D] (str ''Grace''))
         [0xD83D, 0xDC4D] (str ''Grace'') = blankMessage"
proof -
  let ?e = "[0xD83D, 0xDC4D] :: jsstring"
  let ?u = "str ''Grace''"
  have a: "noEmptyReaction blankMessage"
    by (simp add: blankMessage_def noEmptyReaction_def buildMessage_def serializeReactions_def)
  have b: "m_reactions blankMessage \<noteq> None"
    by (simp add: blankMessage_def buildMessage_def)
  have c: "holders blankMessage ?e = {}"
    by (simp add: blankMessage_def holders_def buildMessage_def serializeReactions_def)
  note t0 = toggleReaction_pairs [OF a, of ?e ?u "[(?e, ?u)]"]
  from t0 c have d: "holders (toggleReaction blankMessage ?e ?u) ?e = {?u}" by simp
  from t0 have e: "noEmptyReaction (toggleReaction blankMessage ?e ?u)" by simp
  note t1 = toggleReaction_pairs [OF e, of ?e ?u "[]"]
  from t1 d have f: "serializeReactions (m_reactions
         (toggleReaction (toggleReaction blankMessage ?e ?u) ?e ?u)) ?e = None" by blast
  from t0 b have g: "toggleReaction (toggleReaction blankMessage ?e ?u) ?e ?u = blankMessage"
    by blast
  show ?thesis using a b c d e f g by simp
qed

lemma sortBy_pair: "sortBy cmp [a, b] = (if cmp a b \<le> 0 then [a, b] else [b, a])"
  by (simp add: sortBy_def)

lemma makeThreadKey_eq:
  "makeThreadKey cmp a b = (if cmp a b \<le> 0 then a @ str ''::'' @ b else b @ str ''::'' @ a)"
  by (simp add: makeThreadKey_def sortBy_pair)

lemma makeThreadKey_symmetric_if:
  assumes "a \<noteq> b \<Longrightarrow> (cmp a b \<le> 0) \<noteq> (cmp b a \<le> 0)"
  shows "makeThreadKey cmp a b = makeThreadKey cmp b a"
  using assms by (auto simp: makeThreadKey_eq)

text \<open>
  Claim C6. The thread key is symmetric whenever \<open>localeCompare\<close> orders the two names
  strictly (lemma \<open>makeThreadKey_symmetric_if\<close>). It is not symmetric for two different
  names that \<open>localeCompare\<close> ranks equal, as it must for canonically equivalent strings:
  for U+00E9 and U+0065 U+0301 the sort keeps the order of its arguments.
\<close>

theorem makeThreadKey_tie:
  assumes "cmp [0xE9] [0x65, 0x301] = 0" and "cmp [0x65, 0x301] [0xE9] = 0"
  shows "makeThreadKey cmp [0xE9] [0x65, 0x301] = [0xE9, 0x3A, 0x3A, 0x65, 0x301]
       \<and> makeThreadKey cmp [0x65, 0x301] [0xE9] = [0x65, 0x301, 0x3A, 0x3A, 0xE9]
       \<and> makeThreadKey cmp [0xE9] [0x65, 0x301] \<noteq> makeThreadKey cmp [0x65, 0x301] [0xE9]"
  using assms by (simp add: makeThreadKey_eq str_def)

theorem makeThreadKey_tie_witness:
  "(\<lambda>x y. 0 :: int) [0xE9] [0x65, 0x301 :: jschar] = 0
   \<and> (\<lambda>x y. 0 :: int) [0x65, 0x301] [0xE9 :: jschar] = 0
   \<and> makeThreadKey (\<lambda>x y. 0) [0xE9] [0x65, 0x301] \<noteq> makeThreadKey (\<lambda>x y. 0) [0x65, 0x301] [0xE9]"
  using makeThreadKey_tie [of "\<lambda>x y. 0"] by simp


section \<open>Room history\<close>

lemma jsSlice_nat:
  "a \<le> b \<Longrightarrow> b \<le> length xs \<Longrightarrow> jsSlice xs (int a) (int b) = take (b - a) (drop a xs)"
  by (simp add: jsSlice_def relIndex_def Let_def min_def max_def nat_diff_distrib')

lemma jsNth_nat: "i < length xs \<Longrightarrow> jsNth xs (int i) = Some (xs ! i)"
  by (simp add: jsNth_def)

lemma findIndex_first:
  "i < length xs \<Longrightarrow> p (xs ! i) \<Longrightarrow> (\<forall>j<i. \<not> p (xs ! j)) \<Longrightarrow> findIndex p xs = int i"
proof (induction xs arbitrary: i)
  case Nil
  then show ?case by simp
next
  case (Cons x xs)
  show ?case
  proof (cases i)
    case 0
    with Cons.prems show ?thesis by simp
  next
    case (Suc k)
    with Cons.prems have "\<not> p x" by auto
    moreover have "findIndex p xs = int k"
      using Cons.prems Suc by (intro Cons.IH) auto
    ultimately show ?thesis using Suc by (simp add: Let_def)
  qed
qed

lemma findIndex_distinct:
  assumes "distinct (map f xs)" and "i < length xs"
  shows "findIndex (\<lambda>a. f a = f (xs ! i)) xs = int i"
proof (rule findIndex_first[OF assms(2)])
  show "f (xs ! i) = f (xs ! i)" by simp
  show "\<forall>j<i. f (xs ! j) \<noteq> f (xs ! i)"
    using assms by (auto simp: distinct_conv_nth)
qed

text \<open>One page of room history, by the index at which it ends.\<close>

lemma history_page:
  assumes user: "map_of (users s) sid = Some user"
    and room: "map_of (rooms s) rid = Some room"
    and dist: "distinct (map (\<lambda>a. m_id (heap s a)) (r_messages room))"
    and nonempty: "\<forall>a \<in> set (r_messages room). m_id (heap s a) \<noteq> []"
    and lim: "1 \<le> min (numberOr30 limit) 100"
    and i: "i \<le> length (r_messages room)"
    and cursor: "cursor = (if i = length (r_messages room) then None
                           else Some (m_id (heap s (r_messages room ! i))))"
  shows "request_room_history s sid (Some rid) cursor limit =
           [Ack (AckHistory (Some rid)
              (map (\<lambda>a. serializeMessage (heap s a))
                 (take (min (nat (min (numberOr30 limit) 100)) i)
                    (drop (i - nat (min (numberOr30 limit) 100)) (r_messages room))))
              (if nat (min (numberOr30 limit) 100) < i
               then Some (m_id (heap s (r_messages room ! (i - nat (min (numberOr30 limit) 100) - 1))))
               else None)
              (nat (min (numberOr30 limit) 100) < i))]"
proof -
  let ?log = "r_messages room"
  let ?n = "length ?log"
  define L where "L = nat (min (numberOr30 limit) 100)"
  have Li: "min (numberOr30 limit) 100 = int L" using lim by (simp add: L_def)
  define bi where "bi = (if truthy cursor
                         then findIndex (\<lambda>a. m_id (heap s a) = orDefault cursor []) ?log else - 1)"
  define ei where "ei = (if bi = - 1 then int ?n else bi)"
  have ei: "ei = int i"
  proof (cases "i = ?n")
    case True
    then show ?thesis by (simp add: ei_def bi_def cursor truthy_def)
  next
    case False
    with i have lt: "i < ?n" by simp
    then have ne: "m_id (heap s (?log ! i)) \<noteq> []" using nonempty by simp
    have "bi = int i"
      using False ne findIndex_distinct[OF dist lt]
      by (simp add: bi_def cursor truthy_def orDefault_def)
    then show ?thesis by (simp add: ei_def)
  qed
  define st where "st = max 0 (ei - min (numberOr30 limit) 100)"
  have st: "st = int (i - L)" unfolding st_def ei Li by (simp add: max_def)
  have sl: "jsSlice ?log st ei = take (min L i) (drop (i - L) ?log)"
  proof -
    have "jsSlice ?log (int (i - L)) (int i) = take (i - (i - L)) (drop (i - L) ?log)"
      using i by (intro jsSlice_nat) auto
    moreover have "i - (i - L) = min L i" by auto
    ultimately show ?thesis by (simp add: st ei)
  qed
  have hm: "(st > 0) = (L < i)" by (auto simp: st)
  have nc: "jsNth ?log (st - 1) = Some (?log ! (i - L - 1))" if "L < i"
  proof -
    have "st - 1 = int (i - L - 1)" using that by (simp add: st)
    moreover have "i - L - 1 < ?n" using that i by auto
    ultimately show ?thesis by (simp add: jsNth_nat)
  qed
  have ne2: "m_id (heap s (?log ! (i - L - 1))) \<noteq> []" if "L < i"
    using nonempty that i by (simp add: less_imp_diff_less)
  have "request_room_history s sid (Some rid) cursor limit =
           [Ack (AckHistory (Some rid)
              (map (\<lambda>a. serializeMessage (heap s a)) (take (min L i) (drop (i - L) ?log)))
              (if L < i then Some (m_id (heap s (?log ! (i - L - 1)))) else None)
              (L < i))]"
    unfolding request_room_history_def
    using user room sl hm nc ne2
    by (simp add: getRoom_def Let_def bi_def[symmetric] ei_def[symmetric] st_def[symmetric])
  then show ?thesis by (simp add: L_def)
qed



section \<open>Invariants of the reachable states\<close>

lemma sameNames_refl [simp]: "sameNames s s" by (simp add: sameNames_def)
lemma sameRoomIds_refl [simp]: "sameRoomIds s s" by (simp add: sameRoomIds_def)

lemma sameNames_trans: "sameNames a b \<Longrightarrow> sameNames b c \<Longrightarrow> sameNames a c"
  by (simp add: sameNames_def)

lemma sameRoomIds_trans: "sameRoomIds a b \<Longrightarrow> sameRoomIds b c \<Longrightarrow> sameRoomIds a c"
  by (simp add: sameRoomIds_def)

lemma sameNames_inv: "sameNames s s' \<Longrightarrow> namesInv s \<Longrightarrow> namesInv s'"
  unfolding sameNames_def namesInv_def
proof (intro allI impI)
  fix sid u
  assume h: "usernameToSocketId s' = usernameToSocketId s \<and>
       (\<forall>x. map_option u_username (map_of (users s') x) = map_option u_username (map_of (users s) x))"
    and inv: "\<forall>sid u. map_of (users s) sid = Some u \<longrightarrow>
        map_of (usernameToSocketId s) (u_username u) = Some sid
      \<and> u_username u \<noteq> [] \<and> trim (u_username u) = u_username u"
    and u: "map_of (users s') sid = Some u"
  from h u have "map_option u_username (map_of (users s) sid) = Some (u_username u)"
    by (metis option.simps(9))
  then obtain v where "map_of (users s) sid = Some v" "u_username v = u_username u" by auto
  with inv h show "map_of (usernameToSocketId s') (u_username u) = Some sid
      \<and> u_username u \<noteq> [] \<and> trim (u_username u) = u_username u" by metis
qed

lemma sameRoomIds_wf: "sameRoomIds s s' \<Longrightarrow> roomsWf s \<Longrightarrow> roomsWf s'"
  unfolding sameRoomIds_def roomsWf_def
proof (intro allI impI)
  fix k r
  assume h: "\<forall>k. map_option r_id (map_of (rooms s') k) = map_option r_id (map_of (rooms s) k)"
    and wf: "\<forall>k r. map_of (rooms s) k = Some r \<longrightarrow> r_id r = k"
    and r: "map_of (rooms s') k = Some r"
  from h r have "map_option r_id (map_of (rooms s) k) = Some (r_id r)" by (metis option.simps(9))
  then obtain r0 where "map_of (rooms s) k = Some r0" "r_id r0 = r_id r" by auto
  with wf show "r_id r = k" by metis
qed

lemma addSystemMessage_frame:
  assumes "addSystemMessage P s rid txt now = (s', out)"
  shows "users s' = users s" "usernameToSocketId s' = usernameToSocketId s"
    "privateThreads s' = privateThreads s" "sameRoomIds s s'"
  using assms
  by (auto simp: addSystemMessage_def newMessage_def Let_def sameRoomIds_def update_conv'
        addMessageToRoom_def split: option.splits)

lemma addSystemMessage_sameNames:
  "addSystemMessage P s rid txt now = (s', out) \<Longrightarrow> sameNames s s'"
  by (simp add: sameNames_def addSystemMessage_frame)

lemma createRoom_frame:
  assumes "createRoom P s name opts now = (key, room, s')"
  shows "users s' = users s" "usernameToSocketId s' = usernameToSocketId s"
    "privateThreads s' = privateThreads s" "heap s' = heap s" "nextRef s' = nextRef s"
    "map_of (rooms s') key = Some room"
    "roomsWf s \<Longrightarrow> roomsWf s'"
    "roomsWf s \<Longrightarrow> r_id room = key"
  using assms
  by (auto simp: createRoom_def normalizeRoomId_def Let_def update_conv' roomsWf_def
        split: option.splits if_splits prod.splits)


lemma update_same_name:
  "map_of us sid = Some u \<Longrightarrow> u_username u' = u_username u \<Longrightarrow>
   map_option u_username (map_of (AList.update sid u' us) x) = map_option u_username (map_of us x)"
  by (simp add: update_conv')

lemma update_same_room_id:
  "map_of rs k = Some r \<Longrightarrow> r_id r' = r_id r \<Longrightarrow>
   map_option r_id (map_of (AList.update k r' rs) x) = map_option r_id (map_of rs x)"
  by (simp add: update_conv')

lemma addSystemMessage_ids:
  "addSystemMessage P s rid txt now = (s', out) \<Longrightarrow>
   map_option r_id (map_of (rooms s') k) = map_option r_id (map_of (rooms s) k)"
  using addSystemMessage_frame(4) by (simp add: sameRoomIds_def)

lemma leave_room_frame:
  assumes "leave_room P s sid roomId now = (s', out)"
  shows "sameNames s s'" "sameRoomIds s s'"
proof -
  show "sameNames s s'"
    using assms
    by (auto simp: leave_room_def Let_def sameNames_def update_conv' getRoom_def
          addSystemMessage_frame
          split: option.splits prod.splits if_splits)
  show "sameRoomIds s s'"
    using assms
    by (auto simp: leave_room_def Let_def getRoom_def orDefault_def sameRoomIds_def
          addSystemMessage_ids update_conv'
          split: option.splits prod.splits if_splits)
qed


lemma send_message_frame:
  assumes "send_message P s sid roomId message attachments tempId now = (s', out)"
  shows "sameNames s s'" "sameRoomIds s s'"
  using assms
  by (auto simp: send_message_def Let_def sameNames_def sameRoomIds_def getRoom_def
        newMessage_def orDefault_def addMessageToRoom_def update_conv'
        split: option.splits prod.splits if_splits)

lemma message_delivered_frame:
  assumes "message_delivered s sid messageId roomId = (s', out)"
  shows "sameNames s s'" "sameRoomIds s s'"
  using assms
  by (auto simp: message_delivered_def Let_def sameNames_def sameRoomIds_def
        split: option.splits)

lemma message_read_frame:
  assumes "message_read s sid messageId roomId = (s', out)"
  shows "sameNames s s'" "sameRoomIds s s'"
  using assms
  by (auto simp: message_read_def Let_def sameNames_def sameRoomIds_def
        split: option.splits)

lemma react_to_message_frame:
  assumes "react_to_message s sid roomId messageId emoji = (s', out)"
  shows "sameNames s s'" "sameRoomIds s s'"
  using assms
  by (auto simp: react_to_message_def Let_def sameNames_def sameRoomIds_def
        split: option.splits)

lemma private_message_read_frame:
  assumes "private_message_read s sid threadId messageId = (s', out)"
  shows "sameNames s s'" "sameRoomIds s s'"
  using assms
  by (auto simp: private_message_read_def Let_def sameNames_def sameRoomIds_def
        split: option.splits)

lemma react_to_private_message_frame:
  assumes "react_to_private_message s sid threadId messageId emoji = (s', out)"
  shows "sameNames s s'" "sameRoomIds s s'"
  using assms
  by (auto simp: react_to_private_message_def Let_def sameNames_def sameRoomIds_def
        split: option.splits)

lemma set_active_room_frame:
  assumes "set_active_room s sid roomId now = (s', out)"
  shows "sameNames s s'" "sameRoomIds s s'"
  using assms
  by (auto simp: set_active_room_def Let_def sameNames_def sameRoomIds_def update_conv'
        split: option.splits)

lemma typing_frame:
  assumes "typing s sid roomId isTyping = (s', out)"
  shows "sameNames s s'" "sameRoomIds s s'"
  using assms
  by (auto simp: typing_def Let_def sameNames_def sameRoomIds_def getRoom_def orDefault_def
        update_conv' split: option.splits if_splits)

lemma typingExpired_frame:
  assumes "typingExpired s roomId username = (s', out)"
  shows "sameNames s s'" "sameRoomIds s s'"
  using assms
  by (auto simp: typingExpired_def Let_def sameNames_def sameRoomIds_def update_conv'
        split: option.splits)

lemma private_typing_frame:
  assumes "private_typing s sid to isTyping = (s', out)"
  shows "sameNames s s'" "sameRoomIds s s'"
  using assms
  by (auto simp: private_typing_def Let_def split: option.splits if_splits)

lemma private_message_frame:
  assumes "private_message P s sid to message tempId now = (s', out)"
  shows "sameNames s s'" "sameRoomIds s s'"
  using assms
  by (auto simp: private_message_def Let_def sameNames_def sameRoomIds_def
        ensurePrivateThread_def newMessage_def
        split: option.splits prod.splits if_splits)


lemma createRoom_ids:
  assumes "createRoom P s name opts now = (key, room, s')"
  shows "map_option r_id (map_of (rooms s') k)
         = (if k = key \<and> map_of (rooms s) key = None then Some key
            else map_option r_id (map_of (rooms s) k))"
  using assms
  by (auto simp: createRoom_def normalizeRoomId_def Let_def update_conv'
        split: option.splits if_splits prod.splits)

lemma createRoom_room:
  assumes "createRoom P s name opts now = (key, room, s')"
  shows "map_of (rooms s) key = None \<Longrightarrow> r_id room = key"
    and "map_of (rooms s) key = Some r \<Longrightarrow> room = r"
  using assms
  by (auto simp: createRoom_def normalizeRoomId_def Let_def update_conv'
        split: option.splits if_splits prod.splits)

lemma join_room_names:
  assumes "join_room P s sid requestedRoom roomName description now = (s', out)"
  shows "sameNames s s'"
  using assms
  by (auto simp: join_room_def Let_def sameNames_def update_conv'
        createRoom_frame addSystemMessage_frame
        split: option.splits prod.splits if_splits)

lemma roomsWf_update:
  "roomsWf s \<Longrightarrow> rooms s' = AList.update k r (rooms s) \<Longrightarrow> r_id r = k \<Longrightarrow> roomsWf s'"
  by (simp add: roomsWf_def update_conv')

lemma roomsWf_cong: "rooms s' = rooms s \<Longrightarrow> roomsWf s' = roomsWf s"
  by (simp add: roomsWf_def)

lemma addSystemMessage_wf:
  "addSystemMessage P s rid txt now = (s', out) \<Longrightarrow> roomsWf s \<Longrightarrow> roomsWf s'"
  using addSystemMessage_frame(4) sameRoomIds_wf by blast

lemma join_room_wf:
  assumes jr: "join_room P s sid requestedRoom roomName description now = (s', out)"
    and wf: "roomsWf s"
  shows "roomsWf s'"
proof (cases "map_of (users s) sid")
  case None
  with jr wf show ?thesis by (simp add: join_room_def)
next
  case (Some user)
  show ?thesis
  proof (cases "\<not> truthy requestedRoom \<and> \<not> truthy roomName")
    case True
    with jr wf Some show ?thesis by (simp add: join_room_def)
  next
    case False
    define targetName where
      "targetName = (if truthy requestedRoom then orDefault requestedRoom [] else orDefault roomName [])"
    obtain roomKey room s1 where cr:
      "createRoom P s targetName
         \<lparr>o_id = requestedRoom, o_name = roomName, o_description = description,
          o_createdBy = Some (u_username user)\<rparr> now = (roomKey, room, s1)"
      by (cases "createRoom P s targetName
         \<lparr>o_id = requestedRoom, o_name = roomName, o_description = description,
          o_createdBy = Some (u_username user)\<rparr> now") auto
    have wf1: "roomsWf s1" and rid: "r_id room = roomKey"
      using createRoom_frame(7,8)[OF cr wf] by auto
    show ?thesis
    proof (cases "r_id room \<in> set (u_rooms user)")
      case True
      have "rooms s' = rooms s1"
        using jr Some False cr True
        by (auto simp: join_room_def Let_def targetName_def split: if_splits)
      with wf1 show ?thesis by (simp add: roomsWf_def)
    next
      case notin: False
      define s2 where
        "s2 = s1\<lparr>users := AList.update sid (user\<lparr>u_rooms := setAdd (r_id room) (u_rooms user)\<rparr>) (users s1),
                 rooms := AList.update roomKey (room\<lparr>r_members := insert sid (r_members room)\<rparr>)
                            (rooms s1)\<rparr>"
      obtain s3 out3 where asm:
        "addSystemMessage P s2 (r_id room) (u_username user @ str '' joined '' @ r_name room) now
         = (s3, out3)"
        by (cases "addSystemMessage P s2 (r_id room)
                     (u_username user @ str '' joined '' @ r_name room) now") auto
      have wf2: "roomsWf s2"
        by (rule roomsWf_update[OF wf1, where k = roomKey
              and r = "room\<lparr>r_members := insert sid (r_members room)\<rparr>"])
           (simp_all add: s2_def rid)
      have wf3: "roomsWf s3" by (rule addSystemMessage_wf[OF asm wf2])
      have "rooms s' = rooms s3"
        using jr Some False cr notin asm
        by (auto simp: join_room_def Let_def targetName_def s2_def split: if_splits)
      with wf3 show ?thesis by (simp add: roomsWf_def)
    qed
  qed
qed


lemma disconnectRoom_frame:
  assumes "disconnectRoom P sid username now acc rid = acc'"
  shows "users (fst acc') = users (fst acc)"
    and "usernameToSocketId (fst acc') = usernameToSocketId (fst acc)"
    and "roomsWf (fst acc) \<Longrightarrow> roomsWf (fst acc')"
proof -
  show "users (fst acc') = users (fst acc)"
    and "usernameToSocketId (fst acc') = usernameToSocketId (fst acc)"
    using assms
    by (auto simp: disconnectRoom_def Let_def addSystemMessage_frame
          split: option.splits prod.splits)
  show "roomsWf (fst acc')" if wf: "roomsWf (fst acc)"
  proof (cases "map_of (rooms (fst acc)) rid")
    case None
    with assms wf show ?thesis by (simp add: disconnectRoom_def)
  next
    case (Some room)
    define s1 where
      "s1 = (fst acc)\<lparr>rooms := AList.update rid
               (room\<lparr>r_members := r_members room - {sid}, r_typing := r_typing room - {username}\<rparr>)
               (rooms (fst acc))\<rparr>"
    obtain s2 out2 where asm:
      "addSystemMessage P s1 (r_id room) (username @ str '' left the room'') now = (s2, out2)"
      by (cases "addSystemMessage P s1 (r_id room) (username @ str '' left the room'') now") auto
    have "r_id room = rid" using wf Some by (simp add: roomsWf_def)
    then have wf1: "roomsWf s1"
      by (intro roomsWf_update[OF wf, where k = rid
            and r = "room\<lparr>r_members := r_members room - {sid},
                            r_typing := r_typing room - {username}\<rparr>"])
         (simp_all add: s1_def)
    have "fst acc' = s2"
      using assms Some asm by (auto simp: disconnectRoom_def Let_def s1_def)
    with addSystemMessage_wf[OF asm wf1] show ?thesis by simp
  qed
qed

lemma foldl_disconnectRoom_frame:
  "users (fst (foldl (disconnectRoom P sid username now) acc rids)) = users (fst acc)
   \<and> usernameToSocketId (fst (foldl (disconnectRoom P sid username now) acc rids))
       = usernameToSocketId (fst acc)
   \<and> (roomsWf (fst acc) \<longrightarrow> roomsWf (fst (foldl (disconnectRoom P sid username now) acc rids)))"
proof (induction rids arbitrary: acc)
  case Nil
  then show ?case by simp
next
  case (Cons rid rids)
  show ?case
    using Cons.IH[of "disconnectRoom P sid username now acc rid"]
      disconnectRoom_frame[where P = P and sid = sid and username = username and now = now
        and acc = acc and rid = rid, OF refl]
    by simp
qed

lemma disconnect_None:
  "map_of (users s) sid = None \<Longrightarrow> disconnect P s sid now = (s, [])"
  by (simp add: disconnect_def)

lemma disconnect_Some:
  assumes "map_of (users s) sid = Some user" and "disconnect P s sid now = (s', out)"
  shows "users s' = AList.delete sid (users s)"
    and "usernameToSocketId s' = AList.delete (u_username user) (usernameToSocketId s)"
    and "roomsWf s \<Longrightarrow> roomsWf s'"
proof -
  let ?acc = "foldl (disconnectRoom P sid (u_username user) now) (s, []) (u_rooms user)"
  have fr: "users (fst ?acc) = users s" "usernameToSocketId (fst ?acc) = usernameToSocketId s"
    "roomsWf s \<Longrightarrow> roomsWf (fst ?acc)"
    using foldl_disconnectRoom_frame[of P sid "u_username user" now "(s, [])" "u_rooms user"]
    by auto
  have s': "s' = (fst ?acc)\<lparr>users := AList.delete sid (users (fst ?acc)),
                usernameToSocketId := AList.delete (u_username user) (usernameToSocketId (fst ?acc))\<rparr>"
    using assms by (auto simp: disconnect_def Let_def split: prod.splits)
  show "users s' = AList.delete sid (users s)"
    and "usernameToSocketId s' = AList.delete (u_username user) (usernameToSocketId s)"
    by (simp_all add: s' fr)
  show "roomsWf s'" if "roomsWf s"
    using fr(3)[OF that] by (simp add: s' roomsWf_def)
qed

lemma disconnect_namesInv:
  assumes "disconnect P s sid now = (s', out)" and inv: "namesInv s"
  shows "namesInv s'"
proof (cases "map_of (users s) sid")
  case None
  with assms show ?thesis by (simp add: disconnect_None)
next
  case (Some user)
  note d = disconnect_Some(1,2)[OF Some assms(1)]
  show ?thesis
    unfolding namesInv_def
  proof (intro allI impI)
    fix x u
    assume u: "map_of (users s') x = Some u"
    then have xs: "x \<noteq> sid" and u0: "map_of (users s) x = Some u"
      by (auto simp: d delete_conv' split: if_splits)
    from inv u0 have b: "map_of (usernameToSocketId s) (u_username u) = Some x"
      and rest: "u_username u \<noteq> []" "trim (u_username u) = u_username u"
      by (auto simp: namesInv_def)
    from inv Some have "map_of (usernameToSocketId s) (u_username user) = Some sid"
      by (auto simp: namesInv_def)
    with b xs have "u_username u \<noteq> u_username user" by auto
    with b rest show "map_of (usernameToSocketId s') (u_username u) = Some x
        \<and> u_username u \<noteq> [] \<and> trim (u_username u) = u_username u"
      by (simp add: d delete_conv')
  qed
qed


lemma last_dropWhile: "dropWhile p xs \<noteq> [] \<Longrightarrow> last (dropWhile p xs) = last xs"
  by (induction xs) (auto split: if_splits)

lemma trim_Nil_or_ends:
  "trim v = [] \<or> (\<not> isWhiteSpace (hd (trim v)) \<and> \<not> isWhiteSpace (last (trim v)))"
proof (cases "trim v = []")
  case True
  then show ?thesis by simp
next
  case False
  let ?d = "dropWhile isWhiteSpace v"
  let ?e = "dropWhile isWhiteSpace (rev ?d)"
  have t: "trim v = rev ?e" by (simp add: trim_def)
  with False have e: "?e \<noteq> []" by simp
  then have d: "?d \<noteq> []" by (metis dropWhile.simps(1) rev.simps(1))
  have "last (trim v) = hd ?e" using e by (simp add: t last_rev)
  moreover have "\<not> isWhiteSpace (hd ?e)" using e by (rule hd_dropWhile)
  moreover have "hd (trim v) = last ?e" using e by (simp add: t hd_rev)
  moreover have "last ?e = last (rev ?d)" using e by (rule last_dropWhile)
  moreover have "last (rev ?d) = hd ?d" using d by (simp add: last_rev)
  moreover have "\<not> isWhiteSpace (hd ?d)" using d by (rule hd_dropWhile)
  ultimately show ?thesis by simp
qed

lemma trim_id:
  assumes "v \<noteq> []" and "\<not> isWhiteSpace (hd v)" and "\<not> isWhiteSpace (last v)"
  shows "trim v = v"
proof -
  have "dropWhile isWhiteSpace v = v" using assms by (cases v) auto
  moreover have "dropWhile isWhiteSpace (rev v) = rev v"
    using assms by (cases "rev v") (auto simp: hd_rev)
  ultimately show ?thesis by (simp add: trim_def)
qed

lemma trim_Nil: "trim [] = []"
  by (simp add: trim_def)

lemma trim_trim: "trim (trim v) = trim v"
proof (cases "trim v = []")
  case True
  then show ?thesis by (simp only: trim_Nil)
next
  case False
  with trim_Nil_or_ends[of v] show ?thesis by (intro trim_id) auto
qed

lemma trim_joinName: "trim (joinName payload) = joinName payload"
  by (simp add: joinName_def Let_def trim_trim trim_Nil)

lemma user_join_invalid:
  "joinName payload = [] \<Longrightarrow>
   user_join P s sid payload now = Some (s, [Ack (AckError (str ''Username is required''))])"
  by (simp add: user_join_def joinName_def Let_def)

lemma user_join_conflict:
  "joinName payload \<noteq> [] \<Longrightarrow> map_of (usernameToSocketId s) (joinName payload) \<noteq> None \<Longrightarrow>
   user_join P s sid payload now
   = Some (s, [Ack (AckError (str ''That username is already in use''))])"
  by (simp add: user_join_def joinName_def Let_def)


lemma truthy_simps: "truthy (Some x) = (x \<noteq> [])" "truthy None = False"
  by (simp_all add: truthy_def)

lemma orDefault_simps: "orDefault (Some x) d = (if x = [] then d else x)" "orDefault None d = d"
  by (simp_all add: orDefault_def)

lemma joinName_fold:
  "(if truthy (case payload of JoinString v \<Rightarrow> Some v | JoinObject v \<Rightarrow> v | JoinNothing \<Rightarrow> None)
    then trim (orDefault (case payload of JoinString v \<Rightarrow> Some v | JoinObject v \<Rightarrow> v
                          | JoinNothing \<Rightarrow> None) [])
    else []) = joinName payload"
  by (simp add: joinName_def Let_def)

lemma user_join_ok:
  assumes name: "joinName payload \<noteq> []"
    and free: "map_of (usernameToSocketId s) (joinName payload) = None"
    and wf: "roomsWf s"
  shows "\<exists>s' out. user_join P s sid payload now = Some (s', out)
     \<and> users s' = AList.update sid
           \<lparr>u_id = sid, u_username = joinName payload, u_status = str ''online'',
            u_activeRoom = str ''general'', u_rooms = [str ''general''], u_lastSeen = now\<rparr> (users s)
     \<and> usernameToSocketId s' = AList.update (joinName payload) sid (usernameToSocketId s)
     \<and> privateThreads s' = privateThreads s
     \<and> roomsWf s'
     \<and> out \<noteq> [] \<and> last out = Ack (AckJoined (str ''general''))"
proof (cases "map_of (rooms s) (str ''general'')")
  case (Some r)
  then have rid: "r_id r = str ''general''" using wf by (simp add: roomsWf_def)
  have wf': "\<And>k r. map_of (rooms s) k = Some r \<Longrightarrow> r_id r = k"
    using wf by (simp add: roomsWf_def)
  show ?thesis
    using name free Some rid
    by (auto simp: user_join_def joinName_fold Let_def setAdd_def update_conv'
          addSystemMessage_def newMessage_def roomsWf_def addMessageToRoom_def wf')
next
  case None
  have wf': "\<And>k r. map_of (rooms s) k = Some r \<Longrightarrow> r_id r = k"
    using wf by (simp add: roomsWf_def)
  show ?thesis
    using name free None
    by (auto simp: user_join_def joinName_fold Let_def setAdd_def update_conv'
          createRoom_def truthy_simps orDefault_simps str_Nil_iff
          addSystemMessage_def newMessage_def roomsWf_def addMessageToRoom_def wf')
qed


lemma user_join_inv:
  assumes inv: "namesInv s" and wf: "roomsWf s"
  shows "\<exists>s' out. user_join P s sid payload now = Some (s', out) \<and> namesInv s' \<and> roomsWf s'"
proof (cases "joinName payload = []")
  case True
  with inv wf show ?thesis by (simp add: user_join_invalid)
next
  case name: False
  show ?thesis
  proof (cases "map_of (usernameToSocketId s) (joinName payload)")
    case (Some other)
    with name inv wf show ?thesis by (simp add: user_join_conflict)
  next
    case None
    from user_join_ok[OF name None wf, of P sid now]
    obtain s' out where uj: "user_join P s sid payload now = Some (s', out)"
      and us: "users s' = AList.update sid
           \<lparr>u_id = sid, u_username = joinName payload, u_status = str ''online'',
            u_activeRoom = str ''general'', u_rooms = [str ''general''], u_lastSeen = now\<rparr> (users s)"
      and bs: "usernameToSocketId s' = AList.update (joinName payload) sid (usernameToSocketId s)"
      and wf': "roomsWf s'"
      by blast
    have "namesInv s'"
      unfolding namesInv_def
    proof (intro allI impI)
      fix x u
      assume u: "map_of (users s') x = Some u"
      show "map_of (usernameToSocketId s') (u_username u) = Some x
          \<and> u_username u \<noteq> [] \<and> trim (u_username u) = u_username u"
      proof (cases "x = sid")
        case True
        with u have "u_username u = joinName payload" by (auto simp: us update_conv')
        with True name show ?thesis by (simp add: bs update_conv' trim_joinName)
      next
        case False
        with u have u0: "map_of (users s) x = Some u" by (simp add: us update_conv')
        with inv have b: "map_of (usernameToSocketId s) (u_username u) = Some x"
          and rest: "u_username u \<noteq> []" "trim (u_username u) = u_username u"
          by (auto simp: namesInv_def)
        from b None have "u_username u \<noteq> joinName payload" by auto
        with b rest show ?thesis by (simp add: bs update_conv')
      qed
    qed
    with uj wf' show ?thesis by blast
  qed
qed

lemma step_inv:
  assumes inv: "namesInv s" and wf: "roomsWf s"
  shows "\<exists>s' out. step P s e = Some (s', out) \<and> namesInv s' \<and> roomsWf s'"
proof (cases e)
  case (UserJoin sid payload now)
  with user_join_inv[OF inv wf] show ?thesis by simp
next
  case (JoinRoom sid requestedRoom roomName description now)
  obtain s' out where h: "join_room P s sid requestedRoom roomName description now = (s', out)"
    by (cases "join_room P s sid requestedRoom roomName description now") auto
  with JoinRoom sameNames_inv[OF join_room_names[OF h] inv] join_room_wf[OF h wf]
  show ?thesis by simp
next
  case (LeaveRoom sid roomId now)
  obtain s' out where h: "leave_room P s sid roomId now = (s', out)"
    by (cases "leave_room P s sid roomId now") auto
  with LeaveRoom sameNames_inv[OF leave_room_frame(1)[OF h] inv]
    sameRoomIds_wf[OF leave_room_frame(2)[OF h] wf]
  show ?thesis by simp
next
  case (SendMessage sid roomId message attachments tempId now)
  obtain s' out where h: "send_message P s sid roomId message attachments tempId now = (s', out)"
    by (cases "send_message P s sid roomId message attachments tempId now") auto
  with SendMessage sameNames_inv[OF send_message_frame(1)[OF h] inv]
    sameRoomIds_wf[OF send_message_frame(2)[OF h] wf]
  show ?thesis by simp
next
  case (MessageDelivered sid messageId roomId)
  obtain s' out where h: "message_delivered s sid messageId roomId = (s', out)"
    by (cases "message_delivered s sid messageId roomId") auto
  with MessageDelivered sameNames_inv[OF message_delivered_frame(1)[OF h] inv]
    sameRoomIds_wf[OF message_delivered_frame(2)[OF h] wf]
  show ?thesis by simp
next
  case (MessageRead sid messageId roomId)
  obtain s' out where h: "message_read s sid messageId roomId = (s', out)"
    by (cases "message_read s sid messageId roomId") auto
  with MessageRead sameNames_inv[OF message_read_frame(1)[OF h] inv]
    sameRoomIds_wf[OF message_read_frame(2)[OF h] wf]
  show ?thesis by simp
next
  case (ReactToMessage sid roomId messageId emoji)
  obtain s' out where h: "react_to_message s sid roomId messageId emoji = (s', out)"
    by (cases "react_to_message s sid roomId messageId emoji") auto
  with ReactToMessage sameNames_inv[OF react_to_message_frame(1)[OF h] inv]
    sameRoomIds_wf[OF react_to_message_frame(2)[OF h] wf]
  show ?thesis by simp
next
  case (Typing sid roomId isTyping)
  obtain s' out where h: "typing s sid roomId isTyping = (s', out)"
    by (cases "typing s sid roomId isTyping") auto
  with Typing sameNames_inv[OF typing_frame(1)[OF h] inv]
    sameRoomIds_wf[OF typing_frame(2)[OF h] wf]
  show ?thesis by simp
next
  case (TypingExpired roomId username)
  obtain s' out where h: "typingExpired s roomId username = (s', out)"
    by (cases "typingExpired s roomId username") auto
  with TypingExpired sameNames_inv[OF typingExpired_frame(1)[OF h] inv]
    sameRoomIds_wf[OF typingExpired_frame(2)[OF h] wf]
  show ?thesis by simp
next
  case (PrivateTypingEv sid to isTyping)
  obtain s' out where h: "private_typing s sid to isTyping = (s', out)"
    by (cases "private_typing s sid to isTyping") auto
  with PrivateTypingEv sameNames_inv[OF private_typing_frame(1)[OF h] inv]
    sameRoomIds_wf[OF private_typing_frame(2)[OF h] wf]
  show ?thesis by simp
next
  case (RequestRoomHistory sid roomId before limit)
  with inv wf show ?thesis by simp
next
  case (PrivateMessageEv sid to message tempId now)
  obtain s' out where h: "private_message P s sid to message tempId now = (s', out)"
    by (cases "private_message P s sid to message tempId now") auto
  with PrivateMessageEv sameNames_inv[OF private_message_frame(1)[OF h] inv]
    sameRoomIds_wf[OF private_message_frame(2)[OF h] wf]
  show ?thesis by simp
next
  case (PrivateMessageRead sid threadId messageId)
  obtain s' out where h: "private_message_read s sid threadId messageId = (s', out)"
    by (cases "private_message_read s sid threadId messageId") auto
  with PrivateMessageRead sameNames_inv[OF private_message_read_frame(1)[OF h] inv]
    sameRoomIds_wf[OF private_message_read_frame(2)[OF h] wf]
  show ?thesis by simp
next
  case (ReactToPrivateMessage sid threadId messageId emoji)
  obtain s' out where h: "react_to_private_message s sid threadId messageId emoji = (s', out)"
    by (cases "react_to_private_message s sid threadId messageId emoji") auto
  with ReactToPrivateMessage sameNames_inv[OF react_to_private_message_frame(1)[OF h] inv]
    sameRoomIds_wf[OF react_to_private_message_frame(2)[OF h] wf]
  show ?thesis by simp
next
  case (SetActiveRoom sid roomId now)
  obtain s' out where h: "set_active_room s sid roomId now = (s', out)"
    by (cases "set_active_room s sid roomId now") auto
  with SetActiveRoom sameNames_inv[OF set_active_room_frame(1)[OF h] inv]
    sameRoomIds_wf[OF set_active_room_frame(2)[OF h] wf]
  show ?thesis by simp
next
  case (Disconnect sid now)
  obtain s' out where h: "disconnect P s sid now = (s', out)"
    by (cases "disconnect P s sid now") auto
  have "roomsWf s'"
  proof (cases "map_of (users s) sid")
    case None
    with h wf show ?thesis by (simp add: disconnect_None)
  next
    case (Some user)
    from disconnect_Some(3)[OF Some h wf] show ?thesis .
  qed
  with Disconnect h disconnect_namesInv[OF h inv] show ?thesis by simp
qed

lemma run_inv:
  "namesInv s \<Longrightarrow> roomsWf s \<Longrightarrow> \<exists>s'. run P s evs = Some s' \<and> namesInv s' \<and> roomsWf s'"
proof (induction evs arbitrary: s)
  case Nil
  then show ?case by simp
next
  case (Cons e evs)
  from step_inv[OF Cons.prems, of P e]
  obtain s1 out where st: "step P s e = Some (s1, out)" and i1: "namesInv s1" "roomsWf s1"
    by blast
  from Cons.IH[OF i1] st show ?case by simp
qed

lemma initialState_rooms:
  "rooms (initialState P t0) =
     [(str ''general'',
       \<lparr>r_id = str ''general'', r_name = str ''General'',
        r_description = str ''Welcome to the main lobby. Say hi '' @ [0xD83D, 0xDC4B],
        r_createdAt = t0, r_createdBy = str ''system'', r_messages = [], r_members = {},
        r_typing = {}\<rparr>),
      (str ''random'',
       \<lparr>r_id = str ''random'', r_name = str ''Random'',
        r_description = str ''Anything goes. Share memes, links, and fun stuff.'',
        r_createdAt = t0, r_createdBy = str ''system'', r_messages = [], r_members = {},
        r_typing = {}\<rparr>)]"
  by (simp add: initialState_def DEFAULT_ROOMS_def createRoom_def emptyState_def
        truthy_simps orDefault_simps str_Nil_iff str_eq_iff Let_def)

lemma initialState_fields:
  "users (initialState P t0) = []" "usernameToSocketId (initialState P t0) = []"
  "privateThreads (initialState P t0) = []" "nextRef (initialState P t0) = 0"
  "uuidCalls (initialState P t0) = 0"
  by (simp_all add: initialState_def DEFAULT_ROOMS_def createRoom_def emptyState_def
        truthy_simps orDefault_simps str_Nil_iff str_eq_iff Let_def)

lemma initialState_inv: "namesInv (initialState P t0)" "roomsWf (initialState P t0)"
  by (auto simp: namesInv_def roomsWf_def initialState_rooms initialState_fields str_eq_iff
        split: if_splits)

lemma reachable_inv: "reachable P s \<Longrightarrow> namesInv s \<and> roomsWf s"
  unfolding reachable_def
  using run_inv[OF initialState_inv] by (metis option.inject)

lemma reachable_initial: "reachable P (initialState P t0)"
  unfolding reachable_def by (rule exI[of _ t0], rule exI[of _ "[]"]) simp

lemma run_append:
  "run P s (evs @ evs') = (case run P s evs of None \<Rightarrow> None | Some s' \<Rightarrow> run P s' evs')"
  by (induction evs arbitrary: s) (auto split: option.splits)

lemma reachable_step:
  assumes "reachable P s" and "step P s e = Some (s', out)"
  shows "reachable P s'"
proof -
  from assms(1) obtain t0 evs where "run P (initialState P t0) evs = Some s"
    by (auto simp: reachable_def)
  with assms(2) have "run P (initialState P t0) (evs @ [e]) = Some s'"
    by (simp add: run_append)
  then show ?thesis unfolding reachable_def by blast
qed


section \<open>The example run\<close>

lemma str_append: "str (a @ b) = str a @ str b"
  by (simp add: str_def)

lemma user_join_state:
  assumes name: "joinName payload \<noteq> []"
    and free: "map_of (usernameToSocketId s) (joinName payload) = None"
    and general: "map_of (rooms s) (str ''general'') = Some r"
    and rid: "r_id r = str ''general''"
  shows "\<exists>s' out. user_join P s sid payload now = Some (s', out)
     \<and> users s' = AList.update sid
           \<lparr>u_id = sid, u_username = joinName payload, u_status = str ''online'',
            u_activeRoom = str ''general'', u_rooms = [str ''general''], u_lastSeen = now\<rparr> (users s)
     \<and> usernameToSocketId s' = AList.update (joinName payload) sid (usernameToSocketId s)
     \<and> rooms s' = AList.update (str ''general'')
           (r\<lparr>r_members := insert sid (r_members r),
              r_messages := trimMessages (r_messages r @ [nextRef s]) MAX_ROOM_MESSAGES\<rparr>)
           (rooms s)
     \<and> privateThreads s' = privateThreads s
     \<and> heap s' = (heap s)(nextRef s :=
           buildMessage (uuidv4 P (uuidCalls s)) now (str ''general'')
             (str ''system'', str ''System'')
             (joinName payload @ str '' joined the chat'') [] True False None)
     \<and> nextRef s' = Suc (nextRef s)
     \<and> uuidCalls s' = Suc (uuidCalls s)
     \<and> out \<noteq> [] \<and> last out = Ack (AckJoined (str ''general''))"
  using assms
  by (simp add: user_join_def joinName_fold Let_def setAdd_def update_conv'
        addSystemMessage_def newMessage_def addMessageToRoom_def)

lemma initialState_eq:
  "initialState P t0 =
     \<lparr>users = [], usernameToSocketId = [],
      rooms =
        [(str ''general'',
          \<lparr>r_id = str ''general'', r_name = str ''General'',
           r_description = str ''Welcome to the main lobby. Say hi '' @ [0xD83D, 0xDC4B],
           r_createdAt = t0, r_createdBy = str ''system'', r_messages = [], r_members = {},
           r_typing = {}\<rparr>),
         (str ''random'',
          \<lparr>r_id = str ''random'', r_name = str ''Random'',
           r_description = str ''Anything goes. Share memes, links, and fun stuff.'',
           r_createdAt = t0, r_createdBy = str ''system'', r_messages = [], r_members = {},
           r_typing = {}\<rparr>)],
      privateThreads = [], heap = (\<lambda>a. blankMessage), nextRef = 0, uuidCalls = 0\<rparr>"
  by (simp add: initialState_def DEFAULT_ROOMS_def createRoom_def emptyState_def
        truthy_simps orDefault_simps str_Nil_iff str_eq_iff Let_def)

lemma joinName_ada: "joinName (JoinString (str ''ada'')) = str ''ada''"
  by (simp add: joinName_def Let_def truthy_simps orDefault_simps str_Nil_iff)
     (simp add: trim_def str_def isWhiteSpace_def)

lemma joinName_grace: "joinName (JoinString (str ''grace'')) = str ''grace''"
  by (simp add: joinName_def Let_def truthy_simps orDefault_simps str_Nil_iff)
     (simp add: trim_def str_def isWhiteSpace_def)

lemma demoState_run:
  "run demoPlatform (initialState demoPlatform (str ''t0''))
     [UserJoin (str ''s1'') (JoinString (str ''ada'')) (str ''t1''),
      UserJoin (str ''s2'') (JoinString (str ''grace'')) (str ''t2'')] = Some demoState"
proof -
  let ?s0 = "initialState demoPlatform (str ''t0'')"
  let ?g0 = "\<lparr>r_id = str ''general'', r_name = str ''General'',
           r_description = str ''Welcome to the main lobby. Say hi '' @ [0xD83D, 0xDC4B],
           r_createdAt = str ''t0'', r_createdBy = str ''system'', r_messages = [],
           r_members = {}, r_typing = {}\<rparr>"
  have g0: "map_of (rooms ?s0) (str ''general'') = Some ?g0"
    by (simp add: initialState_eq)
  have n0: "map_of (usernameToSocketId ?s0) (joinName (JoinString (str ''ada''))) = None"
    by (simp add: initialState_eq)
  have a0: "joinName (JoinString (str ''ada'')) \<noteq> []"
    by (simp add: joinName_ada str_Nil_iff)
  from user_join_state[OF a0 n0 g0, of demoPlatform "str ''s1''" "str ''t1''"]
  obtain s1 out1 where j1:
    "user_join demoPlatform ?s0 (str ''s1'') (JoinString (str ''ada'')) (str ''t1'') = Some (s1, out1)"
    and f1: "users s1 = [(str ''s1'', \<lparr>u_id = str ''s1'', u_username = str ''ada'',
                 u_status = str ''online'', u_activeRoom = str ''general'',
                 u_rooms = [str ''general''], u_lastSeen = str ''t1''\<rparr>)]"
      "usernameToSocketId s1 = [(str ''ada'', str ''s1'')]"
      "rooms s1 = AList.update (str ''general'')
         (?g0\<lparr>r_members := {str ''s1''}, r_messages := [0]\<rparr>) (rooms ?s0)"
      "privateThreads s1 = []"
      "heap s1 = (\<lambda>a. blankMessage)(0 :=
           buildMessage [0x30] (str ''t1'') (str ''general'') (str ''system'', str ''System'')
             (str ''ada joined the chat'') [] True False None)"
      "nextRef s1 = 1" "uuidCalls s1 = 1"
    by (auto simp: joinName_ada initialState_eq demoPlatform_def trimMessages_def
          MAX_ROOM_MESSAGES_def str_append[symmetric])
  let ?g1 = "?g0\<lparr>r_members := {str ''s1''}, r_messages := [0]\<rparr>"
  have g1: "map_of (rooms s1) (str ''general'') = Some ?g1"
    by (simp add: f1 update_conv')
  have n1: "map_of (usernameToSocketId s1) (joinName (JoinString (str ''grace''))) = None"
    by (simp add: f1 joinName_grace str_eq_iff)
  have a1: "joinName (JoinString (str ''grace'')) \<noteq> []"
    by (simp add: joinName_grace str_Nil_iff)
  from user_join_state[OF a1 n1 g1, of demoPlatform "str ''s2''" "str ''t2''"]
  obtain s2 out2 where j2:
    "user_join demoPlatform s1 (str ''s2'') (JoinString (str ''grace'')) (str ''t2'') = Some (s2, out2)"
    and f2: "users s2 = users demoState"
      "usernameToSocketId s2 = usernameToSocketId demoState"
      "rooms s2 = rooms demoState"
      "privateThreads s2 = privateThreads demoState"
      "heap s2 = heap demoState"
      "nextRef s2 = nextRef demoState" "uuidCalls s2 = uuidCalls demoState"
    by (auto simp: joinName_grace f1 initialState_eq demoPlatform_def trimMessages_def
          MAX_ROOM_MESSAGES_def str_append[symmetric] str_eq_iff demoState_def
          insert_commute)
  have "s2 = demoState" by (rule state.equality) (simp_all add: f2)
  with j1 j2 show ?thesis by simp
qed


section \<open>Usernames\<close>

lemma demoState_reachable: "reachable demoPlatform demoState"
  unfolding reachable_def using demoState_run by blast

lemma joinName_trimmed:
  "v \<noteq> [] \<Longrightarrow> trim v = v \<Longrightarrow> joinName (JoinString v) = v"
  by (simp add: joinName_def Let_def truthy_simps orDefault_simps)

text \<open>
  Claim C2. In every state that a sequence of events reaches from start-up, no two
  connections hold the same username; a \<open>user_join\<close> whose username is held by a live
  user is answered with "That username is already in use" and leaves the state as it was;
  after the \<open>disconnect\<close> of a user the connection has no user, the username is unbound
  and a \<open>user_join\<close> with it succeeds on any connection. Every sequence of events runs to
  a state (no handler raises).
\<close>

theorem username_unique:
  assumes "reachable P s"
  shows "(\<forall>sid sid' u u'. map_of (users s) sid = Some u \<and> map_of (users s) sid' = Some u'
            \<and> u_username u = u_username u' \<longrightarrow> sid = sid')
       \<and> (\<forall>sid u sid' payload now. map_of (users s) sid = Some u \<and> joinName payload = u_username u
            \<longrightarrow> user_join P s sid' payload now
                = Some (s, [Ack (AckError (str ''That username is already in use''))]))
       \<and> (\<forall>sid u now s' out. map_of (users s) sid = Some u \<and> disconnect P s sid now = (s', out)
            \<longrightarrow> map_of (users s') sid = None
              \<and> map_of (usernameToSocketId s') (u_username u) = None
              \<and> (\<forall>sid' now'. \<exists>s'' out' u''.
                    user_join P s' sid' (JoinString (u_username u)) now' = Some (s'', out')
                  \<and> last out' = Ack (AckJoined (str ''general''))
                  \<and> map_of (users s'') sid' = Some u'' \<and> u_username u'' = u_username u))
       \<and> (\<forall>evs. \<exists>s'. run P s evs = Some s' \<and> reachable P s')"
proof -
  from reachable_inv[OF assms] have inv: "namesInv s" and wf: "roomsWf s" by auto
  have total: "\<exists>s'. run P s evs = Some s' \<and> reachable P s'" for evs
  proof -
    from run_inv[OF inv wf, of P evs] obtain s' where r: "run P s evs = Some s'" by blast
    from assms obtain t0 evs0 where "run P (initialState P t0) evs0 = Some s"
      by (auto simp: reachable_def)
    with r have "run P (initialState P t0) (evs0 @ evs) = Some s'" by (simp add: run_append)
    then have "reachable P s'" unfolding reachable_def by blast
    with r show ?thesis by blast
  qed
  have bound: "map_of (usernameToSocketId s) (u_username u) = Some sid"
    and nonempty: "u_username u \<noteq> []" and trimmed: "trim (u_username u) = u_username u"
    if "map_of (users s) sid = Some u" for sid u
    using inv that by (auto simp: namesInv_def)
  have uniq: "sid = sid'"
    if "map_of (users s) sid = Some u" "map_of (users s) sid' = Some u'"
      "u_username u = u_username u'" for sid sid' u u'
    using bound[OF that(1)] bound[OF that(2)] that(3) by simp
  have conflict: "user_join P s sid' payload now
                = Some (s, [Ack (AckError (str ''That username is already in use''))])"
    if "map_of (users s) sid = Some u" "joinName payload = u_username u" for sid u sid' payload now
    using bound[OF that(1)] nonempty[OF that(1)] that(2) by (simp add: user_join_conflict)
  have release: "map_of (users s') sid = None
              \<and> map_of (usernameToSocketId s') (u_username u) = None
              \<and> (\<forall>sid' now'. \<exists>s'' out' u''.
                    user_join P s' sid' (JoinString (u_username u)) now' = Some (s'', out')
                  \<and> last out' = Ack (AckJoined (str ''general''))
                  \<and> map_of (users s'') sid' = Some u'' \<and> u_username u'' = u_username u)"
    if u: "map_of (users s) sid = Some u" and d: "disconnect P s sid now = (s', out)"
    for sid u now s' out
  proof -
    note ds = disconnect_Some[OF u d]
    have gone: "map_of (users s') sid = None" by (simp add: ds(1) delete_conv')
    have free: "map_of (usernameToSocketId s') (u_username u) = None"
      by (simp add: ds(2) delete_conv')
    have wf': "roomsWf s'" by (rule ds(3)[OF wf])
    have jn: "joinName (JoinString (u_username u)) = u_username u"
      by (rule joinName_trimmed[OF nonempty[OF u] trimmed[OF u]])
    have "\<exists>s'' out' u''.
                    user_join P s' sid' (JoinString (u_username u)) now' = Some (s'', out')
                  \<and> last out' = Ack (AckJoined (str ''general''))
                  \<and> map_of (users s'') sid' = Some u'' \<and> u_username u'' = u_username u"
      for sid' now'
    proof -
      from user_join_ok[of "JoinString (u_username u)" s', unfolded jn,
          OF nonempty[OF u] free wf', of P sid' now']
      obtain s'' out' where "user_join P s' sid' (JoinString (u_username u)) now' = Some (s'', out')"
        and "users s'' = AList.update sid'
           \<lparr>u_id = sid', u_username = u_username u, u_status = str ''online'',
            u_activeRoom = str ''general'', u_rooms = [str ''general''], u_lastSeen = now'\<rparr> (users s')"
        and "last out' = Ack (AckJoined (str ''general''))"
        by blast
      then show ?thesis by (simp add: update_conv')
    qed
    with gone free show ?thesis by blast
  qed
  show ?thesis
    using uniq conflict release total by blast
qed


lemma demoState_users:
  "map_of (users demoState) (str ''s1'') =
     Some \<lparr>u_id = str ''s1'', u_username = str ''ada'', u_status = str ''online'',
           u_activeRoom = str ''general'', u_rooms = [str ''general''], u_lastSeen = str ''t1''\<rparr>"
  "map_of (users demoState) (str ''s2'') =
     Some \<lparr>u_id = str ''s2'', u_username = str ''grace'', u_status = str ''online'',
           u_activeRoom = str ''general'', u_rooms = [str ''general''], u_lastSeen = str ''t2''\<rparr>"
  by (simp_all add: demoState_def str_eq_iff)

theorem username_unique_witness:
  "reachable demoPlatform demoState
   \<and> map_of (users demoState) (str ''s1'') =
       Some \<lparr>u_id = str ''s1'', u_username = str ''ada'', u_status = str ''online'',
             u_activeRoom = str ''general'', u_rooms = [str ''general''], u_lastSeen = str ''t1''\<rparr>
   \<and> joinName (JoinString (str ''ada'')) = str ''ada''
   \<and> user_join demoPlatform demoState (str ''s3'') (JoinString (str ''ada'')) (str ''t3'')
       = Some (demoState, [Ack (AckError (str ''That username is already in use''))])
   \<and> map_of (usernameToSocketId (fst (disconnect demoPlatform demoState (str ''s1'') (str ''t3''))))
         (str ''ada'') = None"
proof -
  note t = username_unique[OF demoState_reachable]
  let ?u = "\<lparr>u_id = str ''s1'', u_username = str ''ada'', u_status = str ''online'',
             u_activeRoom = str ''general'', u_rooms = [str ''general''], u_lastSeen = str ''t1''\<rparr>"
  have u: "map_of (users demoState) (str ''s1'') = Some ?u" by (rule demoState_users(1))
  have j: "joinName (JoinString (str ''ada'')) = u_username ?u" by (simp add: joinName_ada)
  from t u j have c: "user_join demoPlatform demoState (str ''s3'') (JoinString (str ''ada'')) (str ''t3'')
       = Some (demoState, [Ack (AckError (str ''That username is already in use''))])"
    by blast
  obtain s' out where d: "disconnect demoPlatform demoState (str ''s1'') (str ''t3'') = (s', out)"
    by (cases "disconnect demoPlatform demoState (str ''s1'') (str ''t3'')") auto
  from t u d have "map_of (usernameToSocketId s') (u_username ?u) = None" by blast
  with d have r: "map_of (usernameToSocketId (fst (disconnect demoPlatform demoState (str ''s1'') (str ''t3''))))
         (str ''ada'') = None" by simp
  show ?thesis using demoState_reachable u c r by (simp add: joinName_ada)
qed

text \<open>
  Claim C8, as amended. In every reachable state the username of a live user is trimmed and
  has at least one character; a \<open>user_join\<close> whose username trims to the empty string is
  answered with "Username is required" and changes nothing; a \<open>user_join\<close> whose trimmed
  username is not empty and not in use succeeds, whatever its length.
\<close>

theorem live_usernames_nonempty:
  assumes "reachable P s"
  shows "(\<forall>sid u. map_of (users s) sid = Some u
            \<longrightarrow> 1 \<le> length (u_username u) \<and> trim (u_username u) = u_username u)
       \<and> (\<forall>sid payload now. joinName payload = []
            \<longrightarrow> user_join P s sid payload now
                = Some (s, [Ack (AckError (str ''Username is required''))]))
       \<and> (\<forall>sid payload now. joinName payload \<noteq> []
              \<and> map_of (usernameToSocketId s) (joinName payload) = None
            \<longrightarrow> (\<exists>s' out u'. user_join P s sid payload now = Some (s', out)
                  \<and> last out = Ack (AckJoined (str ''general''))
                  \<and> map_of (users s') sid = Some u' \<and> u_username u' = joinName payload))"
proof -
  from reachable_inv[OF assms] have inv: "namesInv s" and wf: "roomsWf s" by auto
  have a: "1 \<le> length (u_username u) \<and> trim (u_username u) = u_username u"
    if "map_of (users s) sid = Some u" for sid u
  proof -
    from inv that have "u_username u \<noteq> []" "trim (u_username u) = u_username u"
      by (auto simp: namesInv_def)
    then show ?thesis by (simp add: Suc_le_eq)
  qed
  have b: "user_join P s sid payload now
                = Some (s, [Ack (AckError (str ''Username is required''))])"
    if "joinName payload = []" for sid payload now
    using that by (rule user_join_invalid)
  have c: "\<exists>s' out u'. user_join P s sid payload now = Some (s', out)
                  \<and> last out = Ack (AckJoined (str ''general''))
                  \<and> map_of (users s') sid = Some u' \<and> u_username u' = joinName payload"
    if "joinName payload \<noteq> []" "map_of (usernameToSocketId s) (joinName payload) = None"
    for sid payload now
  proof -
    from user_join_ok[OF that wf, of P sid now]
    obtain s' out where "user_join P s sid payload now = Some (s', out)"
      and "users s' = AList.update sid
           \<lparr>u_id = sid, u_username = joinName payload, u_status = str ''online'',
            u_activeRoom = str ''general'', u_rooms = [str ''general''], u_lastSeen = now\<rparr> (users s)"
      and "last out = Ack (AckJoined (str ''general''))"
      by blast
    then show ?thesis by (simp add: update_conv')
  qed
  show ?thesis using a b c by blast
qed

lemma joinName_spaces: "joinName (JoinString (str ''   '')) = []"
  by (simp add: joinName_def Let_def truthy_simps orDefault_simps str_Nil_iff)
     (simp add: trim_def str_def isWhiteSpace_def)

lemma joinName_long: "joinName (JoinString (replicate 25 0x61)) = replicate 25 0x61"
proof (rule joinName_trimmed)
  show "replicate 25 (0x61 :: jschar) \<noteq> []" by simp
  show "trim (replicate 25 (0x61 :: jschar)) = replicate 25 0x61"
    by (rule trim_id) (simp_all add: isWhiteSpace_def hd_replicate last_replicate)
qed

theorem live_usernames_nonempty_witness:
  "reachable demoPlatform demoState
   \<and> map_of (users demoState) (str ''s1'') =
       Some \<lparr>u_id = str ''s1'', u_username = str ''ada'', u_status = str ''online'',
             u_activeRoom = str ''general'', u_rooms = [str ''general''], u_lastSeen = str ''t1''\<rparr>
   \<and> 1 \<le> length (str ''ada'') \<and> trim (str ''ada'') = str ''ada''
   \<and> joinName (JoinString (str ''   '')) = []
   \<and> user_join demoPlatform demoState (str ''s3'') (JoinString (str ''   '')) (str ''t3'')
       = Some (demoState, [Ack (AckError (str ''Username is required''))])
   \<and> joinName (JoinString (replicate 25 0x61)) \<noteq> []
   \<and> map_of (usernameToSocketId demoState) (joinName (JoinString (replicate 25 0x61))) = None
   \<and> map_option (last \<circ> snd)
        (user_join demoPlatform demoState (str ''s3'') (JoinString (replicate 25 0x61)) (str ''t3''))
       = Some (Ack (AckJoined (str ''general'')))"
proof -
  note t = live_usernames_nonempty[OF demoState_reachable]
  let ?u = "\<lparr>u_id = str ''s1'', u_username = str ''ada'', u_status = str ''online'',
             u_activeRoom = str ''general'', u_rooms = [str ''general''], u_lastSeen = str ''t1''\<rparr>"
  have u: "map_of (users demoState) (str ''s1'') = Some ?u" by (rule demoState_users(1))
  from t u have a: "1 \<le> length (u_username ?u) \<and> trim (u_username ?u) = u_username ?u" by blast
  from t joinName_spaces
  have b: "user_join demoPlatform demoState (str ''s3'') (JoinString (str ''   '')) (str ''t3'')
       = Some (demoState, [Ack (AckError (str ''Username is required''))])" by blast
  have n: "joinName (JoinString (replicate 25 0x61)) \<noteq> []" by (simp add: joinName_long)
  have "length (replicate 25 (0x61 :: jschar)) \<noteq> length (str ''ada'')"
    "length (replicate 25 (0x61 :: jschar)) \<noteq> length (str ''grace'')"
    by (simp_all add: str_def)
  then have "replicate 25 (0x61 :: jschar) \<noteq> str ''ada''" "replicate 25 (0x61 :: jschar) \<noteq> str ''grace''"
    by fastforce+
  then have f: "map_of (usernameToSocketId demoState) (joinName (JoinString (replicate 25 0x61))) = None"
    by (simp add: joinName_long demoState_def)
  from t n f obtain s' out where
    "user_join demoPlatform demoState (str ''s3'') (JoinString (replicate 25 0x61)) (str ''t3'')
       = Some (s', out)" "last out = Ack (AckJoined (str ''general''))" by blast
  then have c: "map_option (last \<circ> snd)
        (user_join demoPlatform demoState (str ''s3'') (JoinString (replicate 25 0x61)) (str ''t3''))
       = Some (Ack (AckJoined (str ''general'')))" by simp
  show ?thesis using demoState_reachable u a b n f c joinName_spaces by simp
qed

text \<open>
  Claim C8 as stated fails: on the freshly started server a \<open>user_join\<close> with a username
  of 25 characters is acknowledged, and the live user holds the 25 characters.
\<close>

theorem username_longer_than_24:
  "map_option (\<lambda>(s', out). (map_option (\<lambda>u. length (u_username u)) (map_of (users s') (str ''s1'')),
                              last out))
     (user_join demoPlatform (initialState demoPlatform (str ''t0'')) (str ''s1'')
        (JoinString (replicate 25 0x61)) (str ''t1''))
   = Some (Some 25, Ack (AckJoined (str ''general'')))"
proof -
  let ?s0 = "initialState demoPlatform (str ''t0'')"
  have n: "joinName (JoinString (replicate 25 0x61)) \<noteq> []" by (simp add: joinName_long)
  have f: "map_of (usernameToSocketId ?s0) (joinName (JoinString (replicate 25 0x61))) = None"
    by (simp add: initialState_fields)
  from user_join_ok[OF n f initialState_inv(2), of demoPlatform "str ''s1''" "str ''t1''"]
  obtain s' out where "user_join demoPlatform ?s0 (str ''s1'')
        (JoinString (replicate 25 0x61)) (str ''t1'') = Some (s', out)"
    and "users s' = AList.update (str ''s1'')
           \<lparr>u_id = str ''s1'', u_username = joinName (JoinString (replicate 25 0x61)),
            u_status = str ''online'', u_activeRoom = str ''general'',
            u_rooms = [str ''general''], u_lastSeen = str ''t1''\<rparr> (users ?s0)"
    and "last out = Ack (AckJoined (str ''general''))"
    by blast
  then show ?thesis by (simp add: update_conv' joinName_long)
qed


section \<open>History pages and search\<close>

text \<open>
  Claim C4. For every existing room and every pair of \<open>before\<close> and \<open>limit\<close>, the HTTP
  endpoint answers with a slice, a \<open>hasMore\<close> flag and a \<open>nextCursor\<close>, and the socket
  event \<open>request_room_history\<close> acknowledges the same three values when the connection has
  a user; without a user it acknowledges "Room not found".
\<close>

theorem history_http_socket:
  assumes "map_of (rooms s) rid = Some room"
  shows "\<exists>slice hasMore nextCursor.
           get_room_messages s rid before limit = MessagesJson rid slice hasMore nextCursor
         \<and> request_room_history s sid (Some rid) before limit
             = (if map_of (users s) sid = None then [Ack (AckError (str ''Room not found''))]
                else [Ack (AckHistory (Some rid) slice nextCursor hasMore)])"
proof (cases "map_of (users s) sid")
  case None
  with assms show ?thesis
    by (simp add: get_room_messages_def request_room_history_def getRoom_def Let_def)
next
  case (Some user)
  with assms show ?thesis
    by (simp add: get_room_messages_def request_room_history_def getRoom_def Let_def)
qed

lemma demoState_general:
  "map_of (rooms demoState) (str ''general'') =
     Some \<lparr>r_id = str ''general'', r_name = str ''General'',
           r_description = str ''Welcome to the main lobby. Say hi '' @ [0xD83D, 0xDC4B],
           r_createdAt = str ''t0'', r_createdBy = str ''system'', r_messages = [0, 1],
           r_members = {str ''s1'', str ''s2''}, r_typing = {}\<rparr>"
  by (simp add: demoState_def)

lemma demoState_random:
  "map_of (rooms demoState) (str ''random'') =
     Some \<lparr>r_id = str ''random'', r_name = str ''Random'',
           r_description = str ''Anything goes. Share memes, links, and fun stuff.'',
           r_createdAt = str ''t0'', r_createdBy = str ''system'', r_messages = [],
           r_members = {}, r_typing = {}\<rparr>"
  by (simp add: demoState_def str_eq_iff)

lemma demoState_heap:
  "heap demoState 0 = buildMessage [0x30] (str ''t1'') (str ''general'') (str ''system'', str ''System'')
                (str ''ada joined the chat'') [] True False None"
  "heap demoState (Suc 0) = buildMessage [0x31] (str ''t2'') (str ''general'') (str ''system'', str ''System'')
                (str ''grace joined the chat'') [] True False None"
  by (simp_all add: demoState_def)

theorem history_http_socket_witness:
  "map_of (rooms demoState) (str ''general'') \<noteq> None
   \<and> get_room_messages demoState (str ''general'') None (Some 1)
       = MessagesJson (str ''general'') [serializeMessage (heap demoState 1)] True (Some [0x30])
   \<and> request_room_history demoState (str ''s1'') (Some (str ''general'')) None (Some 1)
       = [Ack (AckHistory (Some (str ''general'')) [serializeMessage (heap demoState 1)]
                 (Some [0x30]) True)]"
proof -
  have h: "get_room_messages demoState (str ''general'') None (Some 1)
       = MessagesJson (str ''general'') [serializeMessage (heap demoState 1)] True (Some [0x30])"
    by (simp add: get_room_messages_def demoState_general Let_def numberOr30_def truthy_simps
          jsSlice_def relIndex_def jsNth_def demoState_heap buildMessage_def)
  from history_http_socket[OF demoState_general, of None "Some 1" "str ''s1''"] h demoState_users(1)
  have "request_room_history demoState (str ''s1'') (Some (str ''general'')) None (Some 1)
       = [Ack (AckHistory (Some (str ''general'')) [serializeMessage (heap demoState 1)]
                 (Some [0x30]) True)]"
    by auto
  with h demoState_general show ?thesis by simp
qed


lemma in_take_drop:
  "x \<in> set (take a (drop b xs)) \<Longrightarrow> \<exists>k. b \<le> k \<and> k < b + a \<and> k < length xs \<and> x = xs ! k"
proof -
  assume "x \<in> set (take a (drop b xs))"
  then obtain j where j: "j < length (take a (drop b xs))" and x: "x = take a (drop b xs) ! j"
    by (auto simp: in_set_conv_nth)
  then have "j < a" "b + j < length xs" "b \<le> length xs" by auto
  moreover from this j x have "x = xs ! (b + j)" by (simp add: nth_drop)
  ultimately show ?thesis by (intro exI[of _ "b + j"]) auto
qed

text \<open>
  Claim C3. A history request that ends at index \<open>i\<close> of the log (the end of the log when
  no cursor is given, the position of the cursor message otherwise) and has older messages
  beyond its limit returns the \<open>limit\<close> messages just before \<open>i\<close>, \<open>hasMore = true\<close> and
  as \<open>nextCursor\<close> the id of the message just before the slice. The request that follows
  \<open>nextCursor\<close> returns messages strictly before that message: the cursor message itself
  is in neither page, so following \<open>nextCursor\<close> does not reconstruct the log.
\<close>

theorem room_history_skips_cursor:
  assumes user: "map_of (users s) sid = Some user"
    and room: "map_of (rooms s) rid = Some room"
    and dist: "distinct (map (\<lambda>a. m_id (heap s a)) (r_messages room))"
    and nonempty: "\<forall>a \<in> set (r_messages room). m_id (heap s a) \<noteq> []"
    and lim: "1 \<le> min (numberOr30 limit) 100"
    and i: "i \<le> length (r_messages room)"
    and more: "effectiveLimit limit < i"
    and cursor: "cursor = (if i = length (r_messages room) then None
                           else Some (m_id (heap s (r_messages room ! i))))"
  shows "request_room_history s sid (Some rid) cursor limit =
           [Ack (AckHistory (Some rid)
              (map (\<lambda>a. serializeMessage (heap s a))
                 (take (effectiveLimit limit) (drop (i - effectiveLimit limit) (r_messages room))))
              (Some (m_id (heap s (r_messages room ! (i - effectiveLimit limit - 1)))))
              True)]
       \<and> request_room_history s sid (Some rid)
            (Some (m_id (heap s (r_messages room ! (i - effectiveLimit limit - 1))))) limit =
           [Ack (AckHistory (Some rid)
              (map (\<lambda>a. serializeMessage (heap s a))
                 (take (min (effectiveLimit limit) (i - effectiveLimit limit - 1))
                    (drop (i - effectiveLimit limit - 1 - effectiveLimit limit) (r_messages room))))
              (if effectiveLimit limit < i - effectiveLimit limit - 1
               then Some (m_id (heap s (r_messages room
                            ! (i - effectiveLimit limit - 1 - effectiveLimit limit - 1))))
               else None)
              (effectiveLimit limit < i - effectiveLimit limit - 1))]
       \<and> serializeMessage (heap s (r_messages room ! (i - effectiveLimit limit - 1)))
           \<notin> set (map (\<lambda>a. serializeMessage (heap s a))
                      (take (min (effectiveLimit limit) (i - effectiveLimit limit - 1))
                         (drop (i - effectiveLimit limit - 1 - effectiveLimit limit) (r_messages room)))
                    @ map (\<lambda>a. serializeMessage (heap s a))
                        (take (effectiveLimit limit) (drop (i - effectiveLimit limit) (r_messages room))))"
proof -
  let ?log = "r_messages room"
  define L where "L = effectiveLimit limit"
  define j where "j = i - L - 1"
  have Li: "L < i" using more by (simp add: L_def)
  have jn: "j < length ?log" using i Li by (simp add: j_def)
  have p1: "request_room_history s sid (Some rid) cursor limit =
           [Ack (AckHistory (Some rid)
              (map (\<lambda>a. serializeMessage (heap s a)) (take L (drop (i - L) ?log)))
              (Some (m_id (heap s (?log ! j)))) True)]"
    using history_page[OF user room dist nonempty lim i cursor, folded effectiveLimit_def] Li
    by (simp add: L_def[symmetric] j_def)
  have c2: "Some (m_id (heap s (?log ! j)))
            = (if j = length ?log then None else Some (m_id (heap s (?log ! j))))"
    using jn by simp
  have p2: "request_room_history s sid (Some rid) (Some (m_id (heap s (?log ! j)))) limit =
           [Ack (AckHistory (Some rid)
              (map (\<lambda>a. serializeMessage (heap s a)) (take (min L j) (drop (j - L) ?log)))
              (if L < j then Some (m_id (heap s (?log ! (j - L - 1)))) else None)
              (L < j))]"
    using history_page[OF user room dist nonempty lim less_imp_le[OF jn] c2,
        folded effectiveLimit_def]
    by (simp add: L_def[symmetric])
  have skip: "serializeMessage (heap s (?log ! j))
           \<notin> set (map (\<lambda>a. serializeMessage (heap s a)) (take (min L j) (drop (j - L) ?log))
                    @ map (\<lambda>a. serializeMessage (heap s a)) (take L (drop (i - L) ?log)))"
  proof
    assume "serializeMessage (heap s (?log ! j))
           \<in> set (map (\<lambda>a. serializeMessage (heap s a)) (take (min L j) (drop (j - L) ?log))
                    @ map (\<lambda>a. serializeMessage (heap s a)) (take L (drop (i - L) ?log)))"
    then obtain a where a: "a \<in> set (take (min L j) (drop (j - L) ?log))
                              \<union> set (take L (drop (i - L) ?log))"
      and eq: "serializeMessage (heap s (?log ! j)) = serializeMessage (heap s a)"
      by auto
    from a obtain k where k: "k < length ?log" "a = ?log ! k" "k \<noteq> j"
    proof
      assume "a \<in> set (take (min L j) (drop (j - L) ?log))"
      from in_take_drop[OF this] obtain k where
        "j - L \<le> k" "k < j - L + min L j" "k < length ?log" "a = ?log ! k" by blast
      then show ?thesis using that[of k] by auto
    next
      assume "a \<in> set (take L (drop (i - L) ?log))"
      from in_take_drop[OF this] obtain k where
        "i - L \<le> k" "k < length ?log" "a = ?log ! k" by blast
      then show ?thesis using that[of k] Li by (auto simp: j_def)
    qed
    from eq have "m_id (heap s (?log ! j)) = m_id (heap s a)"
      by (auto simp: serializeMessage_def dest: arg_cong[where f = sm_id])
    with k have "map (\<lambda>a. m_id (heap s a)) ?log ! j = map (\<lambda>a. m_id (heap s a)) ?log ! k"
      using jn by simp
    with dist jn k show False by (simp add: distinct_conv_nth)
  qed
  show ?thesis
    using p1 p2 skip unfolding L_def[symmetric] by (simp add: j_def)
qed


theorem room_history_skips_cursor_witness:
  "map_of (users demoState) (str ''s1'') \<noteq> None
   \<and> map_of (rooms demoState) (str ''general'') \<noteq> None
   \<and> distinct (map (\<lambda>a. m_id (heap demoState a)) [0, 1])
   \<and> m_id (heap demoState 0) \<noteq> [] \<and> m_id (heap demoState 1) \<noteq> []
   \<and> 1 \<le> min (numberOr30 (Some 1)) 100
   \<and> effectiveLimit (Some 1) < 2
   \<and> request_room_history demoState (str ''s1'') (Some (str ''general'')) None (Some 1)
       = [Ack (AckHistory (Some (str ''general'')) [serializeMessage (heap demoState 1)]
                 (Some [0x30]) True)]
   \<and> request_room_history demoState (str ''s1'') (Some (str ''general'')) (Some [0x30]) (Some 1)
       = [Ack (AckHistory (Some (str ''general'')) [] None False)]
   \<and> serializeMessage (heap demoState 0) \<notin> set [serializeMessage (heap demoState 1)]"
proof -
  let ?room = "\<lparr>r_id = str ''general'', r_name = str ''General'',
           r_description = str ''Welcome to the main lobby. Say hi '' @ [0xD83D, 0xDC4B],
           r_createdAt = str ''t0'', r_createdBy = str ''system'', r_messages = [0, 1],
           r_members = {str ''s1'', str ''s2''}, r_typing = {}\<rparr>"
  have ids: "m_id (heap demoState 0) = [0x30]" "m_id (heap demoState (Suc 0)) = [0x31]"
    by (simp_all add: demoState_heap buildMessage_def)
  have dist: "distinct (map (\<lambda>a. m_id (heap demoState a)) (r_messages ?room))"
    by (simp add: ids)
  have nonempty: "\<forall>a \<in> set (r_messages ?room). m_id (heap demoState a) \<noteq> []"
    by (simp add: ids)
  have lim: "1 \<le> min (numberOr30 (Some 1)) 100" by (simp add: numberOr30_def)
  have el: "effectiveLimit (Some 1) = 1" by (simp add: effectiveLimit_def numberOr30_def)
  have i: "2 \<le> length (r_messages ?room)" by simp
  have more: "effectiveLimit (Some 1) < 2" by (simp add: el)
  have cursor: "None = (if 2 = length (r_messages ?room) then None
                        else Some (m_id (heap demoState (r_messages ?room ! 2))))" by simp
  from room_history_skips_cursor[OF demoState_users(1) demoState_general dist nonempty lim i more cursor]
  show ?thesis
    by (simp add: el ids demoState_users(1) demoState_general numberOr30_def)
qed

lemma foldl_push_filter:
  "foldl (\<lambda>acc a. if p a then acc @ [f a] else acc) acc xs = acc @ map f (filter p xs)"
  by (induction xs arbitrary: acc) simp_all

lemma searchRoom_eq:
  "searchRoom P s term results room
   = results @ (case room of None \<Rightarrow> [] | Some r \<Rightarrow> matching P s term r)"
  by (cases room) (simp_all add: searchRoom_def matching_def foldl_push_filter)

lemma foldl_searchRoom:
  "foldl (searchRoom P s term) results targetRooms
   = results @ concat (map (\<lambda>room. case room of None \<Rightarrow> [] | Some r \<Rightarrow> matching P s term r)
                         targetRooms)"
  by (induction targetRooms arbitrary: results) (simp_all add: searchRoom_eq)

lemma jsSliceFrom_last: "0 < k \<Longrightarrow> jsSliceFrom xs (- int k) = drop (length xs - k) xs"
  by (auto simp: jsSliceFrom_def jsSlice_def relIndex_def Let_def max_def nat_diff_distrib'
        split: if_splits)

text \<open>
  The endpoint in closed form: nothing for an absent or empty query; otherwise the last 100
  entries of the list that the two nested \<open>forEach\<close> calls build.
\<close>

lemma get_search_eq:
  "get_search P s roomId q =
     (if \<not> truthy q then []
      else (let hits = (if truthy roomId
                        then (case map_of (rooms s) (orDefault roomId []) of
                                None \<Rightarrow> []
                              | Some room \<Rightarrow> matching P s (toLowerCase P (orDefault q [])) room)
                        else concat (map (\<lambda>(k, room). matching P s (toLowerCase P (orDefault q [])) room)
                                       (rooms s)))
            in drop (length hits - 100) hits))"
proof -
  have sl: "jsSliceFrom xs (- 100) = drop (length xs - 100) xs" for xs :: "search_hit list"
    using jsSliceFrom_last[where xs = xs and k = 100] by simp
  have cc: "(case_option [] (matching P s tm) \<circ> (\<lambda>(k, y). Some y))
            = (\<lambda>(k, y). matching P s tm y)" for tm
    by (auto simp: fun_eq_iff)
  show ?thesis
    by (simp add: get_search_def Let_def foldl_searchRoom sl cc split: option.splits)
qed

lemma sublist_map_of_inj:
  assumes "inj f"
  shows "sublist (map f xs) (map f ys) = sublist xs ys"
proof
  assume "sublist (map f xs) (map f ys)"
  then obtain ps ss where "map f ys = ps @ (map f xs @ ss)" by (auto simp: sublist_def)
  then obtain us vs where u: "ys = us @ vs" "map f xs @ ss = map f vs"
    by (auto simp: map_eq_append_conv)
  from u(2) obtain us' vs' where v: "vs = us' @ vs'" "map f xs = map f us'"
    by (auto simp: append_eq_map_conv)
  from v(2) assms have "xs = us'" by (simp add: inj_map_eq_map)
  with u(1) v(1) show "sublist xs ys" by (auto simp: sublist_def)
next
  assume "sublist xs ys"
  then obtain ps ss where "ys = ps @ xs @ ss" by (auto simp: sublist_def)
  then have "map f ys = map f ps @ map f xs @ map f ss" by simp
  then show "sublist (map f xs) (map f ys)" by (simp only: sublist_appendI)
qed

lemma includesStr_str: "includesStr (str a) (str b) = sublist b a"
  unfolding includesStr_def str_def
  by (rule sublist_map_of_inj) (auto simp: inj_def of_char_word_eq_iff)

lemma demo_matching:
  "matching demoPlatform demoState (str ''ada'')
     \<lparr>r_id = str ''general'', r_name = str ''General'',
           r_description = str ''Welcome to the main lobby. Say hi '' @ [0xD83D, 0xDC4B],
           r_createdAt = str ''t0'', r_createdBy = str ''system'', r_messages = [0, 1],
           r_members = {str ''s1'', str ''s2''}, r_typing = {}\<rparr>
   = [(str ''general'', str ''General'', serializeMessage (heap demoState 0))]"
  by (simp add: matching_def demoState_heap buildMessage_def demoPlatform_def includesStr_str
        sublist_Cons_right)

lemma demo_allHits:
  "allHits demoPlatform demoState (str ''ada'')
   = [(str ''general'', str ''General'', serializeMessage (heap demoState 0))]"
  by (simp add: allHits_def demoState_def matching_def buildMessage_def demoPlatform_def includesStr_str
        sublist_Cons_right)

text \<open>
  Claim C9, as amended. An absent or empty query returns nothing. For a query that is not
  empty, the hits are the messages whose lower-cased body contains the lower-cased query.
  With a room filter the endpoint returns the hits of that room only (nothing when there is
  no such room): the last 100 of them in log order, that is the 100 most recent, the log
  being in arrival order. Without a filter it returns a selection of the hits of all rooms
  (a subsequence of their list), never more than 100 and 100 when there are that many;
  when at most 100 messages match it returns all of them.
\<close>

theorem search_result:
  "get_search P s roomId None = [] \<and> get_search P s roomId (Some []) = []
   \<and> (q \<noteq> [] \<longrightarrow>
        (rid \<noteq> [] \<and> map_of (rooms s) rid = None \<longrightarrow>
           get_search P s (Some rid) (Some q) = [])
      \<and> (rid \<noteq> [] \<and> map_of (rooms s) rid = Some room \<longrightarrow>
           get_search P s (Some rid) (Some q)
           = drop (length (matching P s (toLowerCase P q) room) - 100)
               (matching P s (toLowerCase P q) room))
      \<and> (unfiltered = None \<or> unfiltered = Some [] \<longrightarrow>
           subseq (get_search P s unfiltered (Some q)) (allHits P s (toLowerCase P q))
         \<and> length (get_search P s unfiltered (Some q))
             = min 100 (length (allHits P s (toLowerCase P q)))
         \<and> (length (allHits P s (toLowerCase P q)) \<le> 100 \<longrightarrow>
              get_search P s unfiltered (Some q) = allHits P s (toLowerCase P q))))"
proof -
  have sub: "subseq (drop n xs) xs" for n and xs :: "search_hit list"
    using suffix_drop suffix_imp_subseq by blast
  show ?thesis
    by (auto simp: get_search_eq truthy_simps orDefault_simps Let_def allHits_def sub)
qed

text \<open>
  In the example run, the query \<open>ada\<close> finds the first message of the room \<open>general\<close> and
  not the second, with the filter \<open>general\<close> and without a filter, and nothing in a room
  that does not exist.
\<close>

theorem search_result_witness:
  "str ''ada'' \<noteq> [] \<and> str ''lobby'' \<noteq> [] \<and> str ''general'' \<noteq> []
   \<and> map_of (rooms demoState) (str ''lobby'') = None
   \<and> get_search demoPlatform demoState (Some (str ''lobby'')) (Some (str ''ada'')) = []
   \<and> get_search demoPlatform demoState (Some (str ''general'')) (Some (str ''ada''))
       = [(str ''general'', str ''General'', serializeMessage (heap demoState 0))]
   \<and> get_search demoPlatform demoState None (Some (str ''ada''))
       = [(str ''general'', str ''General'', serializeMessage (heap demoState 0))]"
proof -
  have ne: "str ''ada'' \<noteq> []" "str ''lobby'' \<noteq> []" "str ''general'' \<noteq> []"
    by (simp_all add: str_Nil_iff)
  have lobby: "map_of (rooms demoState) (str ''lobby'') = None"
    by (simp add: demoState_def str_eq_iff)
  have lc: "toLowerCase demoPlatform x = x" for x by (simp add: demoPlatform_def)
  note t = search_result[where P = demoPlatform and s = demoState and q = "str ''ada''"]
  from t ne lobby
  have a: "get_search demoPlatform demoState (Some (str ''lobby'')) (Some (str ''ada'')) = []"
    by blast
  from t ne demoState_general
  have "get_search demoPlatform demoState (Some (str ''general'')) (Some (str ''ada''))
       = drop (length (matching demoPlatform demoState (toLowerCase demoPlatform (str ''ada''))
                         \<lparr>r_id = str ''general'', r_name = str ''General'',
           r_description = str ''Welcome to the main lobby. Say hi '' @ [0xD83D, 0xDC4B],
           r_createdAt = str ''t0'', r_createdBy = str ''system'', r_messages = [0, 1],
           r_members = {str ''s1'', str ''s2''}, r_typing = {}\<rparr>) - 100)
           (matching demoPlatform demoState (toLowerCase demoPlatform (str ''ada''))
                         \<lparr>r_id = str ''general'', r_name = str ''General'',
           r_description = str ''Welcome to the main lobby. Say hi '' @ [0xD83D, 0xDC4B],
           r_createdAt = str ''t0'', r_createdBy = str ''system'', r_messages = [0, 1],
           r_members = {str ''s1'', str ''s2''}, r_typing = {}\<rparr>)"
    by blast
  then have b: "get_search demoPlatform demoState (Some (str ''general'')) (Some (str ''ada''))
       = [(str ''general'', str ''General'', serializeMessage (heap demoState 0))]"
    unfolding lc demo_matching by simp
  have "length (allHits demoPlatform demoState (toLowerCase demoPlatform (str ''ada''))) \<le> 100"
    by (simp add: lc demo_allHits)
  with t ne
  have "get_search demoPlatform demoState None (Some (str ''ada''))
        = allHits demoPlatform demoState (toLowerCase demoPlatform (str ''ada''))"
    by blast
  then have c: "get_search demoPlatform demoState None (Some (str ''ada''))
       = [(str ''general'', str ''General'', serializeMessage (heap demoState 0))]"
    unfolding lc demo_allHits by simp
  show ?thesis using ne lobby a b c by simp
qed

text \<open>
  Claim C9 as stated fails for the empty query: the first message of the room
  \<open>general\<close> contains it, and the endpoint returns nothing.
\<close>

theorem search_empty_query:
  "get_search demoPlatform demoState None (Some []) = []
   \<and> includesStr (toLowerCase demoPlatform (m_body (heap demoState 0))) (toLowerCase demoPlatform [])
   \<and> map_option (\<lambda>room. 0 \<in> set (r_messages room)) (map_of (rooms demoState) (str ''general''))
       = Some True"
  by (simp add: get_search_def truthy_simps includesStr_def demoState_general demoPlatform_def)


section \<open>Leaving a room and private messages\<close>

lemma leave_room_fails:
  "map_of (users s) sid = None \<or> getRoom s roomId = None \<Longrightarrow>
   leave_room P s sid roomId now = (s, [Ack (AckError (str ''Unable to leave room''))])"
  by (auto simp: leave_room_def split: option.splits)

lemma leave_room_succeeds:
  assumes user: "map_of (users s) sid = Some user"
    and room: "map_of (rooms s) rid = Some room"
    and rid: "r_id room = rid"
  shows "\<exists>s'. leave_room P s sid (Some rid) now =
           (s', [SocketLeave sid rid,
                 IoTo rid (ReceiveMessage (serializeMessage (heap s' (nextRef s))))]
                @ (if u_activeRoom user = rid
                   then [SocketEmit sid (ActiveRoomChanged (str ''general''))] else [])
                @ [SocketTo sid rid (RoomUserLeft rid (u_id user) (u_username user))]
                @ emitRoomList s' @ [Ack AckOk])
         \<and> heap s' = (heap s)(nextRef s :=
               buildMessage (uuidv4 P (uuidCalls s)) now rid (str ''system'', str ''System'')
                 (u_username user @ str '' left '' @ r_name room) [] True False None)
         \<and> rooms s' = AList.update rid
               (room\<lparr>r_members := r_members room - {sid},
                     r_messages := trimMessages (r_messages room @ [nextRef s]) MAX_ROOM_MESSAGES\<rparr>)
               (rooms s)
         \<and> users s' = AList.update sid
               (user\<lparr>u_rooms := setDelete rid (u_rooms user),
                     u_activeRoom := (if u_activeRoom user = rid then str ''general''
                                      else u_activeRoom user)\<rparr>)
               (users s)"
  using assms
  by (auto simp: leave_room_def getRoom_def Let_def orDefault_simps update_conv'
        addSystemMessage_def newMessage_def addMessageToRoom_def emitRoomList_def)


text \<open>
  Claim C10. In every reachable state, for every connection with a user and every existing
  room, \<open>leave_room\<close> succeeds whether or not the user is a member: it acknowledges
  \<open>ok\<close>, appends the system message "<username> left <room.name>" to the room's log and
  sends it to the room, sends \<open>room_user_left\<close> to the others in the room and the room list
  to everyone. It acknowledges "Unable to leave room", without changing the state, exactly
  when the connection has no user or the room id names no room.
\<close>

theorem leave_room_without_membership:
  assumes reach: "reachable P s"
    and user: "map_of (users s) sid = Some user"
    and room: "map_of (rooms s) rid = Some room"
  shows "(\<exists>s'. leave_room P s sid (Some rid) now =
           (s', [SocketLeave sid rid,
                 IoTo rid (ReceiveMessage (serializeMessage (heap s' (nextRef s))))]
                @ (if u_activeRoom user = rid
                   then [SocketEmit sid (ActiveRoomChanged (str ''general''))] else [])
                @ [SocketTo sid rid (RoomUserLeft rid (u_id user) (u_username user))]
                @ emitRoomList s' @ [Ack AckOk])
         \<and> heap s' (nextRef s) =
               buildMessage (uuidv4 P (uuidCalls s)) now rid (str ''system'', str ''System'')
                 (u_username user @ str '' left '' @ r_name room) [] True False None
         \<and> map_of (rooms s') rid =
               Some (room\<lparr>r_members := r_members room - {sid},
                     r_messages := trimMessages (r_messages room @ [nextRef s]) MAX_ROOM_MESSAGES\<rparr>)
         \<and> map_of (users s') sid =
               Some (user\<lparr>u_rooms := setDelete rid (u_rooms user),
                     u_activeRoom := (if u_activeRoom user = rid then str ''general''
                                      else u_activeRoom user)\<rparr>))
       \<and> (\<forall>sid' roomId now'.
             (Ack (AckError (str ''Unable to leave room'')) \<in> set (snd (leave_room P s sid' roomId now')))
             = (map_of (users s) sid' = None \<or> getRoom s roomId = None))
       \<and> (\<forall>sid' roomId now'. map_of (users s) sid' = None \<or> getRoom s roomId = None
             \<longrightarrow> leave_room P s sid' roomId now'
                 = (s, [Ack (AckError (str ''Unable to leave room''))]))"
proof -
  from reachable_inv[OF reach] have wf: "roomsWf s" by simp
  have rid: "r_id room' = rid'" if "map_of (rooms s) rid' = Some room'" for rid' room'
    using wf that by (simp add: roomsWf_def)
  from leave_room_succeeds[OF user room rid[OF room], of P now]
  obtain s' where l: "leave_room P s sid (Some rid) now =
           (s', [SocketLeave sid rid,
                 IoTo rid (ReceiveMessage (serializeMessage (heap s' (nextRef s))))]
                @ (if u_activeRoom user = rid
                   then [SocketEmit sid (ActiveRoomChanged (str ''general''))] else [])
                @ [SocketTo sid rid (RoomUserLeft rid (u_id user) (u_username user))]
                @ emitRoomList s' @ [Ack AckOk])"
    and h: "heap s' = (heap s)(nextRef s :=
               buildMessage (uuidv4 P (uuidCalls s)) now rid (str ''system'', str ''System'')
                 (u_username user @ str '' left '' @ r_name room) [] True False None)"
    and r: "rooms s' = AList.update rid
               (room\<lparr>r_members := r_members room - {sid},
                     r_messages := trimMessages (r_messages room @ [nextRef s]) MAX_ROOM_MESSAGES\<rparr>)
               (rooms s)"
    and u: "users s' = AList.update sid
               (user\<lparr>u_rooms := setDelete rid (u_rooms user),
                     u_activeRoom := (if u_activeRoom user = rid then str ''general''
                                      else u_activeRoom user)\<rparr>)
               (users s)"
    by blast
  have first: "\<exists>s'. leave_room P s sid (Some rid) now =
           (s', [SocketLeave sid rid,
                 IoTo rid (ReceiveMessage (serializeMessage (heap s' (nextRef s))))]
                @ (if u_activeRoom user = rid
                   then [SocketEmit sid (ActiveRoomChanged (str ''general''))] else [])
                @ [SocketTo sid rid (RoomUserLeft rid (u_id user) (u_username user))]
                @ emitRoomList s' @ [Ack AckOk])
         \<and> heap s' (nextRef s) =
               buildMessage (uuidv4 P (uuidCalls s)) now rid (str ''system'', str ''System'')
                 (u_username user @ str '' left '' @ r_name room) [] True False None
         \<and> map_of (rooms s') rid =
               Some (room\<lparr>r_members := r_members room - {sid},
                     r_messages := trimMessages (r_messages room @ [nextRef s]) MAX_ROOM_MESSAGES\<rparr>)
         \<and> map_of (users s') sid =
               Some (user\<lparr>u_rooms := setDelete rid (u_rooms user),
                     u_activeRoom := (if u_activeRoom user = rid then str ''general''
                                      else u_activeRoom user)\<rparr>)"
    by (rule exI[of _ s']) (simp add: l h r u update_conv')
  have fails: "leave_room P s sid' roomId now' = (s, [Ack (AckError (str ''Unable to leave room''))])"
    if "map_of (users s) sid' = None \<or> getRoom s roomId = None" for sid' roomId now'
    using that by (rule leave_room_fails)
  have iff: "(Ack (AckError (str ''Unable to leave room'')) \<in> set (snd (leave_room P s sid' roomId now')))
             = (map_of (users s) sid' = None \<or> getRoom s roomId = None)" for sid' roomId now'
  proof (cases "map_of (users s) sid' = None \<or> getRoom s roomId = None")
    case True
    then show ?thesis by (simp add: leave_room_fails)
  next
    case False
    then obtain user' room' rid' where u': "map_of (users s) sid' = Some user'"
      and rr: "roomId = Some rid'" "map_of (rooms s) rid' = Some room'"
      by (auto simp: getRoom_def split: option.splits)
    from leave_room_succeeds[OF u' rr(2) rid[OF rr(2)], of P now'] rr(1) False
    show ?thesis by (auto simp: emitRoomList_def)
  qed
  show ?thesis using first fails iff by blast
qed

theorem leave_room_without_membership_witness:
  "reachable demoPlatform demoState
   \<and> map_of (users demoState) (str ''s1'') \<noteq> None
   \<and> map_of (rooms demoState) (str ''random'') \<noteq> None
   \<and> map_option (\<lambda>room. str ''s1'' \<in> r_members room) (map_of (rooms demoState) (str ''random''))
       = Some False
   \<and> map_option (\<lambda>user. str ''random'' \<in> set (u_rooms user)) (map_of (users demoState) (str ''s1''))
       = Some False
   \<and> last (snd (leave_room demoPlatform demoState (str ''s1'') (Some (str ''random'')) (str ''t3'')))
       = Ack AckOk
   \<and> m_body (heap (fst (leave_room demoPlatform demoState (str ''s1'') (Some (str ''random''))
                            (str ''t3''))) 2)
       = str ''ada left Random''
   \<and> map_option r_messages
        (map_of (rooms (fst (leave_room demoPlatform demoState (str ''s1'') (Some (str ''random''))
                              (str ''t3''))))
           (str ''random''))
       = Some [2]
   \<and> getRoom demoState (Some (str ''lobby'')) = None
   \<and> leave_room demoPlatform demoState (str ''s1'') (Some (str ''lobby'')) (str ''t3'')
       = (demoState, [Ack (AckError (str ''Unable to leave room''))])"
proof -
  note t = leave_room_without_membership[OF demoState_reachable demoState_users(1) demoState_random,
      of "str ''t3''"]
  from t obtain s' out where l:
    "leave_room demoPlatform demoState (str ''s1'') (Some (str ''random'')) (str ''t3'') = (s', out)"
    and o: "last out = Ack AckOk"
    and h: "m_body (heap s' (nextRef demoState)) = str ''ada'' @ str '' left '' @ str ''Random''"
    and r: "map_option r_messages (map_of (rooms s') (str ''random''))
            = Some (trimMessages ([] @ [nextRef demoState]) MAX_ROOM_MESSAGES)"
    by (auto simp: buildMessage_def)
  have nr: "nextRef demoState = 2" by (simp add: demoState_def)
  have g: "getRoom demoState (Some (str ''lobby'')) = None"
    by (simp add: getRoom_def demoState_def str_eq_iff)
  with t have f: "leave_room demoPlatform demoState (str ''s1'') (Some (str ''lobby'')) (str ''t3'')
       = (demoState, [Ack (AckError (str ''Unable to leave room''))])" by blast
  show ?thesis
    using demoState_reachable l o h r g f
    by (simp add: demoState_users(1) demoState_random nr str_append[symmetric] str_eq_iff
          trimMessages_def MAX_ROOM_MESSAGES_def)
qed


lemma connectedRecipient_code:
  "(if truthy (map_of (usernameToSocketId s) n)
    then map_of (users s) (orDefault (map_of (usernameToSocketId s) n) []) else None)
   = map_option snd (connectedRecipient s n)"
  by (auto simp: connectedRecipient_def truthy_def orDefault_def option.map_comp comp_def
        option.map_ident split: option.splits)

lemma private_message_offline:
  assumes "map_of (users s) sid = Some user" and "to \<noteq> []" and "trim body \<noteq> []"
    and "connectedRecipient s to = None"
  shows "private_message P s sid (Some to) (Some body) tempId now
         = (s, [Ack (AckError (str ''Recipient is offline''))])"
  using assms
  by (auto simp: private_message_def Let_def truthy_simps orDefault_simps trim_Nil
        connectedRecipient_code)

lemma private_message_sent:
  assumes user: "map_of (users s) sid = Some user" and to: "to \<noteq> []"
    and body: "trim body \<noteq> []"
    and rcpt: "connectedRecipient s to = Some (rsid, ru)"
  shows "\<exists>s' thread'. private_message P s sid (Some to) (Some body) tempId now =
           (s', [SocketEmit sid
                   (PrivateMessage (serializeThread s' thread' (u_username user))
                      (serializeMessage (heap s' (nextRef s)))),
                 IoTo rsid
                   (PrivateMessage (serializeThread s' thread' (u_username ru))
                      (serializeMessage (heap s' (nextRef s)))),
                 IoTo rsid (PrivateNotification (u_username user) (t_id thread')),
                 Ack (AckPrivate (uuidv4 P (uuidCalls s)) (t_id thread'))])
       \<and> privateThreads s' =
           AList.update (makeThreadKey (localeCompare P) (u_username user) (u_username ru)) thread'
             (privateThreads s)
       \<and> t_messages thread' =
           trimMessages
             ((case map_of (privateThreads s)
                      (makeThreadKey (localeCompare P) (u_username user) (u_username ru)) of
                 None \<Rightarrow> [] | Some t \<Rightarrow> t_messages t) @ [nextRef s])
             MAX_PRIVATE_MESSAGES
       \<and> t_id thread' =
           (case map_of (privateThreads s)
                   (makeThreadKey (localeCompare P) (u_username user) (u_username ru)) of
              None \<Rightarrow> makeThreadKey (localeCompare P) (u_username user) (u_username ru)
            | Some t \<Rightarrow> t_id t)
       \<and> heap s' = (heap s)(nextRef s :=
           (buildMessage (uuidv4 P (uuidCalls s)) now (t_id thread')
              (u_id user, u_username user) (trim body) [] False True tempId)
           \<lparr>m_deliveredTo := Some {u_username user, u_username ru}\<rparr>)
       \<and> users s' = users s \<and> usernameToSocketId s' = usernameToSocketId s
       \<and> rooms s' = rooms s"
proof -
  have body': "body \<noteq> []" using body by (auto simp: trim_Nil)
  have rs: "map_of (usernameToSocketId s) to = Some rsid" "rsid \<noteq> []"
    "map_of (users s) rsid = Some ru"
    using rcpt by (auto simp: connectedRecipient_def split: option.splits if_splits)
  show ?thesis
  proof (cases "map_of (privateThreads s)
                  (makeThreadKey (localeCompare P) (u_username user) (u_username ru))")
    case None
    then show ?thesis
      using user to body body' rs
      by (auto simp: private_message_def Let_def truthy_simps orDefault_simps
            ensurePrivateThread_def newMessage_def addMessageToThread_def
            registerDelivered_def buildMessage_def insert_commute)
  next
    case (Some t)
    then show ?thesis
      using user to body body' rs
      by (auto simp: private_message_def Let_def truthy_simps orDefault_simps
            ensurePrivateThread_def newMessage_def addMessageToThread_def
            registerDelivered_def buildMessage_def insert_commute
            intro!: exI[of _ "addMessageToThread t (nextRef s)"])
  qed
qed


lemma private_message_offline_only:
  assumes "Ack (AckError (str ''Recipient is offline''))
             \<in> set (snd (private_message P s sid to body tempId now))"
  shows "connectedRecipient s (orDefault to []) = None
       \<and> fst (private_message P s sid to body tempId now) = s"
proof (cases "map_of (users s) sid")
  case None
  with assms show ?thesis by (simp add: private_message_def Let_def str_eq_iff)
next
  case (Some user)
  show ?thesis
  proof (cases "truthy to \<and> (if truthy body then trim (orDefault body []) else []) \<noteq> []")
    case False
    with assms Some show ?thesis
      by (auto simp: private_message_def Let_def str_eq_iff split: if_splits)
  next
    case True
    then obtain to' body' where tb: "to = Some to'" "to' \<noteq> []" "body = Some body'"
      "trim body' \<noteq> []"
      by (cases to; cases body) (auto simp: truthy_simps orDefault_simps split: if_splits)
    show ?thesis
    proof (cases "connectedRecipient s to'")
      case None
      with private_message_offline[OF Some tb(2,4) None, of P tempId now] tb
      show ?thesis by (simp add: orDefault_simps)
    next
      case (Some r)
      obtain rsid ru where r: "r = (rsid, ru)" by (cases r)
      from private_message_sent[OF \<open>map_of (users s) sid = Some user\<close> tb(2,4) Some[unfolded r],
          of P tempId now] assms tb
      show ?thesis by auto
    qed
  qed
qed

lemma trim_hi: "trim (str ''hi'') = str ''hi''"
  by (simp add: trim_def str_def isWhiteSpace_def)

lemma trim_eve: "trim (str ''eve'') = str ''eve''"
  by (simp add: trim_def str_def isWhiteSpace_def)

text \<open>
  Claim C7 fails on the code. The handler decides whether the recipient is available by
  looking the addressed name up in \<open>usernameToSocketId\<close> and the connection found in
  \<open>users\<close>. \<open>user_join\<close> does not look whether its connection already has a user: a second
  join replaces the user and leaves the first name bound to the connection, while
  \<open>disconnect\<close> releases the name of the user it removes. So, in any reachable state, after
  a connection with a user \<open>u\<close> has joined again under a free name \<open>v\<close>, no connected user is
  named as \<open>u\<close> was, and yet a private message that another user addresses to that name is
  not answered with "Recipient is offline": it is appended to the thread of the sender and
  \<open>v\<close>, sent to the connection, and marked as delivered to the sender and \<open>v\<close>, not to the
  name it was addressed to.
\<close>

theorem private_message_stale_binding:
  assumes reach: "reachable P s"
    and u: "map_of (users s) sid = Some u" and sid: "sid \<noteq> []"
    and sender: "map_of (users s) sid2 = Some sender" and other: "sid2 \<noteq> sid"
    and v: "v \<noteq> []" "trim v = v" and free: "map_of (usernameToSocketId s) v = None"
    and body: "trim body \<noteq> []"
  shows "\<exists>s1 out1 s' thread'.
           user_join P s sid (JoinString v) now = Some (s1, out1)
         \<and> last out1 = Ack (AckJoined (str ''general''))
         \<and> reachable P s1
         \<and> map_of (users s1) sid2 = Some sender
         \<and> (\<forall>sid' u'. map_of (users s1) sid' = Some u' \<longrightarrow> u_username u' \<noteq> u_username u)
         \<and> private_message P s1 sid2 (Some (u_username u)) (Some body) tempId now' =
             (s', [SocketEmit sid2
                     (PrivateMessage (serializeThread s' thread' (u_username sender))
                        (serializeMessage (heap s' (nextRef s1)))),
                   IoTo sid
                     (PrivateMessage (serializeThread s' thread' v)
                        (serializeMessage (heap s' (nextRef s1)))),
                   IoTo sid (PrivateNotification (u_username sender) (t_id thread')),
                   Ack (AckPrivate (uuidv4 P (uuidCalls s1)) (t_id thread'))])
         \<and> privateThreads s' =
             AList.update (makeThreadKey (localeCompare P) (u_username sender) v) thread'
               (privateThreads s1)
         \<and> t_id thread' =
             (case map_of (privateThreads s1)
                     (makeThreadKey (localeCompare P) (u_username sender) v) of
                None \<Rightarrow> makeThreadKey (localeCompare P) (u_username sender) v
              | Some t \<Rightarrow> t_id t)
         \<and> t_messages thread' =
             trimMessages
               ((case map_of (privateThreads s1)
                        (makeThreadKey (localeCompare P) (u_username sender) v) of
                   None \<Rightarrow> [] | Some t \<Rightarrow> t_messages t) @ [nextRef s1])
               MAX_PRIVATE_MESSAGES
         \<and> m_deliveredTo (heap s' (nextRef s1)) = Some {u_username sender, v}
         \<and> u_username u \<notin> {u_username sender, v}"
proof -
  let ?new = "\<lparr>u_id = sid, u_username = v, u_status = str ''online'',
               u_activeRoom = str ''general'', u_rooms = [str ''general''], u_lastSeen = now\<rparr>"
  from reachable_inv[OF reach] have inv: "namesInv s" and wf: "roomsWf s" by auto
  have jn: "joinName (JoinString v) = v" using v by (rule joinName_trimmed)
  from user_join_ok[where payload = "JoinString v" and s = s and P = P and sid = sid and now = now]
    v(1) free wf
  obtain s1 out1 where j: "user_join P s sid (JoinString v) now = Some (s1, out1)"
    and us: "users s1 = AList.update sid ?new (users s)"
    and ns: "usernameToSocketId s1 = AList.update v sid (usernameToSocketId s)"
    and lo: "last out1 = Ack (AckJoined (str ''general''))"
    unfolding jn by blast
  have "step P s (UserJoin sid (JoinString v) now) = Some (s1, out1)" by (simp add: j)
  from reachable_step[OF reach this] have r1: "reachable P s1" .
  from inv u have bu: "map_of (usernameToSocketId s) (u_username u) = Some sid"
    and nu: "u_username u \<noteq> []" by (auto simp: namesInv_def)
  from inv sender have bs: "map_of (usernameToSocketId s) (u_username sender) = Some sid2"
    by (auto simp: namesInv_def)
  from bu free have uv: "u_username u \<noteq> v" by auto
  from bu bs other have usd: "u_username u \<noteq> u_username sender" by auto
  have s2: "map_of (users s1) sid2 = Some sender"
    using sender other by (simp add: us update_conv')
  have none: "u_username u' \<noteq> u_username u" if h: "map_of (users s1) sid' = Some u'" for sid' u'
  proof (cases "sid' = sid")
    case True
    with h have "u' = ?new" by (simp add: us update_conv')
    with uv show ?thesis by auto
  next
    case False
    with h have "map_of (users s) sid' = Some u'" by (simp add: us update_conv')
    with inv have "map_of (usernameToSocketId s) (u_username u') = Some sid'"
      by (auto simp: namesInv_def)
    with bu False show ?thesis by auto
  qed
  have rc: "connectedRecipient s1 (u_username u) = Some (sid, ?new)"
    using bu uv sid by (simp add: connectedRecipient_def ns us update_conv')
  have sel: "u_username ?new = v" by simp
  note sent = private_message_sent[OF s2 nu body rc, of P tempId now', unfolded sel]
  from sent obtain s' thread' where pm: "private_message P s1 sid2 (Some (u_username u)) (Some body) tempId now' =
             (s', [SocketEmit sid2
                     (PrivateMessage (serializeThread s' thread' (u_username sender))
                        (serializeMessage (heap s' (nextRef s1)))),
                   IoTo sid
                     (PrivateMessage (serializeThread s' thread' v)
                        (serializeMessage (heap s' (nextRef s1)))),
                   IoTo sid (PrivateNotification (u_username sender) (t_id thread')),
                   Ack (AckPrivate (uuidv4 P (uuidCalls s1)) (t_id thread'))])"
    and th: "privateThreads s' =
             AList.update (makeThreadKey (localeCompare P) (u_username sender) v) thread'
               (privateThreads s1)"
    and tm: "t_messages thread' =
           trimMessages
             ((case map_of (privateThreads s1)
                      (makeThreadKey (localeCompare P) (u_username sender) v) of
                 None \<Rightarrow> [] | Some t \<Rightarrow> t_messages t) @ [nextRef s1])
             MAX_PRIVATE_MESSAGES"
    and ti: "t_id thread' =
             (case map_of (privateThreads s1)
                     (makeThreadKey (localeCompare P) (u_username sender) v) of
                None \<Rightarrow> makeThreadKey (localeCompare P) (u_username sender) v
              | Some t \<Rightarrow> t_id t)"
    and hp: "heap s' = (heap s1)(nextRef s1 :=
           (buildMessage (uuidv4 P (uuidCalls s1)) now' (t_id thread')
              (u_id sender, u_username sender) (trim body) [] False True tempId)
           \<lparr>m_deliveredTo := Some {u_username sender, v}\<rparr>)"
    by (elim exE conjE) (rule that; assumption)
  have dl: "m_deliveredTo (heap s' (nextRef s1)) = Some {u_username sender, v}"
    by (simp add: hp)
  show ?thesis
    using j lo r1 s2 none pm th ti tm dl uv usd by blast
qed

text \<open>
  In the example run: \<open>ada\<close> joins again as \<open>eve\<close> on the connection \<open>s1\<close>; the connected
  users are then \<open>eve\<close> and \<open>grace\<close>. The private message of \<open>grace\<close> to \<open>ada\<close> is
  acknowledged as sent, is the one message of the thread of \<open>grace\<close> and \<open>eve\<close>, and is
  delivered to \<open>grace\<close> and \<open>eve\<close>.
\<close>

theorem private_message_stale_binding_witness:
  "reachable demoPlatform demoState
   \<and> map_option u_username (map_of (users demoState) (str ''s1'')) = Some (str ''ada'')
   \<and> map_option u_username (map_of (users demoState) (str ''s2'')) = Some (str ''grace'')
   \<and> str ''s1'' \<noteq> [] \<and> str ''s2'' \<noteq> str ''s1''
   \<and> str ''eve'' \<noteq> [] \<and> trim (str ''eve'') = str ''eve''
   \<and> map_of (usernameToSocketId demoState) (str ''eve'') = None
   \<and> trim (str ''hi'') \<noteq> []
   \<and> (case user_join demoPlatform demoState (str ''s1'') (JoinString (str ''eve'')) (str ''t3'') of
         None \<Rightarrow> False
       | Some (s1, out1) \<Rightarrow>
           map (\<lambda>(sid, u). (sid, u_username u)) (users s1)
             = [(str ''s1'', str ''eve''), (str ''s2'', str ''grace'')]
         \<and> (case private_message demoPlatform s1 (str ''s2'') (Some (str ''ada''))
                    (Some (str ''hi'')) None (str ''t4'') of
               (s', out) \<Rightarrow>
                 last out = Ack (AckPrivate [0x33]
                                  (makeThreadKey (localeCompare demoPlatform) (str ''grace'') (str ''eve'')))
               \<and> map_option t_messages
                    (map_of (privateThreads s')
                       (makeThreadKey (localeCompare demoPlatform) (str ''grace'') (str ''eve'')))
                   = Some [3]
               \<and> m_deliveredTo (heap s' 3) = Some {str ''grace'', str ''eve''}
               \<and> str ''ada'' \<notin> {str ''grace'', str ''eve''}))"
proof -
  let ?key = "makeThreadKey (localeCompare demoPlatform) (str ''grace'') (str ''eve'')"
  have h: "str ''s1'' \<noteq> []" "str ''s2'' \<noteq> str ''s1''" "str ''eve'' \<noteq> []"
    "trim (str ''eve'') = str ''eve''" "trim (str ''hi'') \<noteq> []"
    by (simp_all add: str_Nil_iff str_eq_iff trim_eve trim_hi)
  have free: "map_of (usernameToSocketId demoState) (str ''eve'') = None"
    by (simp add: demoState_def str_eq_iff)
  have jn: "joinName (JoinString (str ''eve'')) = str ''eve''"
    using h(3,4) by (rule joinName_trimmed)
  have sel: "u_username \<lparr>u_id = str ''s1'', u_username = str ''ada'', u_status = str ''online'',
           u_activeRoom = str ''general'', u_rooms = [str ''general''], u_lastSeen = str ''t1''\<rparr>
           = str ''ada''"
    "u_username \<lparr>u_id = str ''s2'', u_username = str ''grace'', u_status = str ''online'',
           u_activeRoom = str ''general'', u_rooms = [str ''general''], u_lastSeen = str ''t2''\<rparr>
           = str ''grace''"
    by simp_all
  note t = private_message_stale_binding[OF demoState_reachable demoState_users(1) h(1)
      demoState_users(2) h(2) h(3) h(4) free h(5),
      of "str ''t3''" None "str ''t4''", unfolded sel]
  from t obtain s1 out1 s' thread' where
    j: "user_join demoPlatform demoState (str ''s1'') (JoinString (str ''eve'')) (str ''t3'') = Some (s1, out1)"
    and pm: "private_message demoPlatform s1 (str ''s2'') (Some (str ''ada'')) (Some (str ''hi''))
               None (str ''t4'') =
             (s', [SocketEmit (str ''s2'')
                     (PrivateMessage (serializeThread s' thread' (str ''grace''))
                        (serializeMessage (heap s' (nextRef s1)))),
                   IoTo (str ''s1'')
                     (PrivateMessage (serializeThread s' thread' (str ''eve''))
                        (serializeMessage (heap s' (nextRef s1)))),
                   IoTo (str ''s1'') (PrivateNotification (str ''grace'') (t_id thread')),
                   Ack (AckPrivate (uuidv4 demoPlatform (uuidCalls s1)) (t_id thread'))])"
    and th: "privateThreads s' = AList.update ?key thread' (privateThreads s1)"
    and ti: "t_id thread' = (case map_of (privateThreads s1) ?key of
                None \<Rightarrow> ?key | Some t \<Rightarrow> t_id t)"
    and tm: "t_messages thread' =
             trimMessages
               ((case map_of (privateThreads s1) ?key of
                   None \<Rightarrow> [] | Some t \<Rightarrow> t_messages t) @ [nextRef s1])
               MAX_PRIVATE_MESSAGES"
    and dl: "m_deliveredTo (heap s' (nextRef s1)) = Some {str ''grace'', str ''eve''}"
    and nin: "str ''ada'' \<notin> {str ''grace'', str ''eve''}"
    by (elim exE conjE) (rule that; assumption)
  have rid: "r_id \<lparr>r_id = str ''general'', r_name = str ''General'',
           r_description = str ''Welcome to the main lobby. Say hi '' @ [0xD83D, 0xDC4B],
           r_createdAt = str ''t0'', r_createdBy = str ''system'', r_messages = [0, 1],
           r_members = {str ''s1'', str ''s2''}, r_typing = {}\<rparr> = str ''general''" by simp
  from user_join_state[where payload = "JoinString (str ''eve'')" and s = demoState
      and P = demoPlatform and sid = "str ''s1''" and now = "str ''t3''", unfolded jn,
      OF h(3) free demoState_general rid] j
  have us: "users s1 = AList.update (str ''s1'')
           \<lparr>u_id = str ''s1'', u_username = str ''eve'', u_status = str ''online'',
            u_activeRoom = str ''general'', u_rooms = [str ''general''], u_lastSeen = str ''t3''\<rparr>
           (users demoState)"
    and pt: "privateThreads s1 = privateThreads demoState"
    and nr: "nextRef s1 = Suc (nextRef demoState)"
    and uc: "uuidCalls s1 = Suc (uuidCalls demoState)"
    by auto
  have nr3: "nextRef s1 = 3" and uc3: "uuidCalls s1 = 3" and pt0: "privateThreads s1 = []"
    by (simp_all add: nr uc pt demoState_def)
  have names: "map (\<lambda>(sid, u). (sid, u_username u)) (users s1)
             = [(str ''s1'', str ''eve''), (str ''s2'', str ''grace'')]"
    by (simp add: us demoState_def str_eq_iff)
  have tid: "t_id thread' = ?key" by (simp add: ti pt0)
  have ack: "uuidv4 demoPlatform (uuidCalls s1) = [0x33]" by (simp add: uc3 demoPlatform_def)
  have tmsg: "map_option t_messages (map_of (privateThreads s') ?key) = Some [3]"
    by (simp add: th tm pt0 nr3 update_conv' trimMessages_def MAX_PRIVATE_MESSAGES_def)
  show ?thesis
    using demoState_reachable h free names tmsg dl nin
    by (simp add: demoState_users j pm tid ack nr3)
qed


section \<open>The bound on the logs\<close>

lemma trimMessages_le: "0 < n \<Longrightarrow> length (trimMessages xs n) \<le> n"
  by (simp add: trimMessages_def)

lemma trimMessages_room [simp]:
  "length (trimMessages xs MAX_ROOM_MESSAGES) \<le> MAX_ROOM_MESSAGES"
  by (simp add: trimMessages_def MAX_ROOM_MESSAGES_def)

lemma trimMessages_thread [simp]:
  "length (trimMessages xs MAX_PRIVATE_MESSAGES) \<le> MAX_PRIVATE_MESSAGES"
  by (simp add: trimMessages_def MAX_PRIVATE_MESSAGES_def)

lemma addSystemMessage_logs:
  assumes "addSystemMessage P s rid txt now = (s', out)" and "logsBounded s"
  shows "logsBounded s'"
  using assms
  by (auto simp: addSystemMessage_def newMessage_def Let_def logsBounded_def update_conv'
        addMessageToRoom_def split: option.splits if_splits)

lemma createRoom_logs:
  assumes "createRoom P s name opts now = (key, room, s')" and "logsBounded s"
  shows "logsBounded s'" "length (r_messages room) \<le> MAX_ROOM_MESSAGES"
  using assms
  by (auto simp: createRoom_def normalizeRoomId_def Let_def update_conv' logsBounded_def
        split: option.splits if_splits prod.splits)

lemma logsBounded_update_room:
  assumes "logsBounded s" and "length (r_messages r) \<le> MAX_ROOM_MESSAGES"
    and "rooms s' = AList.update k r (rooms s)" and "privateThreads s' = privateThreads s"
  shows "logsBounded s'"
  using assms by (auto simp: logsBounded_def update_conv')

lemma logsBounded_cong:
  "rooms s' = rooms s \<Longrightarrow> privateThreads s' = privateThreads s \<Longrightarrow> logsBounded s
   \<Longrightarrow> logsBounded s'"
  by (simp add: logsBounded_def)

lemma leave_room_logs:
  assumes "leave_room P s sid roomId now = (s', out)" and "logsBounded s"
  shows "logsBounded s'"
proof (cases "map_of (users s) sid = None \<or> getRoom s roomId = None")
  case True
  with assms show ?thesis by (auto simp: leave_room_def split: option.splits)
next
  case False
  then obtain user room where u: "map_of (users s) sid = Some user"
    and r: "getRoom s roomId = Some room" by auto
  define s2 where "s2 = s\<lparr>users := AList.update sid (user\<lparr>u_rooms := setDelete (r_id room) (u_rooms user)\<rparr>) (users s),
                          rooms := AList.update (orDefault roomId [])
                                  (room\<lparr>r_members := r_members room - {sid}\<rparr>) (rooms s)\<rparr>"
  obtain s3 out1 where a: "addSystemMessage P s2 (r_id room)
                              (u_username user @ str '' left '' @ r_name room) now = (s3, out1)"
    by (cases "addSystemMessage P s2 (r_id room)
                              (u_username user @ str '' left '' @ r_name room) now") auto
  have "length (r_messages room) \<le> MAX_ROOM_MESSAGES"
    using r assms(2) by (auto simp: getRoom_def logsBounded_def split: option.splits)
  then have b2: "logsBounded s2"
    by (intro logsBounded_update_room[OF assms(2), where k = "orDefault roomId []"
          and r = "room\<lparr>r_members := r_members room - {sid}\<rparr>"])
       (simp_all add: s2_def)
  have b3: "logsBounded s3" by (rule addSystemMessage_logs[OF a b2])
  have "rooms s' = rooms s3 \<and> privateThreads s' = privateThreads s3"
    using assms(1) u r a
    by (auto simp: leave_room_def Let_def s2_def split: if_splits)
  with b3 show ?thesis by (auto intro: logsBounded_cong)
qed


lemma simple_handlers_logs:
  "message_delivered s sid messageId roomId = (s', out) \<Longrightarrow> logsBounded s \<Longrightarrow> logsBounded s'"
  "message_read s sid messageId roomId = (s', out) \<Longrightarrow> logsBounded s \<Longrightarrow> logsBounded s'"
  "react_to_message s sid roomId messageId emoji = (s', out) \<Longrightarrow> logsBounded s \<Longrightarrow> logsBounded s'"
  "private_message_read s sid threadId messageId = (s', out) \<Longrightarrow> logsBounded s \<Longrightarrow> logsBounded s'"
  "react_to_private_message s sid threadId messageId emoji = (s', out) \<Longrightarrow> logsBounded s
     \<Longrightarrow> logsBounded s'"
  "set_active_room s sid roomId now = (s', out) \<Longrightarrow> logsBounded s \<Longrightarrow> logsBounded s'"
  "private_typing s sid to isTyping = (s', out) \<Longrightarrow> logsBounded s \<Longrightarrow> logsBounded s'"
  by (auto simp: message_delivered_def message_read_def react_to_message_def
        private_message_read_def react_to_private_message_def set_active_room_def
        private_typing_def Let_def logsBounded_def
        split: option.splits if_splits)

lemma typing_logs:
  "typing s sid roomId isTyping = (s', out) \<Longrightarrow> logsBounded s \<Longrightarrow> logsBounded s'"
  "typingExpired s rid username = (s', out) \<Longrightarrow> logsBounded s \<Longrightarrow> logsBounded s'"
  by (auto simp: typing_def typingExpired_def Let_def logsBounded_def getRoom_def update_conv'
        split: option.splits if_splits)

lemma send_message_logs:
  assumes "send_message P s sid roomId message attachments tempId now = (s', out)"
    and "logsBounded s"
  shows "logsBounded s'"
  using assms
  by (auto simp: send_message_def Let_def logsBounded_def getRoom_def newMessage_def
        addMessageToRoom_def update_conv' split: option.splits if_splits)

lemma private_message_logs:
  assumes "private_message P s sid to message tempId now = (s', out)" and "logsBounded s"
  shows "logsBounded s'"
  using assms
  by (auto simp: private_message_def Let_def logsBounded_def ensurePrivateThread_def
        newMessage_def addMessageToThread_def update_conv'
        split: option.splits if_splits)

lemma disconnectRoom_logs:
  assumes "logsBounded (fst acc)"
  shows "logsBounded (fst (disconnectRoom P sid username now acc rid))"
proof (cases "map_of (rooms (fst acc)) rid")
  case None
  with assms show ?thesis by (simp add: disconnectRoom_def)
next
  case (Some room)
  define s1 where
    "s1 = (fst acc)\<lparr>rooms := AList.update rid
             (room\<lparr>r_members := r_members room - {sid}, r_typing := r_typing room - {username}\<rparr>)
             (rooms (fst acc))\<rparr>"
  obtain s2 out2 where asm:
    "addSystemMessage P s1 (r_id room) (username @ str '' left the room'') now = (s2, out2)"
    by (cases "addSystemMessage P s1 (r_id room) (username @ str '' left the room'') now") auto
  have "length (r_messages room) \<le> MAX_ROOM_MESSAGES"
    using Some assms by (auto simp: logsBounded_def)
  then have b1: "logsBounded s1"
    by (intro logsBounded_update_room[OF assms, where k = rid
          and r = "room\<lparr>r_members := r_members room - {sid},
                          r_typing := r_typing room - {username}\<rparr>"])
       (simp_all add: s1_def)
  have "fst (disconnectRoom P sid username now acc rid) = s2"
    using Some asm by (auto simp: disconnectRoom_def Let_def s1_def)
  with addSystemMessage_logs[OF asm b1] show ?thesis by simp
qed

lemma foldl_disconnectRoom_logs:
  "logsBounded (fst acc) \<Longrightarrow>
   logsBounded (fst (foldl (disconnectRoom P sid username now) acc rids))"
  by (induction rids arbitrary: acc) (simp_all add: disconnectRoom_logs)

lemma disconnect_logs:
  assumes "disconnect P s sid now = (s', out)" and "logsBounded s"
  shows "logsBounded s'"
proof (cases "map_of (users s) sid")
  case None
  with assms show ?thesis by (simp add: disconnect_None)
next
  case (Some user)
  let ?acc = "foldl (disconnectRoom P sid (u_username user) now) (s, []) (u_rooms user)"
  have b: "logsBounded (fst ?acc)"
    using foldl_disconnectRoom_logs[of "(s, [])" P sid "u_username user" now "u_rooms user"] assms(2)
    by simp
  have "rooms s' = rooms (fst ?acc) \<and> privateThreads s' = privateThreads (fst ?acc)"
    using assms(1) Some by (auto simp: disconnect_def Let_def split: prod.splits)
  with b show ?thesis by (auto intro: logsBounded_cong)
qed

lemma join_room_logs:
  assumes jr: "join_room P s sid requestedRoom roomName description now = (s', out)"
    and b: "logsBounded s"
  shows "logsBounded s'"
proof (cases "map_of (users s) sid")
  case None
  with jr b show ?thesis by (simp add: join_room_def)
next
  case (Some user)
  show ?thesis
  proof (cases "\<not> truthy requestedRoom \<and> \<not> truthy roomName")
    case True
    with jr b Some show ?thesis by (simp add: join_room_def)
  next
    case False
    define targetName where
      "targetName = (if truthy requestedRoom then orDefault requestedRoom [] else orDefault roomName [])"
    obtain roomKey room s1 where cr:
      "createRoom P s targetName
         \<lparr>o_id = requestedRoom, o_name = roomName, o_description = description,
          o_createdBy = Some (u_username user)\<rparr> now = (roomKey, room, s1)"
      by (cases "createRoom P s targetName
         \<lparr>o_id = requestedRoom, o_name = roomName, o_description = description,
          o_createdBy = Some (u_username user)\<rparr> now") auto
    note b1 = createRoom_logs[OF cr b]
    show ?thesis
    proof (cases "r_id room \<in> set (u_rooms user)")
      case True
      have "rooms s' = rooms s1 \<and> privateThreads s' = privateThreads s1"
        using jr Some False cr True
        by (auto simp: join_room_def Let_def targetName_def split: if_splits)
      with b1(1) show ?thesis by (auto intro: logsBounded_cong)
    next
      case notin: False
      define s2 where
        "s2 = s1\<lparr>users := AList.update sid (user\<lparr>u_rooms := setAdd (r_id room) (u_rooms user)\<rparr>) (users s1),
                 rooms := AList.update roomKey (room\<lparr>r_members := insert sid (r_members room)\<rparr>)
                            (rooms s1)\<rparr>"
      obtain s3 out3 where asm:
        "addSystemMessage P s2 (r_id room) (u_username user @ str '' joined '' @ r_name room) now
         = (s3, out3)"
        by (cases "addSystemMessage P s2 (r_id room)
                     (u_username user @ str '' joined '' @ r_name room) now") auto
      have b2: "logsBounded s2"
        by (rule logsBounded_update_room[OF b1(1), where k = roomKey
              and r = "room\<lparr>r_members := insert sid (r_members room)\<rparr>"])
           (simp_all add: s2_def b1(2))
      have b3: "logsBounded s3" by (rule addSystemMessage_logs[OF asm b2])
      have "rooms s' = rooms s3 \<and> privateThreads s' = privateThreads s3"
        using jr Some False cr notin asm
        by (auto simp: join_room_def Let_def targetName_def s2_def split: if_splits)
      with b3 show ?thesis by (auto intro: logsBounded_cong)
    qed
  qed
qed

lemma user_join_logs:
  assumes uj: "user_join P s sid payload now = Some (s', out)" and b: "logsBounded s"
  shows "logsBounded s'"
proof (cases "joinName payload = [] \<or> map_of (usernameToSocketId s) (joinName payload) \<noteq> None")
  case True
  with uj b show ?thesis
    by (cases "joinName payload = []") (auto simp: user_join_invalid user_join_conflict)
next
  case False
  then have name: "joinName payload \<noteq> []"
    and free: "map_of (usernameToSocketId s) (joinName payload) = None" by auto
  show ?thesis
  proof (cases "map_of (rooms s) (str ''general'')")
    case (Some r)
    then have "length (r_messages r) \<le> MAX_ROOM_MESSAGES" using b by (auto simp: logsBounded_def)
    with uj name free Some b show ?thesis
      by (auto simp: user_join_def joinName_fold Let_def setAdd_def update_conv'
            addSystemMessage_def newMessage_def logsBounded_def addMessageToRoom_def
            split: option.splits if_splits)
  next
    case None
    with uj name free b show ?thesis
      by (auto simp: user_join_def joinName_fold Let_def setAdd_def update_conv'
            createRoom_def truthy_simps orDefault_simps str_Nil_iff
            addSystemMessage_def newMessage_def logsBounded_def addMessageToRoom_def
            split: option.splits if_splits)
  qed
qed


lemma step_logs:
  assumes "step P s e = Some (s', out)" and b: "logsBounded s"
  shows "logsBounded s'"
proof (cases e)
  case (UserJoin sid payload now)
  with assms show ?thesis by (auto intro: user_join_logs)
next
  case (JoinRoom sid requestedRoom roomName description now)
  with assms show ?thesis by (auto intro: join_room_logs)
next
  case (LeaveRoom sid roomId now)
  with assms show ?thesis by (auto intro: leave_room_logs)
next
  case (SendMessage sid roomId message attachments tempId now)
  with assms show ?thesis by (auto intro: send_message_logs)
next
  case (MessageDelivered sid messageId roomId)
  with assms show ?thesis by (auto intro: simple_handlers_logs)
next
  case (MessageRead sid messageId roomId)
  with assms show ?thesis by (auto intro: simple_handlers_logs)
next
  case (ReactToMessage sid roomId messageId emoji)
  with assms show ?thesis by (auto intro: simple_handlers_logs)
next
  case (Typing sid roomId isTyping)
  with assms show ?thesis by (auto intro: typing_logs)
next
  case (TypingExpired roomId username)
  with assms show ?thesis by (auto intro: typing_logs)
next
  case (RequestRoomHistory sid roomId before limit)
  with assms show ?thesis by auto
next
  case (PrivateMessageEv sid to message tempId now)
  with assms show ?thesis by (auto intro: private_message_logs)
next
  case (PrivateTypingEv sid to isTyping)
  with assms show ?thesis by (auto intro: simple_handlers_logs)
next
  case (PrivateMessageRead sid threadId messageId)
  with assms show ?thesis by (auto intro: simple_handlers_logs)
next
  case (ReactToPrivateMessage sid threadId messageId emoji)
  with assms show ?thesis by (auto intro: simple_handlers_logs)
next
  case (SetActiveRoom sid roomId now)
  with assms show ?thesis by (auto intro: simple_handlers_logs)
next
  case (Disconnect sid now)
  with assms show ?thesis by (auto intro: disconnect_logs)
qed

lemma run_logs: "run P s evs = Some s' \<Longrightarrow> logsBounded s \<Longrightarrow> logsBounded s'"
proof (induction evs arbitrary: s)
  case Nil
  then show ?case by simp
next
  case (Cons e evs)
  then obtain s1 out where st: "step P s e = Some (s1, out)" and r: "run P s1 evs = Some s'"
    by (auto split: option.splits)
  from Cons.IH[OF r step_logs[OF st Cons.prems(2)]] show ?case .
qed

lemma initialState_logs: "logsBounded (initialState P t0)"
  by (auto simp: logsBounded_def initialState_rooms initialState_fields split: if_splits)

lemma reachable_logs: "reachable P s \<Longrightarrow> logsBounded s"
  unfolding reachable_def using run_logs[OF _ initialState_logs] by blast

text \<open>
  Claim C1. Starting from a log within its capacity of 250 (every log starts empty), any
  sequence of appends to a room or to a thread leaves at most 250 entries: the log is the
  last 250 of everything it held and received, in arrival order. After more than 250
  appends its length is 250 and it holds exactly the 250 most recent of them. In every
  state the server can reach from its start, every room log and every private thread log
  holds at most 250 entries.
\<close>

theorem log_bound:
  assumes "length (r_messages room) \<le> 250" and "length (t_messages thread) \<le> 250"
  shows "length (r_messages (foldl addMessageToRoom room ms)) \<le> 250
       \<and> length (t_messages (foldl addMessageToThread thread ms)) \<le> 250
       \<and> r_messages (foldl addMessageToRoom room ms)
           = drop (length (r_messages room @ ms) - 250) (r_messages room @ ms)
       \<and> t_messages (foldl addMessageToThread thread ms)
           = drop (length (t_messages thread @ ms) - 250) (t_messages thread @ ms)
       \<and> (length ms > 250 \<longrightarrow>
            length (r_messages (foldl addMessageToRoom room ms)) = 250
          \<and> r_messages (foldl addMessageToRoom room ms) = drop (length ms - 250) ms
          \<and> length (t_messages (foldl addMessageToThread thread ms)) = 250
          \<and> t_messages (foldl addMessageToThread thread ms) = drop (length ms - 250) ms)
       \<and> (\<forall>P s k r. reachable P s \<and> map_of (rooms s) k = Some r
            \<longrightarrow> length (r_messages r) \<le> 250)
       \<and> (\<forall>P s k t. reachable P s \<and> map_of (privateThreads s) k = Some t
            \<longrightarrow> length (t_messages t) \<le> 250)"
proof -
  have r: "r_messages (foldl addMessageToRoom room ms)
           = drop (length (r_messages room @ ms) - 250) (r_messages room @ ms)"
    using assms(1) by (simp add: r_messages_foldl MAX_ROOM_MESSAGES_def foldl_trim)
  have t: "t_messages (foldl addMessageToThread thread ms)
           = drop (length (t_messages thread @ ms) - 250) (t_messages thread @ ms)"
    using assms(2) by (simp add: t_messages_foldl MAX_PRIVATE_MESSAGES_def foldl_trim)
  have inv: "(\<forall>k r. map_of (rooms s) k = Some r \<longrightarrow> length (r_messages r) \<le> 250)
           \<and> (\<forall>k t. map_of (privateThreads s) k = Some t \<longrightarrow> length (t_messages t) \<le> 250)"
    if "reachable P s" for P s
    using reachable_logs[OF that]
    by (simp add: logsBounded_def MAX_ROOM_MESSAGES_def MAX_PRIVATE_MESSAGES_def)
  have fold: "length (r_messages (foldl addMessageToRoom room ms)) \<le> 250
       \<and> length (t_messages (foldl addMessageToThread thread ms)) \<le> 250
       \<and> (length ms > 250 \<longrightarrow>
            length (r_messages (foldl addMessageToRoom room ms)) = 250
          \<and> r_messages (foldl addMessageToRoom room ms) = drop (length ms - 250) ms
          \<and> length (t_messages (foldl addMessageToThread thread ms)) = 250
          \<and> t_messages (foldl addMessageToThread thread ms) = drop (length ms - 250) ms)"
    unfolding r t using assms by auto
  show ?thesis using r t fold inv by blast
qed

text \<open>
  The bound at work: 251 appends to an empty room and to an empty thread keep the last 250,
  and the logs of two reachable states (the example run, and the example run followed by a
  private message from ada to grace) are within the bound.
\<close>

theorem log_bound_witness:
  "length (r_messages \<lparr>r_id = [], r_name = [], r_description = [], r_createdAt = [],
                        r_createdBy = [], r_messages = [], r_members = {}, r_typing = {}\<rparr>) \<le> 250
   \<and> length (t_messages \<lparr>t_id = [], t_participants = [], t_messages = [], t_createdAt = []\<rparr>) \<le> 250
   \<and> length [0..<251] > 250
   \<and> r_messages (foldl addMessageToRoom
        \<lparr>r_id = [], r_name = [], r_description = [], r_createdAt = [],
         r_createdBy = [], r_messages = [], r_members = {}, r_typing = {}\<rparr> [0..<251])
       = drop (length [0..<251] - 250) [0..<251]
   \<and> t_messages (foldl addMessageToThread
        \<lparr>t_id = [], t_participants = [], t_messages = [], t_createdAt = []\<rparr> [0..<251])
       = drop (length [0..<251] - 250) [0..<251]
   \<and> reachable demoPlatform demoState
   \<and> map_option (\<lambda>r. length (r_messages r)) (map_of (rooms demoState) (str ''general'')) = Some 2
   \<and> reachable demoPlatform
        (fst (private_message demoPlatform demoState (str ''s1'') (Some (str ''grace''))
                (Some (str ''hi'')) None (str ''t3'')))
   \<and> map_option (\<lambda>t. length (t_messages t) \<le> 250)
        (map_of (privateThreads
                   (fst (private_message demoPlatform demoState (str ''s1'') (Some (str ''grace''))
                           (Some (str ''hi'')) None (str ''t3''))))
           (makeThreadKey (localeCompare demoPlatform) (str ''ada'') (str ''grace'')))
       = Some True"
proof -
  let ?r0 = "\<lparr>r_id = [], r_name = [], r_description = [], r_createdAt = [],
                        r_createdBy = [], r_messages = [], r_members = {}, r_typing = {}\<rparr>"
  let ?t0 = "\<lparr>t_id = [], t_participants = [], t_messages = [], t_createdAt = []\<rparr>"
  let ?grace = "\<lparr>u_id = str ''s2'', u_username = str ''grace'', u_status = str ''online'',
           u_activeRoom = str ''general'', u_rooms = [str ''general''], u_lastSeen = str ''t2''\<rparr>"
  let ?pm = "private_message demoPlatform demoState (str ''s1'') (Some (str ''grace''))
                (Some (str ''hi'')) None (str ''t3'')"
  let ?key = "makeThreadKey (localeCompare demoPlatform) (str ''ada'') (str ''grace'')"
  have pre: "length (r_messages ?r0) \<le> 250" "length (t_messages ?t0) \<le> 250" by simp_all
  note t = log_bound[OF pre, of "[0..<251]"]
  have g: "str ''grace'' \<noteq> []" and h: "trim (str ''hi'') \<noteq> []"
    by (simp_all add: str_Nil_iff trim_hi)
  have cg: "connectedRecipient demoState (str ''grace'') = Some (str ''s2'', ?grace)"
    by (simp add: connectedRecipient_def demoState_def str_eq_iff str_Nil_iff)
  from private_message_sent[OF demoState_users(1) g h cg, of demoPlatform None "str ''t3''"]
  obtain s' thread' out where pm: "?pm = (s', out)"
    and th: "privateThreads s' = AList.update ?key thread' (privateThreads demoState)"
    by auto
  have "step demoPlatform demoState
          (PrivateMessageEv (str ''s1'') (Some (str ''grace'')) (Some (str ''hi'')) None (str ''t3''))
        = Some (s', out)" by (simp add: pm)
  from reachable_step[OF demoState_reachable this] have rs: "reachable demoPlatform s'" .
  have k: "map_of (privateThreads s') ?key = Some thread'" by (simp add: th update_conv')
  from t rs k have "length (t_messages thread') \<le> 250" by blast
  with k have th250: "map_option (\<lambda>t. length (t_messages t) \<le> 250) (map_of (privateThreads s') ?key)
                      = Some True" by simp
  have g2: "map_option (\<lambda>r. length (r_messages r)) (map_of (rooms demoState) (str ''general'')) = Some 2"
    by (simp add: demoState_general)
  from t have fold: "r_messages (foldl addMessageToRoom ?r0 [0..<251]) = drop (length [0..<251] - 250) [0..<251]"
    "t_messages (foldl addMessageToThread ?t0 [0..<251]) = drop (length [0..<251] - 250) [0..<251]"
    by simp_all
  show ?thesis
    using fold demoState_reachable g2 rs th250 by (simp add: pm)
qed

end
